theory Spec2Isabelle
  imports Main "HOL-Library.Word"
begin

section \<open>Data model\<close>

type_synonym uint32_t = "32 word"

text \<open>A position in the core grid; the source builds it as \<open>{i / num_cores_y, i % num_cores_y}\<close>
  from 32-bit values.\<close>

datatype CoreCoord = CoreCoord (coord_x: uint32_t) (coord_y: uint32_t)

text \<open>A rectangle of cores, both corners included, and a union of rectangles.\<close>

datatype CoreRange = CoreRange (range_start: CoreCoord) (range_end: CoreCoord)

type_synonym CoreRangeSet = "CoreRange list"

definition core_range_contains :: "CoreRange \<Rightarrow> CoreCoord \<Rightarrow> bool" where
  "core_range_contains r c =
     (coord_x (range_start r) \<le> coord_x c \<and> coord_x c \<le> coord_x (range_end r) \<and>
      coord_y (range_start r) \<le> coord_y c \<and> coord_y c \<le> coord_y (range_end r))"

definition core_coord_in_core_ranges :: "CoreRangeSet \<Rightarrow> CoreCoord \<Rightarrow> bool" where
  "core_coord_in_core_ranges crs c = list_ex (\<lambda>r. core_range_contains r c) crs"

datatype BufferType = DRAM | L1

record Buffer =
  address :: uint32_t
  buffer_type :: BufferType

datatype Shape = Shape uint32_t uint32_t uint32_t uint32_t

type_synonym DataType = nat
type_synonym DataFormat = nat

record Device =
  compute_and_storage_grid_size :: CoreCoord

record Tensor =
  shape :: Shape
  dtype :: DataType
  buffer :: "Buffer option"
  device :: Device

datatype BcastOpMath = BcastOpMath_ADD | BcastOpMath_SUB | BcastOpMath_MUL
datatype BcastOpDim = BcastOpDim_H | BcastOpDim_W | BcastOpDim_HW

datatype DataMovementProcessor = RISCV_0 | RISCV_1
datatype NOC = RISCV_0_default | RISCV_1_default
datatype MathFidelity = LoFi | HiFi2 | HiFi3 | HiFi4

record CircularBuffer =
  cb_index :: uint32_t
  cb_core_ranges :: CoreRangeSet
  cb_num_tiles :: uint32_t
  cb_size_in_bytes :: uint32_t
  cb_data_format :: DataFormat

record DataMovementKernel =
  dm_name :: string
  dm_core_ranges :: CoreRangeSet
  dm_compile_time_args :: "uint32_t list"
  dm_processor :: DataMovementProcessor
  dm_noc :: NOC
  dm_runtime_args :: "CoreCoord \<rightharpoonup> uint32_t list"

record ComputeKernel =
  ck_name :: string
  ck_core_ranges :: CoreRangeSet
  ck_compile_time_args :: "uint32_t list"
  ck_math_fidelity :: MathFidelity
  ck_fp32_dest_acc_en :: bool
  ck_math_approx_mode :: bool
  ck_defines :: "(string \<times> string) list"

text \<open>The program owns its queues and kernels; a kernel pointer of the source is the
  position of the kernel in the program's list.\<close>

record Program =
  circular_buffers :: "CircularBuffer list"
  data_movement_kernels :: "DataMovementKernel list"
  compute_kernels :: "ComputeKernel list"

datatype error =
    AssertFailed string
  | DivideByZero
  | NullPointer
  | OutOfRange

text \<open>What the source takes from headers that are not part of the sources at hand: the
  tile constants of \<open>constants.hpp\<close>, the format conversion and tile size, and the kernel
  names and defines of \<open>bcast_op_utils\<close>.\<close>

record externals =
  TILE_WIDTH :: uint32_t
  TILE_HEIGHT :: uint32_t
  TILE_HW :: uint32_t
  datatype_to_dataformat_converter :: "DataType \<Rightarrow> DataFormat"
  dataformat_code :: "DataFormat \<Rightarrow> uint32_t"
  TileSize :: "DataFormat \<Rightarrow> uint32_t"
  get_reader_name :: "BcastOpDim \<Rightarrow> string"
  get_compute_name :: "BcastOpDim \<Rightarrow> string"
  bcast_defines :: "BcastOpDim \<Rightarrow> BcastOpMath \<Rightarrow> (string \<times> string) list"

section \<open>Host API\<close>

text \<open>Modelled from the spec: the host API of \<open>tt_metal/host_api.hpp\<close> is not among the
  sources. A queue or kernel is created by adding it to the program; runtime arguments
  are stored per kernel and core and read back as stored. The local storage budget of a
  core is not given anywhere, so no creation fails here.\<close>

definition CreateCircularBuffers ::
  "Program \<Rightarrow> uint32_t \<Rightarrow> CoreRangeSet \<Rightarrow> uint32_t \<Rightarrow> uint32_t \<Rightarrow> DataFormat \<Rightarrow> Program" where
  "CreateCircularBuffers program idx cores num_tiles size_in_bytes fmt =
     program\<lparr>circular_buffers := circular_buffers program @
       [\<lparr>cb_index = idx, cb_core_ranges = cores, cb_num_tiles = num_tiles,
         cb_size_in_bytes = size_in_bytes, cb_data_format = fmt\<rparr>]\<rparr>"

definition CreateDataMovementKernel ::
  "Program \<Rightarrow> string \<Rightarrow> CoreRangeSet \<Rightarrow> uint32_t list \<Rightarrow> DataMovementProcessor \<Rightarrow> NOC
     \<Rightarrow> nat \<times> Program" where
  "CreateDataMovementKernel program name cores cargs proc noc =
     (length (data_movement_kernels program),
      program\<lparr>data_movement_kernels := data_movement_kernels program @
        [\<lparr>dm_name = name, dm_core_ranges = cores, dm_compile_time_args = cargs,
          dm_processor = proc, dm_noc = noc, dm_runtime_args = Map.empty\<rparr>]\<rparr>)"

definition CreateComputeKernel ::
  "Program \<Rightarrow> string \<Rightarrow> CoreRangeSet \<Rightarrow> uint32_t list \<Rightarrow> MathFidelity \<Rightarrow> bool \<Rightarrow> bool
     \<Rightarrow> nat \<times> Program" where
  "CreateComputeKernel program name cores cargs fidelity fp32 approx =
     (length (compute_kernels program),
      program\<lparr>compute_kernels := compute_kernels program @
        [\<lparr>ck_name = name, ck_core_ranges = cores, ck_compile_time_args = cargs,
          ck_math_fidelity = fidelity, ck_fp32_dest_acc_en = fp32,
          ck_math_approx_mode = approx, ck_defines = []\<rparr>]\<rparr>)"

definition add_defines ::
  "externals \<Rightarrow> Program \<Rightarrow> nat \<Rightarrow> BcastOpDim \<Rightarrow> BcastOpMath \<Rightarrow> Program" where
  "add_defines ext program k bcast_dim bcast_math =
     program\<lparr>compute_kernels := (compute_kernels program)
       [k := (compute_kernels program ! k)
          \<lparr>ck_defines := ck_defines (compute_kernels program ! k)
             @ bcast_defines ext bcast_dim bcast_math\<rparr>]\<rparr>"

definition SetRuntimeArgs ::
  "Program \<Rightarrow> nat \<Rightarrow> CoreCoord \<Rightarrow> uint32_t list \<Rightarrow> Program" where
  "SetRuntimeArgs program k core args =
     program\<lparr>data_movement_kernels := (data_movement_kernels program)
       [k := (data_movement_kernels program ! k)
          \<lparr>dm_runtime_args := (dm_runtime_args (data_movement_kernels program ! k))
             (core \<mapsto> args)\<rparr>]\<rparr>"

definition GetRuntimeArgs ::
  "Program \<Rightarrow> nat \<Rightarrow> CoreCoord \<Rightarrow> error + uint32_t list" where
  "GetRuntimeArgs program k core =
     (if k < length (data_movement_kernels program)
      then (case dm_runtime_args (data_movement_kernels program ! k) core of
              None \<Rightarrow> Inl OutOfRange
            | Some args \<Rightarrow> Inr args)
      else Inl NullPointer)"

section \<open>Work splitter\<close>

text \<open>Modelled from the spec: \<open>split_work_to_cores\<close> of \<open>tt_dnn/op_library/work_split.hpp\<close>
  is not among the sources. The spec's contract: \<open>num_active_cores = min(cols*rows,
  total_tiles)\<close>, \<open>base = total_tiles / num_active_cores\<close>, \<open>remainder = total_tiles %
  num_active_cores\<close>, group 1 is the first \<open>remainder\<close> cores in the order
  \<open>i -> (i / rows, i % rows)\<close> with \<open>base + 1\<close> tiles each, group 2 the remaining cores
  with \<open>base\<close> tiles each; with no tiles there is no active core, both groups are empty
  and nothing fails. Each core is a range of its own.\<close>

definition core_of_index :: "nat \<Rightarrow> nat \<Rightarrow> CoreCoord" where
  "core_of_index rows i = CoreCoord (of_nat (i div rows)) (of_nat (i mod rows))"

definition cores_between :: "nat \<Rightarrow> nat \<Rightarrow> nat \<Rightarrow> CoreRangeSet" where
  "cores_between rows lo hi =
     map (\<lambda>i. CoreRange (core_of_index rows i) (core_of_index rows i)) [lo..<hi]"

definition split_work_to_cores ::
  "CoreCoord \<Rightarrow> uint32_t
     \<Rightarrow> uint32_t \<times> CoreRangeSet \<times> CoreRangeSet \<times> CoreRangeSet \<times> uint32_t \<times> uint32_t" where
  "split_work_to_cores grid_size units_to_divide =
     (let cols = unat (coord_x grid_size);
          rows = unat (coord_y grid_size);
          total_tiles = unat units_to_divide;
          num_active_cores = min (cols * rows) total_tiles;
          base = (if num_active_cores = 0 then 0 else total_tiles div num_active_cores);
          remainder = (if num_active_cores = 0 then 0 else total_tiles mod num_active_cores)
      in (of_nat num_active_cores,
          cores_between rows 0 num_active_cores,
          cores_between rows 0 remainder,
          cores_between rows remainder num_active_cores,
          of_nat (base + 1),
          of_nat base))"

section \<open>Program construction\<close>

text \<open>The values the runtime-argument loop of \<open>bcast_multi_core_hw\<close> reads from its
  enclosing scope.\<close>

record loop_scope =
  ls_num_cores :: uint32_t
  ls_num_cores_y :: uint32_t
  ls_core_group_1 :: CoreRangeSet
  ls_core_group_2 :: CoreRangeSet
  ls_num_tiles_per_core_group_1 :: uint32_t
  ls_num_tiles_per_core_group_2 :: uint32_t
  ls_a_address :: uint32_t
  ls_b_address :: uint32_t
  ls_output_address :: uint32_t
  ls_num_btensor_tiles :: uint32_t
  ls_bnc1 :: uint32_t
  ls_HtWt :: uint32_t
  ls_binary_reader_kernel :: nat
  ls_unary_writer_kernel :: nat

definition reader_runtime_args :: "loop_scope \<Rightarrow> uint32_t \<Rightarrow> uint32_t \<Rightarrow> uint32_t list" where
  "reader_runtime_args sc num_tensor_tiles_per_core num_tiles_read =
     [ls_a_address sc, 0, 0, num_tensor_tiles_per_core,
      ls_b_address sc, 0, 0, ls_num_btensor_tiles sc,
      num_tensor_tiles_per_core, 1, 1, num_tensor_tiles_per_core,
      ls_bnc1 sc, num_tiles_read, ls_HtWt sc]"

definition writer_runtime_args :: "loop_scope \<Rightarrow> uint32_t \<Rightarrow> uint32_t \<Rightarrow> uint32_t list" where
  "writer_runtime_args sc num_tensor_tiles_per_core num_tiles_read =
     [ls_output_address sc, num_tensor_tiles_per_core, num_tiles_read]"

text \<open>The loop \<open>for (uint32_t i = 0, num_tiles_read = 0; i < num_cores; i++)\<close>. A zero
  divisor traps, and a core in neither group is the fatal assertion.\<close>

function runtime_args_loop ::
  "loop_scope \<Rightarrow> uint32_t \<Rightarrow> uint32_t \<Rightarrow> Program \<Rightarrow> error + Program" where
  "runtime_args_loop sc i num_tiles_read program =
     (if i < ls_num_cores sc then
        (if ls_num_cores_y sc = 0 then Inl DivideByZero
         else
           let core = CoreCoord (i div ls_num_cores_y sc) (i mod ls_num_cores_y sc) in
           if core_coord_in_core_ranges (ls_core_group_1 sc) core
              \<or> core_coord_in_core_ranges (ls_core_group_2 sc) core
           then
             let num_tensor_tiles_per_core =
                   (if core_coord_in_core_ranges (ls_core_group_1 sc) core
                    then ls_num_tiles_per_core_group_1 sc
                    else ls_num_tiles_per_core_group_2 sc);
                 program = SetRuntimeArgs program (ls_binary_reader_kernel sc) core
                   (reader_runtime_args sc num_tensor_tiles_per_core num_tiles_read);
                 program = SetRuntimeArgs program (ls_unary_writer_kernel sc) core
                   (writer_runtime_args sc num_tensor_tiles_per_core num_tiles_read)
             in runtime_args_loop sc (i + 1) (num_tiles_read + num_tensor_tiles_per_core) program
           else Inl (AssertFailed ''Core not in specified core ranges''))
      else Inr program)"
  by pat_completeness auto
termination
proof (relation "measure (\<lambda>(sc, i, n, p). unat (ls_num_cores sc) - unat i)")
  show "wf (measure (\<lambda>(sc, i, n, p). unat (ls_num_cores sc) - unat i))"
    by simp
next
  fix sc :: loop_scope and i num_tiles_read xa :: uint32_t and program xc :: Program
  assume "i < ls_num_cores sc"
  then have "unat i < unat (ls_num_cores sc)" and "unat (i + 1) = unat i + 1"
    by unat_arith+
  then show "((sc, i + 1, num_tiles_read + xa, xc), (sc, i, num_tiles_read, program))
      \<in> measure (\<lambda>(sc, i, n, p). unat (ls_num_cores sc) - unat i)"
    by simp
qed

declare runtime_args_loop.simps [simp del]

text \<open>The callback closes over the two kernel pointers, \<open>num_cores\<close> and \<open>num_cores_y\<close>.\<close>

record callback_scope =
  cs_binary_reader_kernel :: nat
  cs_unary_writer_kernel :: nat
  cs_num_cores :: uint32_t
  cs_num_cores_y :: uint32_t

text \<open>\<open>std::vector::at\<close> throws out of range; \<open>operator[]\<close> on a vector that is too short
  is an error as well.\<close>

definition vector_at :: "'a list \<Rightarrow> nat \<Rightarrow> error + 'a" where
  "vector_at xs n = (if n < length xs then Inr (xs ! n) else Inl OutOfRange)"

definition vector_set :: "'a list \<Rightarrow> nat \<Rightarrow> 'a \<Rightarrow> error + 'a list" where
  "vector_set xs n v = (if n < length xs then Inr (xs[n := v]) else Inl OutOfRange)"

definition override_reader_args ::
  "callback_scope \<Rightarrow> Buffer \<Rightarrow> Buffer \<Rightarrow> CoreCoord \<Rightarrow> Program \<Rightarrow> error + Program" where
  "override_reader_args cs src_dram_buffer_a src_dram_buffer_b core program =
     (case GetRuntimeArgs program (cs_binary_reader_kernel cs) core of
        Inl e \<Rightarrow> Inl e
      | Inr runtime_args \<Rightarrow>
          (case vector_set runtime_args 0 (address src_dram_buffer_a) of
             Inl e \<Rightarrow> Inl e
           | Inr runtime_args \<Rightarrow>
               (case vector_set runtime_args 4 (address src_dram_buffer_b) of
                  Inl e \<Rightarrow> Inl e
                | Inr runtime_args \<Rightarrow>
                    Inr (SetRuntimeArgs program (cs_binary_reader_kernel cs) core runtime_args))))"

definition override_writer_args ::
  "callback_scope \<Rightarrow> Buffer \<Rightarrow> CoreCoord \<Rightarrow> Program \<Rightarrow> error + Program" where
  "override_writer_args cs dst_dram_buffer core program =
     (case GetRuntimeArgs program (cs_unary_writer_kernel cs) core of
        Inl e \<Rightarrow> Inl e
      | Inr runtime_args \<Rightarrow>
          (case vector_set runtime_args 0 (address dst_dram_buffer) of
             Inl e \<Rightarrow> Inl e
           | Inr runtime_args \<Rightarrow>
               Inr (SetRuntimeArgs program (cs_unary_writer_kernel cs) core runtime_args)))"

function override_loop ::
  "callback_scope \<Rightarrow> Buffer \<Rightarrow> Buffer \<Rightarrow> Buffer \<Rightarrow> uint32_t \<Rightarrow> Program \<Rightarrow> error + Program" where
  "override_loop cs src_dram_buffer_a src_dram_buffer_b dst_dram_buffer i program =
     (if i < cs_num_cores cs then
        (if cs_num_cores_y cs = 0 then Inl DivideByZero
         else
           let core = CoreCoord (i div cs_num_cores_y cs) (i mod cs_num_cores_y cs) in
           case override_reader_args cs src_dram_buffer_a src_dram_buffer_b core program of
             Inl e \<Rightarrow> Inl e
           | Inr program \<Rightarrow>
               (case override_writer_args cs dst_dram_buffer core program of
                  Inl e \<Rightarrow> Inl e
                | Inr program \<Rightarrow>
                    override_loop cs src_dram_buffer_a src_dram_buffer_b dst_dram_buffer
                      (i + 1) program))
      else Inr program)"
  by pat_completeness auto
termination
proof (relation "measure (\<lambda>(cs, a, b, d, i, p). unat (cs_num_cores cs) - unat i)")
  show "wf (measure (\<lambda>(cs, a, b, d, i, p). unat (cs_num_cores cs) - unat i))"
    by simp
next
  fix cs :: callback_scope and a b d :: Buffer and i :: uint32_t and program xc :: Program
  assume "i < cs_num_cores cs"
  then have "unat i < unat (cs_num_cores cs)" and "unat (i + 1) = unat i + 1"
    by unat_arith+
  then show "((cs, a, b, d, i + 1, xc), (cs, a, b, d, i, program))
      \<in> measure (\<lambda>(cs, a, b, d, i, p). unat (cs_num_cores cs) - unat i)"
    by simp
qed

declare override_loop.simps [simp del]

definition override_runtime_args_callback ::
  "callback_scope \<Rightarrow> Buffer list \<Rightarrow> Buffer list \<Rightarrow> Program \<Rightarrow> error + Program" where
  "override_runtime_args_callback cs input_buffers output_buffers program =
     (case vector_at input_buffers 0 of
        Inl e \<Rightarrow> Inl e
      | Inr src_dram_buffer_a \<Rightarrow>
          (case vector_at input_buffers 1 of
             Inl e \<Rightarrow> Inl e
           | Inr src_dram_buffer_b \<Rightarrow>
               (case vector_at output_buffers 0 of
                  Inl e \<Rightarrow> Inl e
                | Inr dst_dram_buffer \<Rightarrow>
                    override_loop cs src_dram_buffer_a src_dram_buffer_b dst_dram_buffer
                      0 program)))"

text \<open>\<open>bcast_multi_core_hw\<close>, in two parts. The first is the function's body up to the
  runtime-argument loop: the tile counts, the work split, the three queues and the
  kernels. It returns the program and the values the loop reads.\<close>

definition bool_to_uint32 :: "bool \<Rightarrow> uint32_t" where
  "bool_to_uint32 b = (if b then 1 else 0)"

definition bcast_multi_core_hw_kernels ::
  "externals \<Rightarrow> Tensor \<Rightarrow> Tensor \<Rightarrow> Buffer \<Rightarrow> Buffer \<Rightarrow> Buffer \<Rightarrow> BcastOpMath \<Rightarrow> BcastOpDim
     \<Rightarrow> Program \<times> loop_scope" where
  "bcast_multi_core_hw_kernels ext a b src0_buffer src1_buffer dst_buffer bcast_math bcast_dim =
     (case (shape a, shape b) of (Shape N C H W, Shape bN bC bH bW) \<Rightarrow>
      let NC = N * C;
          HW = H * W;
          Wt = W div TILE_WIDTH ext;
          Ht = H div TILE_HEIGHT ext;
          num_tensor_tiles = NC * Ht * Wt;
          num_btensor_tiles = NC * bH * bW div TILE_HW ext;
          bnc1 = (if bN * bC = 1 then 1 else 0);
          program = \<lparr>circular_buffers = [], data_movement_kernels = [], compute_kernels = []\<rparr>;
          cb_data_format = datatype_to_dataformat_converter ext (dtype a);
          single_tile_size = TileSize ext cb_data_format;
          grid_size = compute_and_storage_grid_size (device a);
          num_cores_x = coord_x grid_size;
          num_cores_y = coord_y grid_size
      in
      case split_work_to_cores grid_size num_tensor_tiles of
        (num_cores, all_cores, core_group_1, core_group_2,
         num_tiles_per_core_group_1, num_tiles_per_core_group_2) \<Rightarrow>
      let reader_name = get_reader_name ext bcast_dim;
          compute_name = get_compute_name ext bcast_dim;
          src0_cb_index = 0;
          num_input_tiles = 2;
          program = CreateCircularBuffers program src0_cb_index all_cores
            num_input_tiles (num_input_tiles * single_tile_size) cb_data_format;
          src1_cb_index = 1;
          program = CreateCircularBuffers program src1_cb_index all_cores
            num_input_tiles (num_input_tiles * single_tile_size) cb_data_format;
          output_cb_index = 16;
          num_output_tiles = 2;
          program = CreateCircularBuffers program output_cb_index all_cores
            num_output_tiles (num_output_tiles * single_tile_size) cb_data_format;
          src0_is_dram = (buffer_type src0_buffer = DRAM);
          src1_is_dram = (buffer_type src1_buffer = DRAM);
          reader_compile_time_args =
            [dataformat_code ext cb_data_format, bool_to_uint32 src0_is_dram,
             bool_to_uint32 src1_is_dram];
          dst_is_dram = (buffer_type dst_buffer = DRAM);
          writer_compile_time_args =
            [output_cb_index, dataformat_code ext cb_data_format, bool_to_uint32 dst_is_dram];
          (binary_reader_kernel, program) = CreateDataMovementKernel program reader_name
            all_cores reader_compile_time_args RISCV_1 RISCV_1_default;
          (unary_writer_kernel, program) = CreateDataMovementKernel program
            ''tt_metal/kernels/dataflow/writer_unary_interleaved_start_id.cpp''
            all_cores writer_compile_time_args RISCV_0 RISCV_0_default;
          compute_kernel_args_group_1 = [1, 1, num_tiles_per_core_group_1];
          fp32_dest_acc_en = False;
          math_approx_mode = False;
          (bcast_kernel_group_1, program) = CreateComputeKernel program compute_name
            core_group_1 compute_kernel_args_group_1 HiFi4 fp32_dest_acc_en math_approx_mode;
          program = add_defines ext program bcast_kernel_group_1 bcast_dim bcast_math;
          program =
            (if core_group_2 \<noteq> [] then
               let compute_kernel_args_group_2 = [1, 1, num_tiles_per_core_group_2];
                   (bcast_kernel_group_2, program) = CreateComputeKernel program compute_name
                     core_group_2 compute_kernel_args_group_2 HiFi4 fp32_dest_acc_en
                     math_approx_mode
               in add_defines ext program bcast_kernel_group_2 bcast_dim bcast_math
             else program)
      in (program,
          \<lparr>ls_num_cores = num_cores, ls_num_cores_y = num_cores_y,
           ls_core_group_1 = core_group_1, ls_core_group_2 = core_group_2,
           ls_num_tiles_per_core_group_1 = num_tiles_per_core_group_1,
           ls_num_tiles_per_core_group_2 = num_tiles_per_core_group_2,
           ls_a_address = address src0_buffer, ls_b_address = address src1_buffer,
           ls_output_address = address dst_buffer,
           ls_num_btensor_tiles = num_btensor_tiles, ls_bnc1 = bnc1,
           ls_HtWt = Ht * Wt,
           ls_binary_reader_kernel = binary_reader_kernel,
           ls_unary_writer_kernel = unary_writer_kernel\<rparr>))"

text \<open>The second part: the assertions, the runtime-argument loop, and the callback that is
  returned with the program. A failed assertion, a null buffer that is dereferenced and a
  zero divisor end the construction.\<close>

definition bcast_multi_core_hw ::
  "externals \<Rightarrow> Tensor \<Rightarrow> Tensor \<Rightarrow> Tensor \<Rightarrow> BcastOpMath \<Rightarrow> BcastOpDim
     \<Rightarrow> error + (Program \<times> callback_scope)" where
  "bcast_multi_core_hw ext a b output bcast_math bcast_dim =
     (if bcast_dim \<noteq> BcastOpDim_HW then Inl (AssertFailed ''bcast_dim == BcastOpDim::HW'')
      else if TILE_WIDTH ext = 0 \<or> TILE_HEIGHT ext = 0 \<or> TILE_HW ext = 0 then Inl DivideByZero
      else
        (case buffer output of
           None \<Rightarrow> Inl (AssertFailed ''Output buffer should be allocated on device!'')
         | Some dst_buffer \<Rightarrow>
        (case buffer a of None \<Rightarrow> Inl NullPointer | Some src0_buffer \<Rightarrow>
        (case buffer b of None \<Rightarrow> Inl NullPointer | Some src1_buffer \<Rightarrow>
        (case bcast_multi_core_hw_kernels ext a b src0_buffer src1_buffer dst_buffer
                bcast_math bcast_dim of
           (program, sc) \<Rightarrow>
        (case runtime_args_loop sc 0 0 program of
           Inl e \<Rightarrow> Inl e
         | Inr program \<Rightarrow>
             Inr (program,
                  \<lparr>cs_binary_reader_kernel = ls_binary_reader_kernel sc,
                   cs_unary_writer_kernel = ls_unary_writer_kernel sc,
                   cs_num_cores = ls_num_cores sc,
                   cs_num_cores_y = ls_num_cores_y sc\<rparr>)))))))"

section \<open>Closed forms of the two loops\<close>

text \<open>The index of a core in the order \<open>i -> (i / rows, i % rows)\<close>, and the cores that the
  iterations \<open>i, i + 1, ..., num_cores - 1\<close> of a loop visit.\<close>

definition core_index :: "uint32_t \<Rightarrow> CoreCoord \<Rightarrow> uint32_t" where
  "core_index num_cores_y c = coord_x c * num_cores_y + coord_y c"

definition visited_from :: "uint32_t \<Rightarrow> uint32_t \<Rightarrow> uint32_t \<Rightarrow> CoreCoord \<Rightarrow> bool" where
  "visited_from num_cores_y num_cores i c =
     (i \<le> core_index num_cores_y c \<and> core_index num_cores_y c < num_cores \<and>
      c = CoreCoord (core_index num_cores_y c div num_cores_y)
            (core_index num_cores_y c mod num_cores_y))"

text \<open>Rewriting the runtime arguments of one kernel on a set of cores.\<close>

definition update_runtime_args ::
  "nat \<Rightarrow> (CoreCoord \<Rightarrow> bool) \<Rightarrow> (CoreCoord \<Rightarrow> uint32_t list option \<Rightarrow> uint32_t list option)
     \<Rightarrow> Program \<Rightarrow> Program" where
  "update_runtime_args k S f program =
     program\<lparr>data_movement_kernels := (data_movement_kernels program)
       [k := (data_movement_kernels program ! k)
          \<lparr>dm_runtime_args := (\<lambda>c. if S c
              then f c (dm_runtime_args (data_movement_kernels program ! k) c)
              else dm_runtime_args (data_movement_kernels program ! k) c)\<rparr>]\<rparr>"

text \<open>The tiles of a core as the loop looks them up, and the value of \<open>num_tiles_read\<close> when
  the loop reaches index \<open>j\<close>.\<close>

definition tiles_of_core :: "loop_scope \<Rightarrow> CoreCoord \<Rightarrow> uint32_t" where
  "tiles_of_core sc core =
     (if core_coord_in_core_ranges (ls_core_group_1 sc) core
      then ls_num_tiles_per_core_group_1 sc
      else ls_num_tiles_per_core_group_2 sc)"

primrec tiles_read_before :: "loop_scope \<Rightarrow> nat \<Rightarrow> uint32_t" where
  "tiles_read_before sc 0 = 0"
| "tiles_read_before sc (Suc j) =
     tiles_read_before sc j
       + tiles_of_core sc (CoreCoord (of_nat j div ls_num_cores_y sc) (of_nat j mod ls_num_cores_y sc))"

definition built_reader_args ::
  "loop_scope \<Rightarrow> CoreCoord \<Rightarrow> uint32_t list option \<Rightarrow> uint32_t list option" where
  "built_reader_args sc c old =
     Some (reader_runtime_args sc (tiles_of_core sc c)
       (tiles_read_before sc (unat (core_index (ls_num_cores_y sc) c))))"

definition built_writer_args ::
  "loop_scope \<Rightarrow> CoreCoord \<Rightarrow> uint32_t list option \<Rightarrow> uint32_t list option" where
  "built_writer_args sc c old =
     Some (writer_runtime_args sc (tiles_of_core sc c)
       (tiles_read_before sc (unat (core_index (ls_num_cores_y sc) c))))"

definition patched_reader_args ::
  "Buffer \<Rightarrow> Buffer \<Rightarrow> CoreCoord \<Rightarrow> uint32_t list option \<Rightarrow> uint32_t list option" where
  "patched_reader_args src_dram_buffer_a src_dram_buffer_b c old =
     map_option (\<lambda>args. args[0 := address src_dram_buffer_a, 4 := address src_dram_buffer_b]) old"

definition patched_writer_args ::
  "Buffer \<Rightarrow> CoreCoord \<Rightarrow> uint32_t list option \<Rightarrow> uint32_t list option" where
  "patched_writer_args dst_dram_buffer c old =
     map_option (\<lambda>args. args[0 := address dst_dram_buffer]) old"

text \<open>The program and the callback scope that a construction returns, given the program
  and the loop's scope before the runtime-argument loop.\<close>

definition built_program :: "loop_scope \<Rightarrow> Program \<Rightarrow> Program" where
  "built_program sc p0 =
     update_runtime_args 1
       (visited_from (ls_num_cores_y sc) (ls_num_cores sc) 0) (built_writer_args sc)
       (update_runtime_args 0
          (visited_from (ls_num_cores_y sc) (ls_num_cores sc) 0) (built_reader_args sc) p0)"

definition built_callback :: "loop_scope \<Rightarrow> callback_scope" where
  "built_callback sc =
     \<lparr>cs_binary_reader_kernel = ls_binary_reader_kernel sc,
      cs_unary_writer_kernel = ls_unary_writer_kernel sc,
      cs_num_cores = ls_num_cores sc, cs_num_cores_y = ls_num_cores_y sc\<rparr>"

text \<open>The program after the callback, the programs on which every read and write of the
  callback is in range, and the slots that carry addresses.\<close>

definition patched_program :: "callback_scope \<Rightarrow> Buffer \<Rightarrow> Buffer \<Rightarrow> Buffer \<Rightarrow> Program \<Rightarrow> Program" where
  "patched_program cs src_dram_buffer_a src_dram_buffer_b dst_dram_buffer p =
     update_runtime_args (cs_unary_writer_kernel cs)
       (visited_from (cs_num_cores_y cs) (cs_num_cores cs) 0) (patched_writer_args dst_dram_buffer)
       (update_runtime_args (cs_binary_reader_kernel cs)
          (visited_from (cs_num_cores_y cs) (cs_num_cores cs) 0)
          (patched_reader_args src_dram_buffer_a src_dram_buffer_b) p)"

definition patchable :: "callback_scope \<Rightarrow> Program \<Rightarrow> bool" where
  "patchable cs p \<longleftrightarrow>
     cs_binary_reader_kernel cs < length (data_movement_kernels p) \<and>
     cs_unary_writer_kernel cs < length (data_movement_kernels p) \<and>
     cs_binary_reader_kernel cs \<noteq> cs_unary_writer_kernel cs \<and>
     (0 < cs_num_cores cs \<longrightarrow> cs_num_cores_y cs \<noteq> 0) \<and>
     (\<forall>c. visited_from (cs_num_cores_y cs) (cs_num_cores cs) 0 c \<longrightarrow>
        (\<exists>xs. dm_runtime_args (data_movement_kernels p ! cs_binary_reader_kernel cs) c = Some xs
              \<and> 4 < length xs) \<and>
        (\<exists>ys. dm_runtime_args (data_movement_kernels p ! cs_unary_writer_kernel cs) c = Some ys
              \<and> 0 < length ys))"

definition address_slot :: "callback_scope \<Rightarrow> nat \<Rightarrow> nat \<Rightarrow> bool" where
  "address_slot cs k slot \<longleftrightarrow>
     (k = cs_binary_reader_kernel cs \<and> (slot = 0 \<or> slot = 4)) \<or>
     (k = cs_unary_writer_kernel cs \<and> slot = 0)"

section \<open>An example construction\<close>

text \<open>A grid of two cores in one row of \<open>y\<close>, operand A with five tiles, operand B with one;
  the program that \<open>bcast_multi_core_hw\<close> builds for them, with the buffer addresses as
  parameters.\<close>

definition example_externals :: externals where
  "example_externals =
     \<lparr>TILE_WIDTH = 32, TILE_HEIGHT = 32, TILE_HW = 1024,
      datatype_to_dataformat_converter = id,
      dataformat_code = of_nat,
      TileSize = (\<lambda>fmt. 2048),
      get_reader_name = (\<lambda>dim. ''reader_bcast_hw''),
      get_compute_name = (\<lambda>dim. ''bcast_hw''),
      bcast_defines = (\<lambda>dim math. [(''BCAST_DIM'', ''HW'')])\<rparr>"

definition example_tensor :: "Shape \<Rightarrow> uint32_t \<Rightarrow> CoreCoord \<Rightarrow> Tensor" where
  "example_tensor s addr grid =
     \<lparr>shape = s, dtype = 0, buffer = Some \<lparr>address = addr, buffer_type = DRAM\<rparr>,
      device = \<lparr>compute_and_storage_grid_size = grid\<rparr>\<rparr>"

definition example_a :: Tensor where
  "example_a = example_tensor (Shape 1 5 32 32) 100 (CoreCoord 2 1)"

definition example_b :: Tensor where
  "example_b = example_tensor (Shape 1 1 32 32) 200 (CoreCoord 2 1)"

definition example_output :: Tensor where
  "example_output = example_tensor (Shape 1 5 32 32) 300 (CoreCoord 2 1)"

definition example_queue :: "uint32_t \<Rightarrow> CircularBuffer" where
  "example_queue idx =
     \<lparr>cb_index = idx,
      cb_core_ranges =
        [CoreRange (CoreCoord 0 0) (CoreCoord 0 0), CoreRange (CoreCoord 1 0) (CoreCoord 1 0)],
      cb_num_tiles = 2, cb_size_in_bytes = 4096, cb_data_format = 0\<rparr>"

definition example_compute_kernels :: "ComputeKernel list" where
  "example_compute_kernels =
     [\<lparr>ck_name = ''bcast_hw'',
       ck_core_ranges = [CoreRange (CoreCoord 0 0) (CoreCoord 0 0)],
       ck_compile_time_args = [1, 1, 3], ck_math_fidelity = HiFi4,
       ck_fp32_dest_acc_en = False, ck_math_approx_mode = False,
       ck_defines = [(''BCAST_DIM'', ''HW'')]\<rparr>,
      \<lparr>ck_name = ''bcast_hw'',
       ck_core_ranges = [CoreRange (CoreCoord 1 0) (CoreCoord 1 0)],
       ck_compile_time_args = [1, 1, 2], ck_math_fidelity = HiFi4,
       ck_fp32_dest_acc_en = False, ck_math_approx_mode = False,
       ck_defines = [(''BCAST_DIM'', ''HW'')]\<rparr>]"

definition example_kernels ::
  "uint32_t \<Rightarrow> uint32_t \<Rightarrow> uint32_t \<Rightarrow> DataMovementKernel list" where
  "example_kernels a_addr b_addr out_addr =
     [\<lparr>dm_name = ''reader_bcast_hw'',
       dm_core_ranges =
         [CoreRange (CoreCoord 0 0) (CoreCoord 0 0), CoreRange (CoreCoord 1 0) (CoreCoord 1 0)],
       dm_compile_time_args = [0, 1, 1], dm_processor = RISCV_1, dm_noc = RISCV_1_default,
       dm_runtime_args =
         [CoreCoord 0 0 \<mapsto> [a_addr, 0, 0, 3, b_addr, 0, 0, 5, 3, 1, 1, 3, 1, 0, 1],
          CoreCoord 1 0 \<mapsto> [a_addr, 0, 0, 2, b_addr, 0, 0, 5, 2, 1, 1, 2, 1, 3, 1]]\<rparr>,
      \<lparr>dm_name = ''tt_metal/kernels/dataflow/writer_unary_interleaved_start_id.cpp'',
       dm_core_ranges =
         [CoreRange (CoreCoord 0 0) (CoreCoord 0 0), CoreRange (CoreCoord 1 0) (CoreCoord 1 0)],
       dm_compile_time_args = [16, 0, 1], dm_processor = RISCV_0, dm_noc = RISCV_0_default,
       dm_runtime_args =
         [CoreCoord 0 0 \<mapsto> [out_addr, 3, 0], CoreCoord 1 0 \<mapsto> [out_addr, 2, 3]]\<rparr>]"

definition example_program :: "uint32_t \<Rightarrow> uint32_t \<Rightarrow> uint32_t \<Rightarrow> Program" where
  "example_program a_addr b_addr out_addr =
     \<lparr>circular_buffers = [example_queue 0, example_queue 1, example_queue 16],
      data_movement_kernels = example_kernels a_addr b_addr out_addr,
      compute_kernels = example_compute_kernels\<rparr>"

definition example_callback :: callback_scope where
  "example_callback =
     \<lparr>cs_binary_reader_kernel = 0, cs_unary_writer_kernel = 1,
      cs_num_cores = 2, cs_num_cores_y = 1\<rparr>"

definition reader_args_of ::
  "error + Program \<times> callback_scope \<Rightarrow> CoreCoord \<Rightarrow> uint32_t list option" where
  "reader_args_of result c =
     (case result of
        Inl e \<Rightarrow> None
      | Inr (p, cs) \<Rightarrow> dm_runtime_args (data_movement_kernels p ! cs_binary_reader_kernel cs) c)"

definition example_empty_program :: Program where
  "example_empty_program =
     \<lparr>circular_buffers =
        [\<lparr>cb_index = 0, cb_core_ranges = [], cb_num_tiles = 2, cb_size_in_bytes = 4096,
          cb_data_format = 0\<rparr>,
         \<lparr>cb_index = 1, cb_core_ranges = [], cb_num_tiles = 2, cb_size_in_bytes = 4096,
          cb_data_format = 0\<rparr>,
         \<lparr>cb_index = 16, cb_core_ranges = [], cb_num_tiles = 2, cb_size_in_bytes = 4096,
          cb_data_format = 0\<rparr>],
      data_movement_kernels =
        [\<lparr>dm_name = ''reader_bcast_hw'', dm_core_ranges = [],
          dm_compile_time_args = [0, 1, 1], dm_processor = RISCV_1, dm_noc = RISCV_1_default,
          dm_runtime_args = Map.empty\<rparr>,
         \<lparr>dm_name = ''tt_metal/kernels/dataflow/writer_unary_interleaved_start_id.cpp'',
          dm_core_ranges = [],
          dm_compile_time_args = [16, 0, 1], dm_processor = RISCV_0, dm_noc = RISCV_0_default,
          dm_runtime_args = Map.empty\<rparr>],
      compute_kernels =
        [\<lparr>ck_name = ''bcast_hw'', ck_core_ranges = [],
          ck_compile_time_args = [1, 1, 1], ck_math_fidelity = HiFi4,
          ck_fp32_dest_acc_en = False, ck_math_approx_mode = False,
          ck_defines = [(''BCAST_DIM'', ''HW'')]\<rparr>]\<rparr>"

section \<open>Tile windows\<close>

text \<open>The window of tiles \<open>[next_tile, next_tile + tiles_per_core)\<close> that the runtime arguments
  of the core of index \<open>i\<close> describe: slots 2 and 1 of the writer, slots 13 and 3 of the
  reader.\<close>

definition writer_window :: "Program \<Rightarrow> callback_scope \<Rightarrow> uint32_t \<Rightarrow> (nat \<times> nat) option" where
  "writer_window p cs i =
     (case dm_runtime_args (data_movement_kernels p ! cs_unary_writer_kernel cs)
             (CoreCoord (i div cs_num_cores_y cs) (i mod cs_num_cores_y cs)) of
        None \<Rightarrow> None
      | Some args \<Rightarrow>
          if length args = 3
          then Some (unat (args ! 2), unat (args ! 2) + unat (args ! 1))
          else None)"

definition reader_window :: "Program \<Rightarrow> callback_scope \<Rightarrow> uint32_t \<Rightarrow> (nat \<times> nat) option" where
  "reader_window p cs i =
     (case dm_runtime_args (data_movement_kernels p ! cs_binary_reader_kernel cs)
             (CoreCoord (i div cs_num_cores_y cs) (i mod cs_num_cores_y cs)) of
        None \<Rightarrow> None
      | Some args \<Rightarrow>
          if length args = 15
          then Some (unat (args ! 13), unat (args ! 13) + unat (args ! 3))
          else None)"

section \<open>The work split\<close>

lemma core_range_contains_unit: "core_range_contains (CoreRange c c) d \<longleftrightarrow> d = c"
  by (cases c; cases d) (auto simp: core_range_contains_def)

lemma in_cores_between:
  "core_coord_in_core_ranges (cores_between rows lo hi) c \<longleftrightarrow>
     (\<exists>i. lo \<le> i \<and> i < hi \<and> c = core_of_index rows i)"
  by (auto simp: core_coord_in_core_ranges_def cores_between_def list_ex_iff
      core_range_contains_unit)

lemma core_of_index_inj:
  assumes "i < 2 ^ 32" "j < 2 ^ 32" "core_of_index rows i = core_of_index rows j"
  shows "i = j"
proof -
  have d: "(of_nat (i div rows) :: uint32_t) = of_nat (j div rows)"
    and m: "(of_nat (i mod rows) :: uint32_t) = of_nat (j mod rows)"
    using assms(3) by (simp_all add: core_of_index_def)
  have bi: "i div rows < 2 ^ 32" "i mod rows < 2 ^ 32"
    using assms(1) by (meson div_le_dividend mod_less_eq_dividend le_less_trans)+
  have bj: "j div rows < 2 ^ 32" "j mod rows < 2 ^ 32"
    using assms(2) by (meson div_le_dividend mod_less_eq_dividend le_less_trans)+
  have "unat (of_nat (i div rows) :: uint32_t) = i div rows"
    "unat (of_nat (j div rows) :: uint32_t) = j div rows"
    "unat (of_nat (i mod rows) :: uint32_t) = i mod rows"
    "unat (of_nat (j mod rows) :: uint32_t) = j mod rows"
    using bi bj by (simp_all add: unat_of_nat)
  with d m have "i div rows = j div rows" "i mod rows = j mod rows"
    by metis+
  then show ?thesis
    by (metis div_mult_mod_eq)
qed

lemma core_of_index_word:
  "CoreCoord (i div r) (i mod r) = core_of_index (unat r) (unat i)"
  by (simp add: core_of_index_def word_arith_nat_div word_arith_nat_mod)

lemma unat_of_nat_u32: "k < 2 ^ 32 \<Longrightarrow> unat (of_nat k :: uint32_t) = k"
  by (simp add: unat_of_nat)

lemma unat_u32_bound: "unat (w :: uint32_t) < 2 ^ 32"
  using unsigned_less [of w, where 'a = nat] by simp

lemma split_arith:
  fixes total n :: nat
  assumes "n \<le> total" "0 < n"
  shows "total mod n < n"
    and "total div n \<le> total"
    and "0 < total mod n \<Longrightarrow> total div n + 1 \<le> total"
    and "(total mod n) * (total div n + 1) + (n - total mod n) * (total div n) = total"
proof -
  show "total mod n < n" using assms by simp
  show "total div n \<le> total" by simp
  show "total div n + 1 \<le> total" if "0 < total mod n"
  proof -
    have "n \<noteq> 1" using that by auto
    then have "2 \<le> n" using assms by linarith
    then have "total div n * 2 \<le> total div n * n" by simp
    moreover have "total div n * n + total mod n = total" by simp
    moreover have "1 \<le> total div n"
      using assms by (metis One_nat_def Suc_leI div_greater_zero_iff)
    ultimately show ?thesis using that by linarith
  qed
  have "(total mod n) * (total div n + 1) + (n - total mod n) * (total div n)
      = (total mod n + (n - total mod n)) * (total div n) + total mod n"
    by (simp add: algebra_simps)
  also have "total mod n + (n - total mod n) = n"
    using assms by (simp add: less_imp_le)
  finally show "(total mod n) * (total div n + 1) + (n - total mod n) * (total div n) = total"
    by (simp add: mult.commute)
qed

lemma split_work_to_cores_facts:
  fixes grid_size :: CoreCoord and units_to_divide :: uint32_t
  defines "rows \<equiv> unat (coord_y grid_size)"
    and "tiles \<equiv> unat units_to_divide"
  defines "n \<equiv> min (unat (coord_x grid_size) * rows) tiles"
  defines "base \<equiv> (if n = 0 then 0 else tiles div n)"
    and "R \<equiv> (if n = 0 then 0 else tiles mod n)"
  assumes split: "split_work_to_cores grid_size units_to_divide = (num_cores, all_cores, g1, g2, t1, t2)"
  shows "unat num_cores = n"
    and "all_cores = cores_between rows 0 n"
    and "g1 = cores_between rows 0 R"
    and "g2 = cores_between rows R n"
    and "unat t2 = base"
    and "0 < R \<Longrightarrow> unat t1 = base + 1"
    and "R \<le> n" and "n \<le> tiles" and "tiles < 2 ^ 32"
    and "0 < unat (coord_x grid_size) * rows \<or> tiles = 0 \<Longrightarrow>
      R * (base + 1) + (n - R) * base = tiles"
    and "t1 = of_nat (base + 1)"
    and "R * (base + 1) + (n - R) * base \<le> tiles"
proof -
  have eqs: "num_cores = of_nat n" "all_cores = cores_between rows 0 n"
    "g1 = cores_between rows 0 R" "g2 = cores_between rows R n"
    "t1 = of_nat (base + 1)" "t2 = of_nat base"
  proof -
    have "split_work_to_cores grid_size units_to_divide =
        (of_nat n, cores_between rows 0 n, cores_between rows 0 R, cores_between rows R n,
         of_nat (base + 1), of_nat base)"
      unfolding split_work_to_cores_def Let_def rows_def tiles_def n_def base_def R_def
      by (rule refl)
    with split show "num_cores = of_nat n" "all_cores = cores_between rows 0 n"
      "g1 = cores_between rows 0 R" "g2 = cores_between rows R n"
      "t1 = of_nat (base + 1)" "t2 = of_nat base"
      by auto
  qed
  show tb: "tiles < 2 ^ 32" unfolding tiles_def by (rule unat_u32_bound)
  show nt: "n \<le> tiles" unfolding n_def by simp
  show "all_cores = cores_between rows 0 n" "g1 = cores_between rows 0 R"
    "g2 = cores_between rows R n" "t1 = of_nat (base + 1)"
    by (rule eqs)+
  show "unat num_cores = n"
    using eqs(1) nt tb by (simp add: unat_of_nat_u32)
  have "base \<le> tiles"
    by (simp add: base_def)
  then show "unat t2 = base"
    using eqs(6) tb by (simp add: unat_of_nat_u32)
  show "R \<le> n"
    by (cases "n = 0") (simp_all add: R_def less_imp_le)
  show "unat t1 = base + 1" if "0 < R"
  proof -
    from that have n0: "0 < n" and r: "0 < tiles mod n"
      by (auto simp: R_def split: if_splits)
    have "base + 1 \<le> tiles"
      using split_arith(3) [OF nt n0 r] n0 by (simp add: base_def)
    with tb have "base + 1 < 2 ^ 32"
      by linarith
    then have "unat (of_nat (base + 1) :: uint32_t) = base + 1"
      by (rule unat_of_nat_u32)
    then show ?thesis
      unfolding eqs(5) .
  qed
  show "R * (base + 1) + (n - R) * base = tiles"
    if "0 < unat (coord_x grid_size) * rows \<or> tiles = 0"
  proof (cases "n = 0")
    case True
    with that have "tiles = 0"
      unfolding n_def by (auto simp: min_def split: if_splits)
    with True show ?thesis
      by (simp add: R_def base_def)
  next
    case False
    then show ?thesis
      using split_arith(4) [OF nt, of ] by (simp add: R_def base_def)
  qed
  show "R * (base + 1) + (n - R) * base \<le> tiles"
  proof (cases "n = 0")
    case True
    then show ?thesis
      by (simp add: R_def base_def)
  next
    case False
    then show ?thesis
      using split_arith(4) [OF nt, of ] by (simp add: R_def base_def)
  qed
qed

lemma in_cores_between_index:
  assumes "i < 2 ^ 32" "hi \<le> 2 ^ 32"
  shows "core_coord_in_core_ranges (cores_between rows lo hi) (core_of_index rows i)
     \<longleftrightarrow> lo \<le> i \<and> i < hi"
proof
  assume "core_coord_in_core_ranges (cores_between rows lo hi) (core_of_index rows i)"
  then obtain j where j: "lo \<le> j" "j < hi" "core_of_index rows i = core_of_index rows j"
    unfolding in_cores_between by blast
  from j(2) assms(2) have "j < 2 ^ 32" by linarith
  then have "i = j" by (rule core_of_index_inj [OF assms(1) _ j(3)])
  with j show "lo \<le> i \<and> i < hi" by simp
next
  assume "lo \<le> i \<and> i < hi"
  then show "core_coord_in_core_ranges (cores_between rows lo hi) (core_of_index rows i)"
    unfolding in_cores_between by blast
qed

lemma cores_between_set:
  "{c. core_coord_in_core_ranges (cores_between rows lo hi) c} = core_of_index rows ` {lo..<hi}"
  by (auto simp: in_cores_between)

lemma core_of_index_inj_on:
  "hi \<le> 2 ^ 32 \<Longrightarrow> inj_on (core_of_index rows) {lo..<hi}"
  by (rule inj_onI) (auto intro: core_of_index_inj [of _ _ rows])

lemma sum_two_groups:
  fixes a b :: nat
  assumes "R \<le> n"
  shows "(\<Sum>i = 0..<n. if i < R then a else b) = R * a + (n - R) * b"
proof -
  have "(\<Sum>i = 0..<n. if i < R then a else b)
      = (\<Sum>i = 0..<R. if i < R then a else b) + (\<Sum>i = R..<n. if i < R then a else b)"
    using assms by (intro sum.atLeastLessThan_concat [symmetric]) simp_all
  also have "(\<Sum>i = 0..<R. if i < R then a else b) = (\<Sum>i = 0..<R. a)"
    by (rule sum.cong) simp_all
  also have "(\<Sum>i = R..<n. if i < R then a else b) = (\<Sum>i = R..<n. b)"
    by (rule sum.cong) simp_all
  finally show ?thesis by simp
qed

text \<open>Against claim C2 as stated: on a grid of \<open>2 x 0\<close> cores the split of 5 tiles has
  \<open>min (2 * 0) 5 = 0\<close> active cores, both groups are empty, and the tiles per core summed
  over the assigned cores give 0, not 5.\<close>

theorem split_work_to_cores_coverage_counterexample:
  "split_work_to_cores (CoreCoord 2 0) 5 = (0, [], [], [], 1, 0) \<and>
   min (unat (coord_x (CoreCoord 2 0)) * unat (coord_y (CoreCoord 2 0))) (unat (5 :: uint32_t)) = 0 \<and>
   (\<Sum>c | core_coord_in_core_ranges [] c \<or> core_coord_in_core_ranges [] c.
       if core_coord_in_core_ranges [] c then unat (1 :: uint32_t) else unat (0 :: uint32_t)) = 0 \<and>
   unat (5 :: uint32_t) = 5"
  by (simp add: split_work_to_cores_def cores_between_def core_coord_in_core_ranges_def)

text \<open>Claim C2, amended (coverage). For every grid and every total tile count, the split has
  exactly \<open>min (cols * rows) total_tiles\<close> active cores, and they are the cores of group 1 and
  group 2 together (and the cores of \<open>all_cores\<close>); the tiles per core summed over these cores
  give the total tile count whenever the grid has at least one core or there is no tile.\<close>

theorem split_work_to_cores_coverage:
  assumes split: "split_work_to_cores grid_size units_to_divide =
      (num_cores, all_cores, core_group_1, core_group_2, t1, t2)"
  shows "unat num_cores = min (unat (coord_x grid_size) * unat (coord_y grid_size)) (unat units_to_divide)
    \<and> card {c. core_coord_in_core_ranges core_group_1 c \<or> core_coord_in_core_ranges core_group_2 c}
        = min (unat (coord_x grid_size) * unat (coord_y grid_size)) (unat units_to_divide)
    \<and> {c. core_coord_in_core_ranges core_group_1 c \<or> core_coord_in_core_ranges core_group_2 c}
        = {c. core_coord_in_core_ranges all_cores c}
    \<and> (0 < unat (coord_x grid_size) * unat (coord_y grid_size) \<or> unat units_to_divide = 0 \<longrightarrow>
        (\<Sum>c | core_coord_in_core_ranges core_group_1 c \<or> core_coord_in_core_ranges core_group_2 c.
          if core_coord_in_core_ranges core_group_1 c then unat t1 else unat t2)
        = unat units_to_divide)"
proof -
  define rows where "rows = unat (coord_y grid_size)"
  define tiles where "tiles = unat units_to_divide"
  define n where "n = min (unat (coord_x grid_size) * rows) tiles"
  define base where "base = (if n = 0 then 0 else tiles div n)"
  define R where "R = (if n = 0 then 0 else tiles mod n)"
  note f = split_work_to_cores_facts [OF split, folded rows_def tiles_def, folded n_def,
      folded base_def R_def]
  have n32: "n \<le> 2 ^ 32" using f(8,9) by linarith
  have R32: "R \<le> 2 ^ 32" using f(7) n32 by linarith
  let ?A = "{c. core_coord_in_core_ranges core_group_1 c \<or> core_coord_in_core_ranges core_group_2 c}"
  have "?A = {c. core_coord_in_core_ranges core_group_1 c} \<union> {c. core_coord_in_core_ranges core_group_2 c}"
    by auto
  also have "\<dots> = core_of_index rows ` {0..<R} \<union> core_of_index rows ` {R..<n}"
    unfolding f(3,4) cores_between_set ..
  also have "\<dots> = core_of_index rows ` ({0..<R} \<union> {R..<n})"
    by (simp add: image_Un)
  also have "{0..<R} \<union> {R..<n} = {0..<n}"
    using f(7) by auto
  finally have A: "?A = core_of_index rows ` {0..<n}" .
  have inj: "inj_on (core_of_index rows) {0..<n}"
    using n32 by (rule core_of_index_inj_on)
  have card: "card ?A = n"
    unfolding A using inj by (simp add: card_image)
  have all: "?A = {c. core_coord_in_core_ranges all_cores c}"
    unfolding A f(2) cores_between_set ..
  have "(\<Sum>c\<in>?A. if core_coord_in_core_ranges core_group_1 c then unat t1 else unat t2)
      = (\<Sum>i = 0..<n. if core_coord_in_core_ranges core_group_1 (core_of_index rows i)
           then unat t1 else unat t2)"
    unfolding A using inj by (simp add: sum.reindex)
  also have "\<dots> = (\<Sum>i = 0..<n. if i < R then base + 1 else base)"
  proof (rule sum.cong)
    fix i assume "i \<in> {0..<n}"
    then have i: "i < 2 ^ 32" using n32 by simp
    have m: "core_coord_in_core_ranges core_group_1 (core_of_index rows i) \<longleftrightarrow> i < R"
      unfolding f(3) using in_cores_between_index [OF i R32, of rows 0] by simp
    show "(if core_coord_in_core_ranges core_group_1 (core_of_index rows i) then unat t1 else unat t2)
        = (if i < R then base + 1 else base)"
      unfolding m using f(5,6) by auto
  qed simp
  also have "\<dots> = R * (base + 1) + (n - R) * base"
    using f(7) by (rule sum_two_groups)
  finally have sum: "(\<Sum>c\<in>?A. if core_coord_in_core_ranges core_group_1 c then unat t1 else unat t2)
      = R * (base + 1) + (n - R) * base" .
  have "(\<Sum>c\<in>?A. if core_coord_in_core_ranges core_group_1 c then unat t1 else unat t2) = tiles"
    if "0 < unat (coord_x grid_size) * rows \<or> tiles = 0"
    unfolding sum using that by (rule f(10))
  with f(1) card all show ?thesis
    unfolding n_def rows_def tiles_def by simp
qed

theorem split_work_to_cores_coverage_witness:
  "card {c. core_coord_in_core_ranges [CoreRange (CoreCoord 0 0) (CoreCoord 0 0)] c \<or>
            core_coord_in_core_ranges [CoreRange (CoreCoord 1 0) (CoreCoord 1 0)] c} = 2 \<and>
   (\<Sum>c | core_coord_in_core_ranges [CoreRange (CoreCoord 0 0) (CoreCoord 0 0)] c \<or>
           core_coord_in_core_ranges [CoreRange (CoreCoord 1 0) (CoreCoord 1 0)] c.
       if core_coord_in_core_ranges [CoreRange (CoreCoord 0 0) (CoreCoord 0 0)] c
       then unat (3 :: uint32_t) else unat (2 :: uint32_t)) = 5"
proof -
  have s: "split_work_to_cores (CoreCoord 2 1) 5 =
     (2, [CoreRange (CoreCoord 0 0) (CoreCoord 0 0), CoreRange (CoreCoord 1 0) (CoreCoord 1 0)],
      [CoreRange (CoreCoord 0 0) (CoreCoord 0 0)], [CoreRange (CoreCoord 1 0) (CoreCoord 1 0)], 3, 2)"
    by (simp add: split_work_to_cores_def cores_between_def core_of_index_def Let_def upt_rec)
  have g: "0 < unat (coord_x (CoreCoord 2 1)) * unat (coord_y (CoreCoord 2 1))"
    by simp
  have u: "unat (5 :: uint32_t) = 5"
    and m: "min (unat (coord_x (CoreCoord 2 1)) * unat (coord_y (CoreCoord 2 1))) 5 = 2"
    by simp_all
  note t = split_work_to_cores_coverage [OF s, unfolded u, unfolded m]
  show ?thesis
    by (rule conjI [OF t [THEN conjunct2, THEN conjunct1]
          t [THEN conjunct2, THEN conjunct2, THEN conjunct2, THEN mp, OF disjI1, OF g]])
qed

lemma cores_between_empty: "cores_between rows lo hi = [] \<longleftrightarrow> hi \<le> lo"
  by (auto simp: cores_between_def)

lemma split_groups_disjoint:
  assumes "R \<le> n" "n \<le> 2 ^ 32"
  shows "\<not> (core_coord_in_core_ranges (cores_between rows 0 R) c \<and>
            core_coord_in_core_ranges (cores_between rows R n) c)"
proof
  assume "core_coord_in_core_ranges (cores_between rows 0 R) c \<and>
            core_coord_in_core_ranges (cores_between rows R n) c"
  then obtain i j where i: "i < R" "c = core_of_index rows i"
    and j: "R \<le> j" "j < n" "c = core_of_index rows j"
    unfolding in_cores_between by blast
  have "i < 2 ^ 32" "j < 2 ^ 32" using i(1) j(2) assms by linarith+
  then have "i = j" using i(2) j(3) by (intro core_of_index_inj [of i j rows]) simp_all
  with i(1) j(1) show False by simp
qed

text \<open>Claim C3 (balance). When the division of the tiles by the number of active cores
  leaves a remainder \<open>R > 0\<close>, group 1 is the first \<open>R\<close> cores in the order
  \<open>i -> (i / rows, i % rows)\<close> with \<open>base + 1\<close> tiles each, group 2 is the other active
  cores with \<open>base\<close> tiles each, and no core is in both; whenever both groups are
  non-empty their tiles per core differ by at most one.\<close>

theorem split_work_to_cores_remainder:
  fixes grid_size :: CoreCoord and units_to_divide :: uint32_t
  defines "rows \<equiv> unat (coord_y grid_size)"
  defines "n \<equiv> min (unat (coord_x grid_size) * rows) (unat units_to_divide)"
  shows "case split_work_to_cores grid_size units_to_divide of
      (num_cores, all_cores, core_group_1, core_group_2, t1, t2) \<Rightarrow>
        (0 < n \<and> 0 < unat units_to_divide mod n \<longrightarrow>
           (\<forall>c. core_coord_in_core_ranges core_group_1 c \<longleftrightarrow>
                (\<exists>i. i < unat units_to_divide mod n \<and> c = core_of_index rows i)) \<and>
           (\<forall>c. core_coord_in_core_ranges core_group_2 c \<longleftrightarrow>
                (\<exists>i. unat units_to_divide mod n \<le> i \<and> i < n \<and> c = core_of_index rows i)) \<and>
           (\<forall>c. \<not> (core_coord_in_core_ranges core_group_1 c \<and>
                     core_coord_in_core_ranges core_group_2 c)) \<and>
           unat t1 = unat units_to_divide div n + 1 \<and>
           unat t2 = unat units_to_divide div n) \<and>
        (core_group_1 \<noteq> [] \<and> core_group_2 \<noteq> [] \<longrightarrow>
           \<bar>int (unat t1) - int (unat t2)\<bar> \<le> 1)"
proof -
  obtain num_cores all_cores g1 g2 t1 t2 where split:
    "split_work_to_cores grid_size units_to_divide = (num_cores, all_cores, g1, g2, t1, t2)"
    by (metis prod_cases6)
  define tiles where "tiles = unat units_to_divide"
  define base where "base = (if n = 0 then 0 else tiles div n)"
  define R where "R = (if n = 0 then 0 else tiles mod n)"
  note f = split_work_to_cores_facts [OF split, folded rows_def, folded n_def,
      folded tiles_def, folded base_def R_def]
  have n32: "n \<le> 2 ^ 32" using f(8,9) by linarith
  have pos: "unat t1 = base + 1 \<and> unat t2 = base" if "0 < R"
    using f(5) f(6) [OF that] by simp
  have bal: "\<bar>int (unat t1) - int (unat t2)\<bar> \<le> 1" if "g1 \<noteq> []"
  proof -
    from that have "0 < R" unfolding f(3) by (simp add: cores_between_empty)
    from pos [OF this] show ?thesis by simp
  qed
  have main: "(\<forall>c. core_coord_in_core_ranges g1 c \<longleftrightarrow> (\<exists>i. i < tiles mod n \<and> c = core_of_index rows i)) \<and>
      (\<forall>c. core_coord_in_core_ranges g2 c \<longleftrightarrow> (\<exists>i. tiles mod n \<le> i \<and> i < n \<and> c = core_of_index rows i)) \<and>
      (\<forall>c. \<not> (core_coord_in_core_ranges g1 c \<and> core_coord_in_core_ranges g2 c)) \<and>
      unat t1 = tiles div n + 1 \<and> unat t2 = tiles div n"
    if "0 < n" "0 < tiles mod n"
  proof -
    from that have R: "R = tiles mod n" "0 < R" and b: "base = tiles div n"
      by (simp_all add: R_def base_def)
    show ?thesis
      using pos [OF R(2)] split_groups_disjoint [OF f(7) n32, of rows]
      unfolding f(3,4) in_cores_between R(1) b by simp
  qed
  show ?thesis
    unfolding split prod.case using main bal unfolding tiles_def by blast
qed

theorem split_work_to_cores_remainder_witness:
  "(0::nat) < 2 \<and> (0::nat) < 5 mod 2 \<and>
   split_work_to_cores (CoreCoord 2 1) 5 =
     (2, [CoreRange (CoreCoord 0 0) (CoreCoord 0 0), CoreRange (CoreCoord 1 0) (CoreCoord 1 0)],
      [CoreRange (CoreCoord 0 0) (CoreCoord 0 0)], [CoreRange (CoreCoord 1 0) (CoreCoord 1 0)], 3, 2) \<and>
   core_coord_in_core_ranges [CoreRange (CoreCoord 0 0) (CoreCoord 0 0)] (core_of_index 1 0) \<and>
   unat (3 :: uint32_t) = 5 div 2 + 1 \<and> unat (2 :: uint32_t) = 5 div 2"
proof -
  have s: "split_work_to_cores (CoreCoord 2 1) 5 =
     (2, [CoreRange (CoreCoord 0 0) (CoreCoord 0 0), CoreRange (CoreCoord 1 0) (CoreCoord 1 0)],
      [CoreRange (CoreCoord 0 0) (CoreCoord 0 0)], [CoreRange (CoreCoord 1 0) (CoreCoord 1 0)], 3, 2)"
    by (simp add: split_work_to_cores_def cores_between_def core_of_index_def Let_def upt_rec)
  show ?thesis
    using split_work_to_cores_remainder [of "CoreCoord 2 1" 5] unfolding s
    by simp
qed

section \<open>Runtime arguments: the algebra of updates\<close>

lemma update_runtime_args_frame [simp]:
  "circular_buffers (update_runtime_args k S f p) = circular_buffers p"
  "compute_kernels (update_runtime_args k S f p) = compute_kernels p"
  "length (data_movement_kernels (update_runtime_args k S f p)) = length (data_movement_kernels p)"
  by (simp_all add: update_runtime_args_def)

lemma update_runtime_args_other:
  "k' \<noteq> k \<Longrightarrow> data_movement_kernels (update_runtime_args k S f p) ! k' = data_movement_kernels p ! k'"
  by (simp add: update_runtime_args_def)

lemma update_runtime_args_nth:
  "\<exists>g. data_movement_kernels (update_runtime_args k S f p) ! k'
      = (data_movement_kernels p ! k')\<lparr>dm_runtime_args := g\<rparr>"
proof (cases "k' = k \<and> k < length (data_movement_kernels p)")
  case True
  then show ?thesis by (auto simp: update_runtime_args_def)
next
  case False
  then have "data_movement_kernels (update_runtime_args k S f p) ! k'
      = (data_movement_kernels p ! k')\<lparr>dm_runtime_args := dm_runtime_args (data_movement_kernels p ! k')\<rparr>"
    by (auto simp: update_runtime_args_def list_update_beyond)
  then show ?thesis by blast
qed

lemma update_runtime_args_static:
  "dm_name (data_movement_kernels (update_runtime_args k S f p) ! k') = dm_name (data_movement_kernels p ! k')"
  "dm_core_ranges (data_movement_kernels (update_runtime_args k S f p) ! k') = dm_core_ranges (data_movement_kernels p ! k')"
  "dm_compile_time_args (data_movement_kernels (update_runtime_args k S f p) ! k') = dm_compile_time_args (data_movement_kernels p ! k')"
  "dm_processor (data_movement_kernels (update_runtime_args k S f p) ! k') = dm_processor (data_movement_kernels p ! k')"
  "dm_noc (data_movement_kernels (update_runtime_args k S f p) ! k') = dm_noc (data_movement_kernels p ! k')"
  using update_runtime_args_nth [of k S f p k'] by auto

lemma update_runtime_args_same:
  "k < length (data_movement_kernels p) \<Longrightarrow>
   dm_runtime_args (data_movement_kernels (update_runtime_args k S f p) ! k) c =
     (if S c then f c (dm_runtime_args (data_movement_kernels p ! k) c)
      else dm_runtime_args (data_movement_kernels p ! k) c)"
  by (simp add: update_runtime_args_def)

lemma SetRuntimeArgs_frame [simp]:
  "circular_buffers (SetRuntimeArgs p k c v) = circular_buffers p"
  "compute_kernels (SetRuntimeArgs p k c v) = compute_kernels p"
  "length (data_movement_kernels (SetRuntimeArgs p k c v)) = length (data_movement_kernels p)"
  by (simp_all add: SetRuntimeArgs_def)

lemma SetRuntimeArgs_other:
  "k' \<noteq> k \<Longrightarrow> data_movement_kernels (SetRuntimeArgs p k c v) ! k' = data_movement_kernels p ! k'"
  by (simp add: SetRuntimeArgs_def)

lemma SetRuntimeArgs_same:
  "k < length (data_movement_kernels p) \<Longrightarrow>
   dm_runtime_args (data_movement_kernels (SetRuntimeArgs p k c v) ! k) =
     (dm_runtime_args (data_movement_kernels p ! k))(c \<mapsto> v)"
  by (simp add: SetRuntimeArgs_def)

lemma update_after_set:
  assumes "k < length (data_movement_kernels p)" "\<not> S c0"
    and "f c0 (dm_runtime_args (data_movement_kernels p ! k) c0) = Some v"
  shows "update_runtime_args k S f (SetRuntimeArgs p k c0 v)
       = update_runtime_args k (\<lambda>c. c = c0 \<or> S c) f p"
proof -
  have "(\<lambda>c. if S c then f c (((dm_runtime_args (data_movement_kernels p ! k))(c0 \<mapsto> v)) c)
              else ((dm_runtime_args (data_movement_kernels p ! k))(c0 \<mapsto> v)) c)
      = (\<lambda>c. if c = c0 \<or> S c then f c (dm_runtime_args (data_movement_kernels p ! k) c)
              else dm_runtime_args (data_movement_kernels p ! k) c)"
    using assms(2,3) by (auto simp: fun_eq_iff)
  then show ?thesis
    using assms(1) by (simp add: update_runtime_args_def SetRuntimeArgs_def cong del: if_weak_cong)
qed

lemma update_set_commute:
  assumes "k \<noteq> k'"
  shows "update_runtime_args k S f (SetRuntimeArgs p k' c v)
       = SetRuntimeArgs (update_runtime_args k S f p) k' c v"
  using assms by (simp add: update_runtime_args_def SetRuntimeArgs_def list_update_swap
      cong del: if_weak_cong)

lemma update_update_commute:
  assumes "k \<noteq> k'"
  shows "update_runtime_args k S f (update_runtime_args k' S' f' p)
       = update_runtime_args k' S' f' (update_runtime_args k S f p)"
  using assms by (simp add: update_runtime_args_def list_update_swap cong del: if_weak_cong)

lemma update_idem:
  assumes "\<And>c v. f c (f c v) = f c v"
  shows "update_runtime_args k S f (update_runtime_args k S f p) = update_runtime_args k S f p"
proof (cases "k < length (data_movement_kernels p)")
  case True
  have "(\<lambda>c. if S c then f c (if S c then f c (dm_runtime_args (data_movement_kernels p ! k) c)
                              else dm_runtime_args (data_movement_kernels p ! k) c)
          else (if S c then f c (dm_runtime_args (data_movement_kernels p ! k) c)
                              else dm_runtime_args (data_movement_kernels p ! k) c))
     = (\<lambda>c. if S c then f c (dm_runtime_args (data_movement_kernels p ! k) c)
                              else dm_runtime_args (data_movement_kernels p ! k) c)"
    by (auto simp: fun_eq_iff assms)
  with True show ?thesis
    by (simp add: update_runtime_args_def cong del: if_weak_cong)
next
  case False
  then show ?thesis
    by (simp add: update_runtime_args_def list_update_beyond)
qed

section \<open>The cores a loop visits\<close>

lemma core_index_core [simp]:
  "core_index r (CoreCoord (j div r) (j mod r)) = j"
  by (simp add: core_index_def word_mod_div_equality)

lemma visited_from_iff:
  "visited_from r n i c \<longleftrightarrow> (\<exists>j. i \<le> j \<and> j < n \<and> c = CoreCoord (j div r) (j mod r))"
proof
  assume "visited_from r n i c"
  then show "\<exists>j. i \<le> j \<and> j < n \<and> c = CoreCoord (j div r) (j mod r)"
    unfolding visited_from_def by blast
next
  assume "\<exists>j. i \<le> j \<and> j < n \<and> c = CoreCoord (j div r) (j mod r)"
  then obtain j where "i \<le> j" "j < n" "c = CoreCoord (j div r) (j mod r)" by blast
  then show "visited_from r n i c"
    by (simp add: visited_from_def)
qed

lemma core_eq_iff [simp]:
  "CoreCoord (j div r) (j mod r) = CoreCoord (i div r) (i mod r) \<longleftrightarrow> j = i"
  by (metis core_index_core)

lemma visited_from_step:
  fixes i n :: uint32_t
  assumes "i < n"
  shows "visited_from r n i c \<longleftrightarrow> c = CoreCoord (i div r) (i mod r) \<or> visited_from r n (i + 1) c"
proof -
  have *: "i \<le> j \<longleftrightarrow> j = i \<or> i + 1 \<le> j" if "j < n" for j
    using assms that by unat_arith
  show ?thesis
    unfolding visited_from_iff using * assms by auto
qed

lemma not_visited_from_Suc:
  fixes i n :: uint32_t
  assumes "i < n"
  shows "\<not> visited_from r n (i + 1) (CoreCoord (i div r) (i mod r))"
proof -
  have "\<not> i + 1 \<le> i" using assms by unat_arith
  then show ?thesis
    by (simp add: visited_from_def)
qed

lemma visited_from_done:
  fixes i n :: uint32_t
  assumes "\<not> i < n"
  shows "\<not> visited_from r n i c"
  using assms unfolding visited_from_def by auto

lemma update_runtime_args_none:
  assumes "\<And>c. \<not> S c"
  shows "update_runtime_args k S f p = p"
  by (simp add: update_runtime_args_def assms)

lemma unat_word_Suc:
  fixes i n :: uint32_t
  assumes "i < n"
  shows "unat (i + 1) = Suc (unat i)"
  using assms by unat_arith

lemma tiles_read_before_step:
  fixes i :: uint32_t
  assumes "i < ls_num_cores sc"
  shows "tiles_read_before sc (unat (i + 1)) =
     tiles_read_before sc (unat i)
       + tiles_of_core sc (CoreCoord (i div ls_num_cores_y sc) (i mod ls_num_cores_y sc))"
  by (simp add: unat_word_Suc [OF assms])

section \<open>What the two loops compute\<close>

lemma runtime_args_loop_closed:
  assumes R: "ls_binary_reader_kernel sc < length (data_movement_kernels p)"
    and W: "ls_unary_writer_kernel sc < length (data_movement_kernels p)"
    and ne: "ls_binary_reader_kernel sc \<noteq> ls_unary_writer_kernel sc"
    and groups: "\<And>c. visited_from (ls_num_cores_y sc) (ls_num_cores sc) i c \<Longrightarrow>
        core_coord_in_core_ranges (ls_core_group_1 sc) c \<or>
        core_coord_in_core_ranges (ls_core_group_2 sc) c"
    and r0: "i < ls_num_cores sc \<Longrightarrow> ls_num_cores_y sc \<noteq> 0"
  shows "runtime_args_loop sc i (tiles_read_before sc (unat i)) p =
     Inr (update_runtime_args (ls_unary_writer_kernel sc)
            (visited_from (ls_num_cores_y sc) (ls_num_cores sc) i) (built_writer_args sc)
         (update_runtime_args (ls_binary_reader_kernel sc)
            (visited_from (ls_num_cores_y sc) (ls_num_cores sc) i) (built_reader_args sc) p))"
  using R W groups r0
proof (induction k \<equiv> "unat (ls_num_cores sc) - unat i" arbitrary: i p)
  case 0
  then have fin: "\<not> i < ls_num_cores sc"
    by (simp add: word_less_nat_alt)
  then have "runtime_args_loop sc i (tiles_read_before sc (unat i)) p = Inr p"
    by (subst runtime_args_loop.simps) simp
  moreover have "update_runtime_args k (visited_from (ls_num_cores_y sc) (ls_num_cores sc) i) f q = q"
    for k f q
    by (rule update_runtime_args_none) (rule visited_from_done [OF fin])
  ultimately show ?case by simp
next
  case (Suc k)
  let ?r = "ls_num_cores_y sc" and ?n = "ls_num_cores sc"
  let ?R = "ls_binary_reader_kernel sc" and ?W = "ls_unary_writer_kernel sc"
  from Suc.hyps(2) have lt: "i < ?n"
    by (simp add: word_less_nat_alt)
  then have r: "?r \<noteq> 0" by (rule Suc.prems(4))
  define ci where "ci = CoreCoord (i div ?r) (i mod ?r)"
  define t where "t = tiles_of_core sc ci"
  define vr where "vr = reader_runtime_args sc t (tiles_read_before sc (unat i))"
  define vw where "vw = writer_runtime_args sc t (tiles_read_before sc (unat i))"
  define p1 where "p1 = SetRuntimeArgs p ?R ci vr"
  define p2 where "p2 = SetRuntimeArgs p1 ?W ci vw"
  have vis: "visited_from ?r ?n i ci"
    unfolding visited_from_step [OF lt] ci_def by simp
  then have ing: "core_coord_in_core_ranges (ls_core_group_1 sc) ci \<or>
      core_coord_in_core_ranges (ls_core_group_2 sc) ci"
    by (rule Suc.prems(3))
  have unfold: "runtime_args_loop sc i (tiles_read_before sc (unat i)) p =
      runtime_args_loop sc (i + 1) (tiles_read_before sc (unat i) + t) p2"
    using lt r ing
    by (subst runtime_args_loop.simps)
       (simp add: Let_def ci_def [symmetric] tiles_of_core_def [symmetric] t_def [symmetric]
          vr_def [symmetric] vw_def [symmetric] p1_def [symmetric] p2_def [symmetric])
  have trb: "tiles_read_before sc (unat i) + t = tiles_read_before sc (unat (i + 1))"
    unfolding t_def ci_def by (rule tiles_read_before_step [OF lt, symmetric])
  have k: "k = unat ?n - unat (i + 1)"
    using Suc.hyps(2) unat_word_Suc [OF lt] by simp
  have len: "?R < length (data_movement_kernels p2)" "?W < length (data_movement_kernels p2)"
    using Suc.prems(1,2) by (simp_all add: p2_def p1_def)
  have sub: "visited_from ?r ?n i c" if "visited_from ?r ?n (i + 1) c" for c
    using that unfolding visited_from_step [OF lt, of ?r c] by simp
  have ih: "runtime_args_loop sc (i + 1) (tiles_read_before sc (unat (i + 1))) p2 =
     Inr (update_runtime_args ?W (visited_from ?r ?n (i + 1)) (built_writer_args sc)
         (update_runtime_args ?R (visited_from ?r ?n (i + 1)) (built_reader_args sc) p2))"
    by (rule Suc.hyps(1) [OF k len]) (use sub Suc.prems(3) r in blast)+
  have S: "(\<lambda>c. c = ci \<or> visited_from ?r ?n (i + 1) c) = visited_from ?r ?n i"
    unfolding ci_def by (rule ext) (simp add: visited_from_step [OF lt])
  have nv: "\<not> visited_from ?r ?n (i + 1) ci"
    unfolding ci_def by (rule not_visited_from_Suc [OF lt])
  have fr: "built_reader_args sc ci old = Some vr" for old
    by (simp add: built_reader_args_def vr_def t_def ci_def)
  have fw: "built_writer_args sc ci old = Some vw" for old
    by (simp add: built_writer_args_def vw_def t_def ci_def)
  have "update_runtime_args ?R (visited_from ?r ?n (i + 1)) (built_reader_args sc) p2
      = SetRuntimeArgs (update_runtime_args ?R (visited_from ?r ?n (i + 1)) (built_reader_args sc) p1)
          ?W ci vw"
    unfolding p2_def by (rule update_set_commute [OF ne])
  also have "update_runtime_args ?R (visited_from ?r ?n (i + 1)) (built_reader_args sc) p1
      = update_runtime_args ?R (visited_from ?r ?n i) (built_reader_args sc) p"
    unfolding p1_def using update_after_set [where S = "visited_from ?r ?n (i + 1)" and f = "built_reader_args sc",
        OF Suc.prems(1) nv fr]
    unfolding S .
  finally have step1: "update_runtime_args ?R (visited_from ?r ?n (i + 1)) (built_reader_args sc) p2
      = SetRuntimeArgs (update_runtime_args ?R (visited_from ?r ?n i) (built_reader_args sc) p)
          ?W ci vw" .
  have W': "?W < length (data_movement_kernels
      (update_runtime_args ?R (visited_from ?r ?n i) (built_reader_args sc) p))"
    using Suc.prems(2) by simp
  have step2: "update_runtime_args ?W (visited_from ?r ?n (i + 1)) (built_writer_args sc)
        (SetRuntimeArgs (update_runtime_args ?R (visited_from ?r ?n i) (built_reader_args sc) p)
          ?W ci vw)
      = update_runtime_args ?W (visited_from ?r ?n i) (built_writer_args sc)
          (update_runtime_args ?R (visited_from ?r ?n i) (built_reader_args sc) p)"
    using update_after_set [where S = "visited_from ?r ?n (i + 1)" and f = "built_writer_args sc",
        OF W' nv fw]
    unfolding S .
  show ?case
    unfolding unfold trb ih step1 step2 ..
qed

lemma override_reader_args_ok:
  assumes "cs_binary_reader_kernel cs < length (data_movement_kernels p)"
    and "dm_runtime_args (data_movement_kernels p ! cs_binary_reader_kernel cs) c = Some xs"
    and "4 < length xs"
  shows "override_reader_args cs a b c p =
     Inr (SetRuntimeArgs p (cs_binary_reader_kernel cs) c (xs[0 := address a, 4 := address b]))"
  using assms by (auto simp: override_reader_args_def GetRuntimeArgs_def vector_set_def)

lemma override_writer_args_ok:
  assumes "cs_unary_writer_kernel cs < length (data_movement_kernels p)"
    and "dm_runtime_args (data_movement_kernels p ! cs_unary_writer_kernel cs) c = Some ys"
    and "0 < length ys"
  shows "override_writer_args cs d c p =
     Inr (SetRuntimeArgs p (cs_unary_writer_kernel cs) c (ys[0 := address d]))"
  using assms by (simp add: override_writer_args_def GetRuntimeArgs_def vector_set_def)

lemma override_loop_closed:
  assumes R: "cs_binary_reader_kernel cs < length (data_movement_kernels p)"
    and W: "cs_unary_writer_kernel cs < length (data_movement_kernels p)"
    and ne: "cs_binary_reader_kernel cs \<noteq> cs_unary_writer_kernel cs"
    and args: "\<And>c. visited_from (cs_num_cores_y cs) (cs_num_cores cs) i c \<Longrightarrow>
        (\<exists>xs. dm_runtime_args (data_movement_kernels p ! cs_binary_reader_kernel cs) c = Some xs
              \<and> 4 < length xs) \<and>
        (\<exists>ys. dm_runtime_args (data_movement_kernels p ! cs_unary_writer_kernel cs) c = Some ys
              \<and> 0 < length ys)"
    and r0: "i < cs_num_cores cs \<Longrightarrow> cs_num_cores_y cs \<noteq> 0"
  shows "override_loop cs a b d i p =
     Inr (update_runtime_args (cs_unary_writer_kernel cs)
            (visited_from (cs_num_cores_y cs) (cs_num_cores cs) i) (patched_writer_args d)
         (update_runtime_args (cs_binary_reader_kernel cs)
            (visited_from (cs_num_cores_y cs) (cs_num_cores cs) i) (patched_reader_args a b) p))"
  using R W args r0
proof (induction k \<equiv> "unat (cs_num_cores cs) - unat i" arbitrary: i p)
  case 0
  then have fin: "\<not> i < cs_num_cores cs"
    by (simp add: word_less_nat_alt)
  then have "override_loop cs a b d i p = Inr p"
    by (subst override_loop.simps) simp
  moreover have "update_runtime_args k (visited_from (cs_num_cores_y cs) (cs_num_cores cs) i) f q = q"
    for k f q
    by (rule update_runtime_args_none) (rule visited_from_done [OF fin])
  ultimately show ?case by simp
next
  case (Suc k)
  let ?r = "cs_num_cores_y cs" and ?n = "cs_num_cores cs"
  let ?R = "cs_binary_reader_kernel cs" and ?W = "cs_unary_writer_kernel cs"
  from Suc.hyps(2) have lt: "i < ?n"
    by (simp add: word_less_nat_alt)
  then have r: "?r \<noteq> 0" by (rule Suc.prems(4))
  define ci where "ci = CoreCoord (i div ?r) (i mod ?r)"
  have vis: "visited_from ?r ?n i ci"
    unfolding visited_from_step [OF lt] ci_def by simp
  from Suc.prems(3) [OF vis] obtain xs ys
    where xs: "dm_runtime_args (data_movement_kernels p ! ?R) ci = Some xs" "4 < length xs"
      and ys: "dm_runtime_args (data_movement_kernels p ! ?W) ci = Some ys" "0 < length ys"
    by blast
  define vr where "vr = xs[0 := address a, 4 := address b]"
  define vw where "vw = ys[0 := address d]"
  define p1 where "p1 = SetRuntimeArgs p ?R ci vr"
  define p2 where "p2 = SetRuntimeArgs p1 ?W ci vw"
  have s1: "override_reader_args cs a b ci p = Inr p1"
    unfolding p1_def vr_def by (rule override_reader_args_ok [OF Suc.prems(1) xs])
  have W1: "?W < length (data_movement_kernels p1)"
    using Suc.prems(2) by (simp add: p1_def)
  have ys1: "dm_runtime_args (data_movement_kernels p1 ! ?W) ci = Some ys"
    unfolding p1_def using ne ys(1) by (simp add: SetRuntimeArgs_other)
  have s2: "override_writer_args cs d ci p1 = Inr p2"
    unfolding p2_def vw_def by (rule override_writer_args_ok [OF W1 ys1 ys(2)])
  have unfold: "override_loop cs a b d i p = override_loop cs a b d (i + 1) p2"
    using lt r
    by (subst override_loop.simps) (simp add: Let_def ci_def [symmetric] s1 s2)
  have k: "k = unat ?n - unat (i + 1)"
    using Suc.hyps(2) unat_word_Suc [OF lt] by simp
  have len: "?R < length (data_movement_kernels p2)" "?W < length (data_movement_kernels p2)"
    using Suc.prems(1,2) by (simp_all add: p2_def p1_def)
  have nv: "\<not> visited_from ?r ?n (i + 1) ci"
    unfolding ci_def by (rule not_visited_from_Suc [OF lt])
  have R2: "dm_runtime_args (data_movement_kernels p2 ! ?R) c
      = dm_runtime_args (data_movement_kernels p ! ?R) c" if "c \<noteq> ci" for c
    using that ne Suc.prems(1)
    by (simp add: p2_def p1_def SetRuntimeArgs_other SetRuntimeArgs_same)
  have W2: "dm_runtime_args (data_movement_kernels p2 ! ?W) c
      = dm_runtime_args (data_movement_kernels p ! ?W) c" if "c \<noteq> ci" for c
    using that ne W1
    by (simp add: p2_def SetRuntimeArgs_same) (simp add: p1_def SetRuntimeArgs_other)
  have args2: "(\<exists>xs. dm_runtime_args (data_movement_kernels p2 ! ?R) c = Some xs \<and> 4 < length xs) \<and>
        (\<exists>ys. dm_runtime_args (data_movement_kernels p2 ! ?W) c = Some ys \<and> 0 < length ys)"
    if v: "visited_from ?r ?n (i + 1) c" for c
  proof -
    from v nv have c: "c \<noteq> ci" by blast
    from v have "visited_from ?r ?n i c"
      unfolding visited_from_step [OF lt, of ?r c] by simp
    from Suc.prems(3) [OF this] show ?thesis
      unfolding R2 [OF c] W2 [OF c] .
  qed
  have ih: "override_loop cs a b d (i + 1) p2 =
     Inr (update_runtime_args ?W (visited_from ?r ?n (i + 1)) (patched_writer_args d)
         (update_runtime_args ?R (visited_from ?r ?n (i + 1)) (patched_reader_args a b) p2))"
    by (rule Suc.hyps(1) [OF k len args2]) (use r in blast)+
  have S: "(\<lambda>c. c = ci \<or> visited_from ?r ?n (i + 1) c) = visited_from ?r ?n i"
    unfolding ci_def by (rule ext) (simp add: visited_from_step [OF lt])
  have fr: "patched_reader_args a b ci (dm_runtime_args (data_movement_kernels p ! ?R) ci) = Some vr"
    by (simp add: patched_reader_args_def vr_def xs(1))
  have "update_runtime_args ?R (visited_from ?r ?n (i + 1)) (patched_reader_args a b) p2
      = SetRuntimeArgs (update_runtime_args ?R (visited_from ?r ?n (i + 1)) (patched_reader_args a b) p1)
          ?W ci vw"
    unfolding p2_def by (rule update_set_commute [OF ne])
  also have "update_runtime_args ?R (visited_from ?r ?n (i + 1)) (patched_reader_args a b) p1
      = update_runtime_args ?R (visited_from ?r ?n i) (patched_reader_args a b) p"
    unfolding p1_def
    using update_after_set [where S = "visited_from ?r ?n (i + 1)" and f = "patched_reader_args a b",
        OF Suc.prems(1) nv fr]
    unfolding S .
  finally have step1: "update_runtime_args ?R (visited_from ?r ?n (i + 1)) (patched_reader_args a b) p2
      = SetRuntimeArgs (update_runtime_args ?R (visited_from ?r ?n i) (patched_reader_args a b) p)
          ?W ci vw" .
  let ?q = "update_runtime_args ?R (visited_from ?r ?n i) (patched_reader_args a b) p"
  have W': "?W < length (data_movement_kernels ?q)"
    using Suc.prems(2) by simp
  have fw: "patched_writer_args d ci (dm_runtime_args (data_movement_kernels ?q ! ?W) ci) = Some vw"
    using ne by (simp add: patched_writer_args_def vw_def ys(1) update_runtime_args_other)
  have step2: "update_runtime_args ?W (visited_from ?r ?n (i + 1)) (patched_writer_args d)
        (SetRuntimeArgs ?q ?W ci vw)
      = update_runtime_args ?W (visited_from ?r ?n i) (patched_writer_args d) ?q"
    using update_after_set [where S = "visited_from ?r ?n (i + 1)" and f = "patched_writer_args d",
        OF W' nv fw]
    unfolding S .
  show ?case
    unfolding unfold ih step1 step2 ..
qed

section \<open>The constructed program\<close>

lemma bcast_multi_core_hw_kernels_eq:
  assumes sa: "shape a = Shape N C H W" and sb: "shape b = Shape bN bC bH bW"
    and split: "split_work_to_cores (compute_and_storage_grid_size (device a))
        (N * C * (H div TILE_HEIGHT ext) * (W div TILE_WIDTH ext)) =
      (num_cores, all_cores, g1, g2, t1, t2)"
  shows "bcast_multi_core_hw_kernels ext a b src0 src1 dst bcast_math bcast_dim =
    (\<lparr>circular_buffers =
        [\<lparr>cb_index = 0, cb_core_ranges = all_cores, cb_num_tiles = 2,
          cb_size_in_bytes = 2 * TileSize ext (datatype_to_dataformat_converter ext (dtype a)),
          cb_data_format = datatype_to_dataformat_converter ext (dtype a)\<rparr>,
         \<lparr>cb_index = 1, cb_core_ranges = all_cores, cb_num_tiles = 2,
          cb_size_in_bytes = 2 * TileSize ext (datatype_to_dataformat_converter ext (dtype a)),
          cb_data_format = datatype_to_dataformat_converter ext (dtype a)\<rparr>,
         \<lparr>cb_index = 16, cb_core_ranges = all_cores, cb_num_tiles = 2,
          cb_size_in_bytes = 2 * TileSize ext (datatype_to_dataformat_converter ext (dtype a)),
          cb_data_format = datatype_to_dataformat_converter ext (dtype a)\<rparr>],
      data_movement_kernels =
        [\<lparr>dm_name = get_reader_name ext bcast_dim, dm_core_ranges = all_cores,
          dm_compile_time_args =
            [dataformat_code ext (datatype_to_dataformat_converter ext (dtype a)),
             bool_to_uint32 (buffer_type src0 = DRAM), bool_to_uint32 (buffer_type src1 = DRAM)],
          dm_processor = RISCV_1, dm_noc = RISCV_1_default, dm_runtime_args = Map.empty\<rparr>,
         \<lparr>dm_name = ''tt_metal/kernels/dataflow/writer_unary_interleaved_start_id.cpp'',
          dm_core_ranges = all_cores,
          dm_compile_time_args =
            [16, dataformat_code ext (datatype_to_dataformat_converter ext (dtype a)),
             bool_to_uint32 (buffer_type dst = DRAM)],
          dm_processor = RISCV_0, dm_noc = RISCV_0_default, dm_runtime_args = Map.empty\<rparr>],
      compute_kernels =
        \<lparr>ck_name = get_compute_name ext bcast_dim, ck_core_ranges = g1,
          ck_compile_time_args = [1, 1, t1], ck_math_fidelity = HiFi4,
          ck_fp32_dest_acc_en = False, ck_math_approx_mode = False,
          ck_defines = bcast_defines ext bcast_dim bcast_math\<rparr>
        # (if g2 \<noteq> [] then
             [\<lparr>ck_name = get_compute_name ext bcast_dim, ck_core_ranges = g2,
               ck_compile_time_args = [1, 1, t2], ck_math_fidelity = HiFi4,
               ck_fp32_dest_acc_en = False, ck_math_approx_mode = False,
               ck_defines = bcast_defines ext bcast_dim bcast_math\<rparr>]
           else [])\<rparr>,
     \<lparr>ls_num_cores = num_cores,
      ls_num_cores_y = coord_y (compute_and_storage_grid_size (device a)),
      ls_core_group_1 = g1, ls_core_group_2 = g2,
      ls_num_tiles_per_core_group_1 = t1, ls_num_tiles_per_core_group_2 = t2,
      ls_a_address = address src0, ls_b_address = address src1,
      ls_output_address = address dst,
      ls_num_btensor_tiles = N * C * bH * bW div TILE_HW ext,
      ls_bnc1 = (if bN * bC = 1 then 1 else 0),
      ls_HtWt = (H div TILE_HEIGHT ext) * (W div TILE_WIDTH ext),
      ls_binary_reader_kernel = 0, ls_unary_writer_kernel = 1\<rparr>)"
  unfolding bcast_multi_core_hw_kernels_def sa sb
  by (simp add: Let_def split CreateCircularBuffers_def CreateDataMovementKernel_def
      CreateComputeKernel_def add_defines_def)

lemma split_visited:
  assumes split: "split_work_to_cores grid_size units_to_divide =
      (num_cores, all_cores, g1, g2, t1, t2)"
  shows "visited_from (coord_y grid_size) num_cores 0 c \<longleftrightarrow>
      core_coord_in_core_ranges g1 c \<or> core_coord_in_core_ranges g2 c"
    and "visited_from (coord_y grid_size) num_cores 0 c \<longleftrightarrow> core_coord_in_core_ranges all_cores c"
    and "0 < num_cores \<Longrightarrow> coord_y grid_size \<noteq> 0"
proof -
  define rows where "rows = unat (coord_y grid_size)"
  define tiles where "tiles = unat units_to_divide"
  define n where "n = min (unat (coord_x grid_size) * rows) tiles"
  define base where "base = (if n = 0 then 0 else tiles div n)"
  define R where "R = (if n = 0 then 0 else tiles mod n)"
  note f = split_work_to_cores_facts [OF split, folded rows_def tiles_def, folded n_def,
      folded base_def R_def]
  have vis: "visited_from (coord_y grid_size) num_cores 0 c \<longleftrightarrow>
      (\<exists>j. j < n \<and> c = core_of_index rows j)"
  proof
    assume "visited_from (coord_y grid_size) num_cores 0 c"
    then obtain w where w: "w < num_cores"
      "c = CoreCoord (w div coord_y grid_size) (w mod coord_y grid_size)"
      unfolding visited_from_iff by blast
    from w(1) have "unat w < n"
      by (simp add: word_less_nat_alt f(1))
    moreover have "c = core_of_index rows (unat w)"
      unfolding w(2) rows_def by (rule core_of_index_word)
    ultimately show "\<exists>j. j < n \<and> c = core_of_index rows j" by blast
  next
    assume "\<exists>j. j < n \<and> c = core_of_index rows j"
    then obtain j where j: "j < n" "c = core_of_index rows j" by blast
    define w :: uint32_t where "w = of_nat j"
    have "j < 2 ^ 32" using j(1) f(8,9) by linarith
    then have uw: "unat w = j"
      unfolding w_def by (rule unat_of_nat_u32)
    then have "w < num_cores"
      using j(1) by (simp add: word_less_nat_alt f(1))
    moreover have "c = CoreCoord (w div coord_y grid_size) (w mod coord_y grid_size)"
      unfolding core_of_index_word uw j(2) rows_def ..
    ultimately show "visited_from (coord_y grid_size) num_cores 0 c"
      unfolding visited_from_iff by auto
  qed
  show "visited_from (coord_y grid_size) num_cores 0 c \<longleftrightarrow>
      core_coord_in_core_ranges g1 c \<or> core_coord_in_core_ranges g2 c"
  proof -
    have "(\<exists>j. j < n \<and> c = core_of_index rows j) \<longleftrightarrow>
        (\<exists>i. 0 \<le> i \<and> i < R \<and> c = core_of_index rows i) \<or>
        (\<exists>i. R \<le> i \<and> i < n \<and> c = core_of_index rows i)"
    proof
      assume "\<exists>j. j < n \<and> c = core_of_index rows j"
      then obtain j where j: "j < n" "c = core_of_index rows j" by blast
      show "(\<exists>i. 0 \<le> i \<and> i < R \<and> c = core_of_index rows i) \<or>
        (\<exists>i. R \<le> i \<and> i < n \<and> c = core_of_index rows i)"
      proof (cases "j < R")
        case True
        with j show ?thesis by blast
      next
        case False
        then have "R \<le> j" by simp
        with j show ?thesis by blast
      qed
    next
      assume "(\<exists>i. 0 \<le> i \<and> i < R \<and> c = core_of_index rows i) \<or>
        (\<exists>i. R \<le> i \<and> i < n \<and> c = core_of_index rows i)"
      then show "\<exists>j. j < n \<and> c = core_of_index rows j"
      proof (elim disjE exE conjE)
        fix i assume i: "i < R" "c = core_of_index rows i"
        from i(1) f(7) have "i < n" by simp
        with i(2) show ?thesis by blast
      next
        fix i assume "i < n" "c = core_of_index rows i"
        then show ?thesis by blast
      qed
    qed
    then show ?thesis
      unfolding vis f(3,4) in_cores_between .
  qed
  show "visited_from (coord_y grid_size) num_cores 0 c \<longleftrightarrow> core_coord_in_core_ranges all_cores c"
    unfolding vis f(2) in_cores_between by simp
  show "coord_y grid_size \<noteq> 0" if "0 < num_cores"
  proof
    assume "coord_y grid_size = 0"
    then have "n = 0" by (simp add: n_def rows_def)
    with f(1) that show False by (simp add: word_less_nat_alt)
  qed
qed

lemma bcast_multi_core_hw_kernels_loop:
  assumes k: "bcast_multi_core_hw_kernels ext a b src0 src1 dst bcast_math bcast_dim = (p0, sc)"
  shows "runtime_args_loop sc 0 0 p0 =
     Inr (update_runtime_args 1
            (visited_from (ls_num_cores_y sc) (ls_num_cores sc) 0) (built_writer_args sc)
         (update_runtime_args 0
            (visited_from (ls_num_cores_y sc) (ls_num_cores sc) 0) (built_reader_args sc) p0))"
proof -
  obtain N C H W where sa: "shape a = Shape N C H W" by (cases "shape a")
  obtain bN bC bH bW where sb: "shape b = Shape bN bC bH bW" by (cases "shape b")
  obtain num_cores all_cores g1 g2 t1 t2 where split:
    "split_work_to_cores (compute_and_storage_grid_size (device a))
        (N * C * (H div TILE_HEIGHT ext) * (W div TILE_WIDTH ext)) =
      (num_cores, all_cores, g1, g2, t1, t2)"
    by (metis prod_cases6)
  note e = bcast_multi_core_hw_kernels_eq [OF sa sb split, of src0 src1 dst bcast_math bcast_dim]
  from k e have sc: "ls_binary_reader_kernel sc = 0" "ls_unary_writer_kernel sc = 1"
    "ls_num_cores sc = num_cores"
    "ls_num_cores_y sc = coord_y (compute_and_storage_grid_size (device a))"
    "ls_core_group_1 sc = g1" "ls_core_group_2 sc = g2"
    and p0: "length (data_movement_kernels p0) = 2"
    by auto
  have "runtime_args_loop sc 0 (tiles_read_before sc (unat (0 :: uint32_t))) p0 =
     Inr (update_runtime_args (ls_unary_writer_kernel sc)
            (visited_from (ls_num_cores_y sc) (ls_num_cores sc) 0) (built_writer_args sc)
         (update_runtime_args (ls_binary_reader_kernel sc)
            (visited_from (ls_num_cores_y sc) (ls_num_cores sc) 0) (built_reader_args sc) p0))"
  proof (rule runtime_args_loop_closed)
    show "ls_binary_reader_kernel sc < length (data_movement_kernels p0)"
      "ls_unary_writer_kernel sc < length (data_movement_kernels p0)"
      "ls_binary_reader_kernel sc \<noteq> ls_unary_writer_kernel sc"
      by (simp_all add: sc p0)
    show "core_coord_in_core_ranges (ls_core_group_1 sc) c \<or>
        core_coord_in_core_ranges (ls_core_group_2 sc) c"
      if "visited_from (ls_num_cores_y sc) (ls_num_cores sc) 0 c" for c
      using that unfolding sc split_visited(1) [OF split] .
    show "ls_num_cores_y sc \<noteq> 0" if "0 < ls_num_cores sc"
      using that unfolding sc by (rule split_visited(3) [OF split])
  qed
  then show ?thesis
    by (simp add: sc)
qed

lemma bcast_multi_core_hw_ok:
  assumes "bcast_dim = BcastOpDim_HW"
    and "TILE_WIDTH ext \<noteq> 0" "TILE_HEIGHT ext \<noteq> 0" "TILE_HW ext \<noteq> 0"
    and "buffer a = Some src0" "buffer b = Some src1" "buffer output = Some dst"
    and k: "bcast_multi_core_hw_kernels ext a b src0 src1 dst bcast_math bcast_dim = (p0, sc)"
  shows "bcast_multi_core_hw ext a b output bcast_math bcast_dim =
     Inr (built_program sc p0, built_callback sc)"
proof -
  note k' = k [unfolded assms(1)]
  show ?thesis
    using assms(1-7)
    by (simp add: bcast_multi_core_hw_def k' bcast_multi_core_hw_kernels_loop [OF k]
        built_program_def built_callback_def)
qed

lemma bcast_multi_core_hw_InrE:
  assumes "bcast_multi_core_hw ext a b output bcast_math bcast_dim = Inr (p, cs)"
  obtains src0 src1 dst p0 sc where
    "bcast_dim = BcastOpDim_HW"
    "TILE_WIDTH ext \<noteq> 0" "TILE_HEIGHT ext \<noteq> 0" "TILE_HW ext \<noteq> 0"
    "buffer a = Some src0" "buffer b = Some src1" "buffer output = Some dst"
    "bcast_multi_core_hw_kernels ext a b src0 src1 dst bcast_math bcast_dim = (p0, sc)"
    "p = built_program sc p0" "cs = built_callback sc"
proof -
  from assms have d: "bcast_dim = BcastOpDim_HW"
    and t: "TILE_WIDTH ext \<noteq> 0" "TILE_HEIGHT ext \<noteq> 0" "TILE_HW ext \<noteq> 0"
    by (auto simp: bcast_multi_core_hw_def split: if_splits)
  from assms d t obtain dst where dst: "buffer output = Some dst"
    by (cases "buffer output") (auto simp: bcast_multi_core_hw_def)
  from assms d t dst obtain src0 where src0: "buffer a = Some src0"
    by (cases "buffer a") (auto simp: bcast_multi_core_hw_def)
  from assms d t dst src0 obtain src1 where src1: "buffer b = Some src1"
    by (cases "buffer b") (auto simp: bcast_multi_core_hw_def)
  obtain p0 sc where k:
    "bcast_multi_core_hw_kernels ext a b src0 src1 dst bcast_math bcast_dim = (p0, sc)"
    by (cases "bcast_multi_core_hw_kernels ext a b src0 src1 dst bcast_math bcast_dim")
  from assms bcast_multi_core_hw_ok [OF d t src0 src1 dst k]
  have "p = built_program sc p0" "cs = built_callback sc"
    by simp_all
  with d t src0 src1 dst k show ?thesis
    by (rule that)
qed

section \<open>Claims about the constructed program\<close>

lemma built_program_frame [simp]:
  "circular_buffers (built_program sc p0) = circular_buffers p0"
  "compute_kernels (built_program sc p0) = compute_kernels p0"
  "length (data_movement_kernels (built_program sc p0)) = length (data_movement_kernels p0)"
  by (simp_all add: built_program_def)

lemma built_program_static:
  "dm_name (data_movement_kernels (built_program sc p0) ! k) = dm_name (data_movement_kernels p0 ! k)"
  "dm_core_ranges (data_movement_kernels (built_program sc p0) ! k) = dm_core_ranges (data_movement_kernels p0 ! k)"
  "dm_compile_time_args (data_movement_kernels (built_program sc p0) ! k) = dm_compile_time_args (data_movement_kernels p0 ! k)"
  "dm_processor (data_movement_kernels (built_program sc p0) ! k) = dm_processor (data_movement_kernels p0 ! k)"
  "dm_noc (data_movement_kernels (built_program sc p0) ! k) = dm_noc (data_movement_kernels p0 ! k)"
  by (simp_all add: built_program_def update_runtime_args_static)

lemma built_program_args:
  assumes "length (data_movement_kernels p0) = 2"
  shows "dm_runtime_args (data_movement_kernels (built_program sc p0) ! 0) c =
      (if visited_from (ls_num_cores_y sc) (ls_num_cores sc) 0 c
       then built_reader_args sc c (dm_runtime_args (data_movement_kernels p0 ! 0) c)
       else dm_runtime_args (data_movement_kernels p0 ! 0) c)"
    and "dm_runtime_args (data_movement_kernels (built_program sc p0) ! 1) c =
      (if visited_from (ls_num_cores_y sc) (ls_num_cores sc) 0 c
       then built_writer_args sc c (dm_runtime_args (data_movement_kernels p0 ! 1) c)
       else dm_runtime_args (data_movement_kernels p0 ! 1) c)"
proof -
  let ?S = "visited_from (ls_num_cores_y sc) (ls_num_cores sc) 0"
  let ?q = "update_runtime_args 0 ?S (built_reader_args sc) p0"
  have "data_movement_kernels (built_program sc p0) ! 0 = data_movement_kernels ?q ! 0"
    unfolding built_program_def by (rule update_runtime_args_other) simp
  then show "dm_runtime_args (data_movement_kernels (built_program sc p0) ! 0) c =
      (if ?S c then built_reader_args sc c (dm_runtime_args (data_movement_kernels p0 ! 0) c)
       else dm_runtime_args (data_movement_kernels p0 ! 0) c)"
    using assms by (simp add: update_runtime_args_same)
  have len: "1 < length (data_movement_kernels ?q)"
    using assms by simp
  have "data_movement_kernels ?q ! 1 = data_movement_kernels p0 ! 1"
    by (rule update_runtime_args_other) simp
  then show "dm_runtime_args (data_movement_kernels (built_program sc p0) ! 1) c =
      (if ?S c then built_writer_args sc c (dm_runtime_args (data_movement_kernels p0 ! 1) c)
       else dm_runtime_args (data_movement_kernels p0 ! 1) c)"
    unfolding built_program_def update_runtime_args_same [OF len] by simp
qed

lemmas example_eval =
  bcast_multi_core_hw_def bcast_multi_core_hw_kernels_def example_externals_def
  example_tensor_def split_work_to_cores_def cores_between_def core_of_index_def Let_def upt_rec
  CreateCircularBuffers_def CreateDataMovementKernel_def CreateComputeKernel_def add_defines_def
  runtime_args_loop.simps SetRuntimeArgs_def core_coord_in_core_ranges_def core_range_contains_def
  reader_runtime_args_def writer_runtime_args_def bool_to_uint32_def

lemma example_build:
  "bcast_multi_core_hw example_externals example_a example_b example_output
     BcastOpMath_ADD BcastOpDim_HW = Inr (example_program 100 200 300, example_callback)"
  by (simp add: bcast_multi_core_hw_def bcast_multi_core_hw_kernels_def example_externals_def
      example_tensor_def example_a_def example_b_def example_output_def example_program_def
      example_kernels_def example_compute_kernels_def example_queue_def example_callback_def
      split_work_to_cores_def cores_between_def core_of_index_def Let_def upt_rec
      CreateCircularBuffers_def CreateDataMovementKernel_def CreateComputeKernel_def add_defines_def
      runtime_args_loop.simps SetRuntimeArgs_def core_coord_in_core_ranges_def core_range_contains_def
      reader_runtime_args_def writer_runtime_args_def bool_to_uint32_def)

lemma example_patch:
  "override_runtime_args_callback example_callback
     [\<lparr>address = 1000, buffer_type = DRAM\<rparr>, \<lparr>address = 2000, buffer_type = DRAM\<rparr>]
     [\<lparr>address = 3000, buffer_type = DRAM\<rparr>] (example_program 100 200 300)
   = Inr (example_program 1000 2000 3000)"
  by (simp add: override_runtime_args_callback_def vector_at_def override_loop.simps
      example_callback_def example_program_def example_kernels_def Let_def
      override_reader_args_def override_writer_args_def GetRuntimeArgs_def vector_set_def
      SetRuntimeArgs_def)

lemma visited_from_zero:
  "visited_from r n 0 c \<longleftrightarrow> (\<exists>i. i < n \<and> c = CoreCoord (i div r) (i mod r))"
  by (simp add: visited_from_iff)



lemma runtime_args_loop_assert:
  assumes "runtime_args_loop sc i num_tiles_read p =
      Inl (AssertFailed ''Core not in specified core ranges'')"
  shows "\<exists>j. i \<le> j \<and> j < ls_num_cores sc \<and>
      \<not> core_coord_in_core_ranges (ls_core_group_1 sc)
          (CoreCoord (j div ls_num_cores_y sc) (j mod ls_num_cores_y sc)) \<and>
      \<not> core_coord_in_core_ranges (ls_core_group_2 sc)
          (CoreCoord (j div ls_num_cores_y sc) (j mod ls_num_cores_y sc))"
  using assms
proof (induction k \<equiv> "unat (ls_num_cores sc) - unat i" arbitrary: i num_tiles_read p)
  case 0
  then have "\<not> i < ls_num_cores sc"
    by (simp add: word_less_nat_alt)
  then have "runtime_args_loop sc i num_tiles_read p = Inr p"
    by (subst runtime_args_loop.simps) simp
  with 0 show ?case by simp
next
  case (Suc k)
  let ?ci = "CoreCoord (i div ls_num_cores_y sc) (i mod ls_num_cores_y sc)"
  from Suc.hyps(2) have lt: "i < ls_num_cores sc"
    by (simp add: word_less_nat_alt)
  have k: "k = unat (ls_num_cores sc) - unat (i + 1)"
    using Suc.hyps(2) unat_word_Suc [OF lt] by simp
  show ?case
  proof (cases "core_coord_in_core_ranges (ls_core_group_1 sc) ?ci \<or>
      core_coord_in_core_ranges (ls_core_group_2 sc) ?ci")
    case False
    with lt show ?thesis by blast
  next
    case True
    have r: "ls_num_cores_y sc \<noteq> 0"
    proof
      assume "ls_num_cores_y sc = 0"
      with lt have "runtime_args_loop sc i num_tiles_read p = Inl DivideByZero"
        by (subst runtime_args_loop.simps) simp
      with Suc.prems show False by simp
    qed
    from lt r True obtain t q where
      "runtime_args_loop sc i num_tiles_read p = runtime_args_loop sc (i + 1) t q"
      by (subst (asm) runtime_args_loop.simps) (simp add: Let_def)
    with Suc.prems have "runtime_args_loop sc (i + 1) t q =
        Inl (AssertFailed ''Core not in specified core ranges'')"
      by simp
    from Suc.hyps(1) [OF k this] obtain j where j: "i + 1 \<le> j" "j < ls_num_cores sc"
      "\<not> core_coord_in_core_ranges (ls_core_group_1 sc)
          (CoreCoord (j div ls_num_cores_y sc) (j mod ls_num_cores_y sc))"
      "\<not> core_coord_in_core_ranges (ls_core_group_2 sc)
          (CoreCoord (j div ls_num_cores_y sc) (j mod ls_num_cores_y sc))"
      by blast
    from j(1) lt have "i \<le> j" by unat_arith
    with j show ?thesis by blast
  qed
qed

lemma bcast_multi_core_hw_no_core_assert:
  "bcast_multi_core_hw ext a b output bcast_math bcast_dim \<noteq>
     Inl (AssertFailed ''Core not in specified core ranges'')"
proof (cases "bcast_dim = BcastOpDim_HW \<and> TILE_WIDTH ext \<noteq> 0 \<and> TILE_HEIGHT ext \<noteq> 0 \<and>
    TILE_HW ext \<noteq> 0 \<and> buffer a \<noteq> None \<and> buffer b \<noteq> None \<and> buffer output \<noteq> None")
  case True
  then obtain src0 src1 dst where
    "buffer a = Some src0" "buffer b = Some src1" "buffer output = Some dst"
    by auto
  moreover obtain p0 sc where
    "bcast_multi_core_hw_kernels ext a b src0 src1 dst bcast_math bcast_dim = (p0, sc)"
    by (cases "bcast_multi_core_hw_kernels ext a b src0 src1 dst bcast_math bcast_dim")
  ultimately have "bcast_multi_core_hw ext a b output bcast_math bcast_dim =
     Inr (built_program sc p0, built_callback sc)"
    using True by (intro bcast_multi_core_hw_ok) simp_all
  then show ?thesis by simp
next
  case False
  then show ?thesis
    by (auto simp: bcast_multi_core_hw_def split: option.splits)
qed

text \<open>Claim C9 (no core outside the groups). For every split, each index \<open>i < num_cores\<close>
  gives a core \<open>(i / num_cores_y, i % num_cores_y)\<close> that is in group 1 or in group 2, so a
  construction never ends in the assertion ``Core not in specified core ranges''; for any
  values of the loop's variables, the loop ends in that assertion only if some index it
  visits gives a core in neither group.\<close>

theorem runtime_args_loop_core_in_groups:
  "(case split_work_to_cores grid_size units_to_divide of
      (num_cores, all_cores, core_group_1, core_group_2, t1, t2) \<Rightarrow>
        \<forall>i. i < num_cores \<longrightarrow>
          core_coord_in_core_ranges core_group_1
            (CoreCoord (i div coord_y grid_size) (i mod coord_y grid_size)) \<or>
          core_coord_in_core_ranges core_group_2
            (CoreCoord (i div coord_y grid_size) (i mod coord_y grid_size))) \<and>
   bcast_multi_core_hw ext a b output bcast_math bcast_dim \<noteq>
     Inl (AssertFailed ''Core not in specified core ranges'') \<and>
   (runtime_args_loop sc i0 num_tiles_read p =
      Inl (AssertFailed ''Core not in specified core ranges'') \<longrightarrow>
    (\<exists>j. i0 \<le> j \<and> j < ls_num_cores sc \<and>
      \<not> core_coord_in_core_ranges (ls_core_group_1 sc)
          (CoreCoord (j div ls_num_cores_y sc) (j mod ls_num_cores_y sc)) \<and>
      \<not> core_coord_in_core_ranges (ls_core_group_2 sc)
          (CoreCoord (j div ls_num_cores_y sc) (j mod ls_num_cores_y sc))))"
proof -
  obtain num_cores all_cores g1 g2 t1 t2 where split:
    "split_work_to_cores grid_size units_to_divide = (num_cores, all_cores, g1, g2, t1, t2)"
    by (metis prod_cases6)
  have "core_coord_in_core_ranges g1 (CoreCoord (i div coord_y grid_size) (i mod coord_y grid_size)) \<or>
      core_coord_in_core_ranges g2 (CoreCoord (i div coord_y grid_size) (i mod coord_y grid_size))"
    if "i < num_cores" for i
  proof -
    from that have "visited_from (coord_y grid_size) num_cores 0
        (CoreCoord (i div coord_y grid_size) (i mod coord_y grid_size))"
      unfolding visited_from_zero by blast
    then show ?thesis
      unfolding split_visited(1) [OF split] .
  qed
  then show ?thesis
    unfolding split prod.case
    using bcast_multi_core_hw_no_core_assert runtime_args_loop_assert by blast
qed

theorem runtime_args_loop_core_in_groups_witness:
  "(1 :: uint32_t) < 2 \<and>
   (core_coord_in_core_ranges [CoreRange (CoreCoord 0 0) (CoreCoord 0 0)] (CoreCoord 1 0) \<or>
    core_coord_in_core_ranges [CoreRange (CoreCoord 1 0) (CoreCoord 1 0)] (CoreCoord 1 0)) \<and>
   runtime_args_loop
     \<lparr>ls_num_cores = 1, ls_num_cores_y = 1, ls_core_group_1 = [], ls_core_group_2 = [],
      ls_num_tiles_per_core_group_1 = 1, ls_num_tiles_per_core_group_2 = 0,
      ls_a_address = 0, ls_b_address = 0, ls_output_address = 0, ls_num_btensor_tiles = 0,
      ls_bnc1 = 0, ls_HtWt = 0, ls_binary_reader_kernel = 0, ls_unary_writer_kernel = 1\<rparr>
     0 0 (example_program 100 200 300) =
     Inl (AssertFailed ''Core not in specified core ranges'') \<and>
   \<not> core_coord_in_core_ranges [] (CoreCoord 0 0)"
proof -
  let ?sc = "\<lparr>ls_num_cores = 1, ls_num_cores_y = 1, ls_core_group_1 = [], ls_core_group_2 = [],
      ls_num_tiles_per_core_group_1 = 1, ls_num_tiles_per_core_group_2 = 0,
      ls_a_address = 0, ls_b_address = 0, ls_output_address = 0, ls_num_btensor_tiles = 0,
      ls_bnc1 = 0, ls_HtWt = 0, ls_binary_reader_kernel = 0, ls_unary_writer_kernel = 1\<rparr>"
  have s: "split_work_to_cores (CoreCoord 2 1) 5 =
     (2, [CoreRange (CoreCoord 0 0) (CoreCoord 0 0), CoreRange (CoreCoord 1 0) (CoreCoord 1 0)],
      [CoreRange (CoreCoord 0 0) (CoreCoord 0 0)], [CoreRange (CoreCoord 1 0) (CoreCoord 1 0)], 3, 2)"
    by (simp add: split_work_to_cores_def cores_between_def core_of_index_def Let_def upt_rec)
  have l: "runtime_args_loop ?sc 0 0 (example_program 100 200 300) =
      Inl (AssertFailed ''Core not in specified core ranges'')"
    by (simp add: runtime_args_loop.simps core_coord_in_core_ranges_def)
  have lt: "(1 :: uint32_t) < 2" by simp
  note t = runtime_args_loop_core_in_groups [of "CoreCoord 2 1" 5 example_externals
      example_a example_b example_output BcastOpMath_ADD BcastOpDim_HW
      ?sc 0 0 "example_program 100 200 300", unfolded s prod.case]
  from t lt have "core_coord_in_core_ranges [CoreRange (CoreCoord 0 0) (CoreCoord 0 0)]
        (CoreCoord (1 div coord_y (CoreCoord 2 1)) (1 mod coord_y (CoreCoord 2 1))) \<or>
    core_coord_in_core_ranges [CoreRange (CoreCoord 1 0) (CoreCoord 1 0)]
        (CoreCoord (1 div coord_y (CoreCoord 2 1)) (1 mod coord_y (CoreCoord 2 1)))"
    by blast
  then have g: "core_coord_in_core_ranges [CoreRange (CoreCoord 0 0) (CoreCoord 0 0)] (CoreCoord 1 0) \<or>
    core_coord_in_core_ranges [CoreRange (CoreCoord 1 0) (CoreCoord 1 0)] (CoreCoord 1 0)"
    by simp
  show ?thesis
    using lt g l by (simp add: core_coord_in_core_ranges_def)
qed

lemma bcast_multi_core_hw_runtime_args:
  assumes build: "bcast_multi_core_hw ext a b output bcast_math bcast_dim = Inr (p, cs)"
  obtains src0 src1 dst p0 sc where
    "buffer a = Some src0" "buffer b = Some src1" "buffer output = Some dst"
    "bcast_multi_core_hw_kernels ext a b src0 src1 dst bcast_math bcast_dim = (p0, sc)"
    "cs = \<lparr>cs_binary_reader_kernel = 0, cs_unary_writer_kernel = 1,
           cs_num_cores = ls_num_cores sc, cs_num_cores_y = ls_num_cores_y sc\<rparr>"
    "\<forall>c. dm_runtime_args (data_movement_kernels p ! 0) c =
       (if visited_from (ls_num_cores_y sc) (ls_num_cores sc) 0 c
        then Some (reader_runtime_args sc (tiles_of_core sc c)
               (tiles_read_before sc (unat (core_index (ls_num_cores_y sc) c))))
        else None)"
    "\<forall>c. dm_runtime_args (data_movement_kernels p ! 1) c =
       (if visited_from (ls_num_cores_y sc) (ls_num_cores sc) 0 c
        then Some (writer_runtime_args sc (tiles_of_core sc c)
               (tiles_read_before sc (unat (core_index (ls_num_cores_y sc) c))))
        else None)"
proof -
  from build obtain src0 src1 dst p0 sc where
    b: "buffer a = Some src0" "buffer b = Some src1" "buffer output = Some dst"
    and k: "bcast_multi_core_hw_kernels ext a b src0 src1 dst bcast_math bcast_dim = (p0, sc)"
    and p: "p = built_program sc p0" and cs: "cs = built_callback sc"
    by (rule bcast_multi_core_hw_InrE)
  obtain N C H W where sa: "shape a = Shape N C H W" by (cases "shape a")
  obtain bN bC bH bW where sb: "shape b = Shape bN bC bH bW" by (cases "shape b")
  obtain num_cores all_cores g1 g2 t1 t2 where split:
    "split_work_to_cores (compute_and_storage_grid_size (device a))
        (N * C * (H div TILE_HEIGHT ext) * (W div TILE_WIDTH ext)) =
      (num_cores, all_cores, g1, g2, t1, t2)"
    by (metis prod_cases6)
  note e = bcast_multi_core_hw_kernels_eq [OF sa sb split, of src0 src1 dst bcast_math bcast_dim]
  from k e have len: "length (data_movement_kernels p0) = 2"
    and emp: "dm_runtime_args (data_movement_kernels p0 ! 0) = Map.empty"
      "dm_runtime_args (data_movement_kernels p0 ! 1) = Map.empty"
    and h: "ls_binary_reader_kernel sc = 0" "ls_unary_writer_kernel sc = 1"
    by auto
  have cs': "cs = \<lparr>cs_binary_reader_kernel = 0, cs_unary_writer_kernel = 1,
           cs_num_cores = ls_num_cores sc, cs_num_cores_y = ls_num_cores_y sc\<rparr>"
    unfolding cs built_callback_def h ..
  have r: "dm_runtime_args (data_movement_kernels p ! 0) c =
       (if visited_from (ls_num_cores_y sc) (ls_num_cores sc) 0 c
        then Some (reader_runtime_args sc (tiles_of_core sc c)
               (tiles_read_before sc (unat (core_index (ls_num_cores_y sc) c))))
        else None)" for c
    unfolding p built_program_args [OF len] emp built_reader_args_def by (rule refl)
  have w: "dm_runtime_args (data_movement_kernels p ! 1) c =
       (if visited_from (ls_num_cores_y sc) (ls_num_cores sc) 0 c
        then Some (writer_runtime_args sc (tiles_of_core sc c)
               (tiles_read_before sc (unat (core_index (ls_num_cores_y sc) c))))
        else None)" for c
    unfolding p built_program_args [OF len] emp built_writer_args_def by (rule refl)
  show ?thesis
    using r w by (intro that [OF b k cs']) blast+
qed

lemma bcast_multi_core_hw_reader_slots:
  assumes build: "bcast_multi_core_hw ext a b output bcast_math bcast_dim = Inr (p, cs)"
    and sa: "shape a = Shape N C H W" and sb: "shape b = Shape bN bC bH bW"
    and c: "visited_from (cs_num_cores_y cs) (cs_num_cores cs) 0 c"
  shows "\<exists>args. dm_runtime_args (data_movement_kernels p ! cs_binary_reader_kernel cs) c = Some args \<and>
      length args = 15 \<and>
      args ! 7 = N * C * bH * bW div TILE_HW ext \<and>
      args ! 12 = (if bN * bC = 1 then 1 else 0)"
proof -
  from build obtain src0 src1 dst p0 sc where
    "buffer a = Some src0" "buffer b = Some src1" "buffer output = Some dst"
    and k: "bcast_multi_core_hw_kernels ext a b src0 src1 dst bcast_math bcast_dim = (p0, sc)"
    and cs: "cs = \<lparr>cs_binary_reader_kernel = 0, cs_unary_writer_kernel = 1,
           cs_num_cores = ls_num_cores sc, cs_num_cores_y = ls_num_cores_y sc\<rparr>"
    and r: "\<forall>c. dm_runtime_args (data_movement_kernels p ! 0) c =
       (if visited_from (ls_num_cores_y sc) (ls_num_cores sc) 0 c
        then Some (reader_runtime_args sc (tiles_of_core sc c)
               (tiles_read_before sc (unat (core_index (ls_num_cores_y sc) c))))
        else None)"
    and w: "\<forall>c. dm_runtime_args (data_movement_kernels p ! 1) c =
       (if visited_from (ls_num_cores_y sc) (ls_num_cores sc) 0 c
        then Some (writer_runtime_args sc (tiles_of_core sc c)
               (tiles_read_before sc (unat (core_index (ls_num_cores_y sc) c))))
        else None)"
    by (rule bcast_multi_core_hw_runtime_args)
  obtain num_cores all_cores g1 g2 t1 t2 where split:
    "split_work_to_cores (compute_and_storage_grid_size (device a))
        (N * C * (H div TILE_HEIGHT ext) * (W div TILE_WIDTH ext)) =
      (num_cores, all_cores, g1, g2, t1, t2)"
    by (metis prod_cases6)
  note e = bcast_multi_core_hw_kernels_eq [OF sa sb split, of src0 src1 dst bcast_math bcast_dim]
  from k e have f: "ls_num_btensor_tiles sc = N * C * bH * bW div TILE_HW ext"
    "ls_bnc1 sc = (if bN * bC = 1 then 1 else 0)"
    by auto
  from c have "visited_from (ls_num_cores_y sc) (ls_num_cores sc) 0 c"
    by (simp add: cs)
  then have "dm_runtime_args (data_movement_kernels p ! cs_binary_reader_kernel cs) c =
      Some (reader_runtime_args sc (tiles_of_core sc c)
               (tiles_read_before sc (unat (core_index (ls_num_cores_y sc) c))))"
    by (simp add: cs r)
  then show ?thesis
    by (simp add: reader_runtime_args_def f)
qed

lemma bcast_multi_core_hw_groups_visited:
  assumes build: "bcast_multi_core_hw ext a b output bcast_math bcast_dim = Inr (p, cs)"
  shows "(\<exists>k \<in> set (compute_kernels p). core_coord_in_core_ranges (ck_core_ranges k) c) \<longleftrightarrow>
     visited_from (cs_num_cores_y cs) (cs_num_cores cs) 0 c"
proof -
  from build obtain src0 src1 dst p0 sc where
    k: "bcast_multi_core_hw_kernels ext a b src0 src1 dst bcast_math bcast_dim = (p0, sc)"
    and p: "p = built_program sc p0" and cs: "cs = built_callback sc"
    by (rule bcast_multi_core_hw_InrE)
  obtain N C H W where sa: "shape a = Shape N C H W" by (cases "shape a")
  obtain bN bC bH bW where sb: "shape b = Shape bN bC bH bW" by (cases "shape b")
  obtain num_cores all_cores g1 g2 t1 t2 where split:
    "split_work_to_cores (compute_and_storage_grid_size (device a))
        (N * C * (H div TILE_HEIGHT ext) * (W div TILE_WIDTH ext)) =
      (num_cores, all_cores, g1, g2, t1, t2)"
    by (metis prod_cases6)
  note e = bcast_multi_core_hw_kernels_eq [OF sa sb split, of src0 src1 dst bcast_math bcast_dim]
  from k e have scf: "cs_num_cores cs = num_cores"
    "cs_num_cores_y cs = coord_y (compute_and_storage_grid_size (device a))"
    unfolding cs built_callback_def by auto
  from k e have cks: "(\<exists>k \<in> set (compute_kernels p). core_coord_in_core_ranges (ck_core_ranges k) c)
      \<longleftrightarrow> core_coord_in_core_ranges g1 c \<or> core_coord_in_core_ranges g2 c"
    unfolding p by (auto simp: core_coord_in_core_ranges_def)
  show ?thesis
    unfolding cks scf split_visited(1) [OF split] ..
qed

lemma bcast_multi_core_hw_num_cores:
  assumes build: "bcast_multi_core_hw ext a b output bcast_math bcast_dim = Inr (p, cs)"
    and sa: "shape a = Shape N C H W"
  shows "unat (cs_num_cores cs) =
       min (unat (coord_x (compute_and_storage_grid_size (device a)))
              * unat (coord_y (compute_and_storage_grid_size (device a))))
           (unat (N * C * (H div TILE_HEIGHT ext) * (W div TILE_WIDTH ext)))"
    and "cs_num_cores_y cs = coord_y (compute_and_storage_grid_size (device a))"
    and "split_work_to_cores (compute_and_storage_grid_size (device a))
        (N * C * (H div TILE_HEIGHT ext) * (W div TILE_WIDTH ext)) =
      (num_cores, all_cores, g1, g2, t1, t2) \<Longrightarrow> cs_num_cores cs = num_cores"
proof -
  from build obtain src0 src1 dst p0 sc where
    k: "bcast_multi_core_hw_kernels ext a b src0 src1 dst bcast_math bcast_dim = (p0, sc)"
    and p: "p = built_program sc p0" and cs: "cs = built_callback sc"
    by (rule bcast_multi_core_hw_InrE)
  obtain bN bC bH bW where sb: "shape b = Shape bN bC bH bW" by (cases "shape b")
  obtain n' all' g1' g2' t1' t2' where split:
    "split_work_to_cores (compute_and_storage_grid_size (device a))
        (N * C * (H div TILE_HEIGHT ext) * (W div TILE_WIDTH ext)) =
      (n', all', g1', g2', t1', t2')"
    by (metis prod_cases6)
  note e = bcast_multi_core_hw_kernels_eq [OF sa sb split, of src0 src1 dst bcast_math bcast_dim]
  from k e have n: "cs_num_cores cs = n'"
    and y: "cs_num_cores_y cs = coord_y (compute_and_storage_grid_size (device a))"
    unfolding cs built_callback_def by auto
  show "unat (cs_num_cores cs) =
       min (unat (coord_x (compute_and_storage_grid_size (device a)))
              * unat (coord_y (compute_and_storage_grid_size (device a))))
           (unat (N * C * (H div TILE_HEIGHT ext) * (W div TILE_WIDTH ext)))"
    unfolding n by (rule split_work_to_cores_facts(1) [OF split])
  show "cs_num_cores_y cs = coord_y (compute_and_storage_grid_size (device a))"
    by (rule y)
  show "cs_num_cores cs = num_cores"
    if "split_work_to_cores (compute_and_storage_grid_size (device a))
        (N * C * (H div TILE_HEIGHT ext) * (W div TILE_WIDTH ext)) =
      (num_cores, all_cores, g1, g2, t1, t2)"
    using that split n by simp
qed

lemma bcast_multi_core_hw_active_reader:
  assumes dim: "bcast_dim = BcastOpDim_HW"
    and tile: "TILE_WIDTH ext \<noteq> 0" "TILE_HEIGHT ext \<noteq> 0" "TILE_HW ext \<noteq> 0"
    and bufs: "buffer a = Some src0" "buffer b = Some src1" "buffer output = Some dst"
    and sa: "shape a = Shape N C H W" and sb: "shape b = Shape bN bC bH bW"
    and split: "split_work_to_cores (compute_and_storage_grid_size (device a))
        (N * C * (H div TILE_HEIGHT ext) * (W div TILE_WIDTH ext)) =
      (num_cores, all_cores, g1, g2, t1, t2)"
  obtains p cs where
    "bcast_multi_core_hw ext a b output bcast_math bcast_dim = Inr (p, cs)"
    "cs_num_cores cs = num_cores"
    "cs_num_cores_y cs = coord_y (compute_and_storage_grid_size (device a))"
    "unat num_cores =
       min (unat (coord_x (compute_and_storage_grid_size (device a)))
              * unat (coord_y (compute_and_storage_grid_size (device a))))
           (unat (N * C * (H div TILE_HEIGHT ext) * (W div TILE_WIDTH ext)))"
    "\<forall>i. i < num_cores \<longrightarrow>
      (\<exists>args. dm_runtime_args (data_movement_kernels p ! cs_binary_reader_kernel cs)
                (CoreCoord (i div coord_y (compute_and_storage_grid_size (device a)))
                           (i mod coord_y (compute_and_storage_grid_size (device a)))) = Some args \<and>
              length args = 15 \<and> args ! 7 = N * C * bH * bW div TILE_HW ext \<and>
              args ! 12 = (if bN * bC = 1 then 1 else 0))"
    "\<forall>c. core_coord_in_core_ranges g1 c \<or> core_coord_in_core_ranges g2 c \<longrightarrow>
      (\<exists>args. dm_runtime_args (data_movement_kernels p ! cs_binary_reader_kernel cs) c = Some args \<and>
              length args = 15 \<and> args ! 7 = N * C * bH * bW div TILE_HW ext \<and>
              args ! 12 = (if bN * bC = 1 then 1 else 0))"
    "\<forall>c. (\<exists>k \<in> set (compute_kernels p). core_coord_in_core_ranges (ck_core_ranges k) c) \<longleftrightarrow>
         core_coord_in_core_ranges g1 c \<or> core_coord_in_core_ranges g2 c"
proof -
  let ?y = "coord_y (compute_and_storage_grid_size (device a))"
  obtain p0 sc where k:
    "bcast_multi_core_hw_kernels ext a b src0 src1 dst bcast_math bcast_dim = (p0, sc)"
    by (cases "bcast_multi_core_hw_kernels ext a b src0 src1 dst bcast_math bcast_dim")
  define p where "p = built_program sc p0"
  define cs where "cs = built_callback sc"
  have build: "bcast_multi_core_hw ext a b output bcast_math bcast_dim = Inr (p, cs)"
    unfolding p_def cs_def by (rule bcast_multi_core_hw_ok [OF dim tile bufs k])
  note nc = bcast_multi_core_hw_num_cores [OF build sa]
  have n: "cs_num_cores cs = num_cores"
    by (rule nc(3) [OF split])
  have y: "cs_num_cores_y cs = ?y"
    by (rule nc(2))
  have u: "unat num_cores =
       min (unat (coord_x (compute_and_storage_grid_size (device a))) * unat ?y)
           (unat (N * C * (H div TILE_HEIGHT ext) * (W div TILE_WIDTH ext)))"
    using nc(1) unfolding n .
  have v: "visited_from ?y num_cores 0 c \<longleftrightarrow>
       core_coord_in_core_ranges g1 c \<or> core_coord_in_core_ranges g2 c" for c
    using split_visited(1) [OF split] by blast
  have *: "\<exists>args. dm_runtime_args (data_movement_kernels p ! cs_binary_reader_kernel cs) c = Some args \<and>
      length args = 15 \<and> args ! 7 = N * C * bH * bW div TILE_HW ext \<and>
      args ! 12 = (if bN * bC = 1 then 1 else 0)"
    if "visited_from ?y num_cores 0 c" for c
    using bcast_multi_core_hw_reader_slots [OF build sa sb, unfolded n y, OF that] by blast
  have idx: "\<forall>i. i < num_cores \<longrightarrow>
      (\<exists>args. dm_runtime_args (data_movement_kernels p ! cs_binary_reader_kernel cs)
                (CoreCoord (i div ?y) (i mod ?y)) = Some args \<and>
              length args = 15 \<and> args ! 7 = N * C * bH * bW div TILE_HW ext \<and>
              args ! 12 = (if bN * bC = 1 then 1 else 0))"
  proof (intro allI impI)
    fix i assume "i < num_cores"
    then have "visited_from ?y num_cores 0 (CoreCoord (i div ?y) (i mod ?y))"
      unfolding visited_from_zero by blast
    then show "\<exists>args. dm_runtime_args (data_movement_kernels p ! cs_binary_reader_kernel cs)
                (CoreCoord (i div ?y) (i mod ?y)) = Some args \<and>
              length args = 15 \<and> args ! 7 = N * C * bH * bW div TILE_HW ext \<and>
              args ! 12 = (if bN * bC = 1 then 1 else 0)"
      by (rule *)
  qed
  have grp: "\<forall>c. core_coord_in_core_ranges g1 c \<or> core_coord_in_core_ranges g2 c \<longrightarrow>
      (\<exists>args. dm_runtime_args (data_movement_kernels p ! cs_binary_reader_kernel cs) c = Some args \<and>
              length args = 15 \<and> args ! 7 = N * C * bH * bW div TILE_HW ext \<and>
              args ! 12 = (if bN * bC = 1 then 1 else 0))"
    using v * by blast
  have ck: "\<forall>c. (\<exists>k \<in> set (compute_kernels p). core_coord_in_core_ranges (ck_core_ranges k) c) \<longleftrightarrow>
         core_coord_in_core_ranges g1 c \<or> core_coord_in_core_ranges g2 c"
    unfolding bcast_multi_core_hw_groups_visited [OF build] n y using v by blast
  from build n y u idx grp ck show ?thesis
    by (rule that)
qed

lemma example_split:
  "split_work_to_cores (compute_and_storage_grid_size (device example_a))
     (1 * 5 * (32 div TILE_HEIGHT example_externals) * (32 div TILE_WIDTH example_externals)) =
   (2, [CoreRange (CoreCoord 0 0) (CoreCoord 0 0), CoreRange (CoreCoord 1 0) (CoreCoord 1 0)],
    [CoreRange (CoreCoord 0 0) (CoreCoord 0 0)], [CoreRange (CoreCoord 1 0) (CoreCoord 1 0)], 3, 2)"
  by (simp add: example_a_def example_tensor_def example_externals_def split_work_to_cores_def
      cores_between_def core_of_index_def Let_def upt_rec)

lemma example_preconditions:
  "TILE_WIDTH example_externals \<noteq> 0" "TILE_HEIGHT example_externals \<noteq> 0"
  "TILE_HW example_externals \<noteq> 0"
  "buffer example_a = Some \<lparr>address = 100, buffer_type = DRAM\<rparr>"
  "buffer example_b = Some \<lparr>address = 200, buffer_type = DRAM\<rparr>"
  "buffer example_output = Some \<lparr>address = 300, buffer_type = DRAM\<rparr>"
  "shape example_a = Shape 1 5 32 32" "shape example_b = Shape 1 1 32 32"
  by (simp_all add: example_a_def example_b_def example_output_def example_tensor_def
      example_externals_def)

text \<open>Claim C7 (scalar flag). When the broadcast dimension is HW, the tile constants are not 0
  and the three buffers are allocated, the construction succeeds and its active cores are
  those of the work split: \<open>num_cores = min (cols * rows) total_tiles\<close> of them, at the
  coordinates \<open>(i / rows, i % rows)\<close> for \<open>i < num_cores\<close>, which are the cores of group 1 and
  group 2 and the cores of the compute kernels. On every one of them the reader has 15 runtime
  arguments, and slot 12 is 1 when the 32-bit product \<open>bN * bC\<close> is 1, and 0 otherwise.\<close>

theorem bcast_multi_core_hw_scalar_flag:
  assumes dim: "bcast_dim = BcastOpDim_HW"
    and tile: "TILE_WIDTH ext \<noteq> 0" "TILE_HEIGHT ext \<noteq> 0" "TILE_HW ext \<noteq> 0"
    and bufs: "buffer a = Some src0" "buffer b = Some src1" "buffer output = Some dst"
    and sa: "shape a = Shape N C H W" and sb: "shape b = Shape bN bC bH bW"
    and split: "split_work_to_cores (compute_and_storage_grid_size (device a))
        (N * C * (H div TILE_HEIGHT ext) * (W div TILE_WIDTH ext)) =
      (num_cores, all_cores, core_group_1, core_group_2, t1, t2)"
  shows "\<exists>p cs. bcast_multi_core_hw ext a b output bcast_math bcast_dim = Inr (p, cs) \<and>
    cs_num_cores cs = num_cores \<and>
    cs_num_cores_y cs = coord_y (compute_and_storage_grid_size (device a)) \<and>
    unat num_cores =
       min (unat (coord_x (compute_and_storage_grid_size (device a)))
              * unat (coord_y (compute_and_storage_grid_size (device a))))
           (unat (N * C * (H div TILE_HEIGHT ext) * (W div TILE_WIDTH ext))) \<and>
    (\<forall>i. i < num_cores \<longrightarrow>
      (\<exists>args. dm_runtime_args (data_movement_kernels p ! cs_binary_reader_kernel cs)
                (CoreCoord (i div coord_y (compute_and_storage_grid_size (device a)))
                           (i mod coord_y (compute_and_storage_grid_size (device a)))) = Some args \<and>
              length args = 15 \<and> args ! 12 = (if bN * bC = 1 then 1 else 0))) \<and>
    (\<forall>c. core_coord_in_core_ranges core_group_1 c \<or> core_coord_in_core_ranges core_group_2 c \<longrightarrow>
      (\<exists>args. dm_runtime_args (data_movement_kernels p ! cs_binary_reader_kernel cs) c = Some args \<and>
              length args = 15 \<and> args ! 12 = (if bN * bC = 1 then 1 else 0))) \<and>
    (\<forall>c. (\<exists>k \<in> set (compute_kernels p). core_coord_in_core_ranges (ck_core_ranges k) c) \<longleftrightarrow>
         core_coord_in_core_ranges core_group_1 c \<or> core_coord_in_core_ranges core_group_2 c)"
proof -
  from dim tile bufs sa sb split obtain p cs where
    "bcast_multi_core_hw ext a b output bcast_math bcast_dim = Inr (p, cs)"
    "cs_num_cores cs = num_cores"
    "cs_num_cores_y cs = coord_y (compute_and_storage_grid_size (device a))"
    "unat num_cores =
       min (unat (coord_x (compute_and_storage_grid_size (device a)))
              * unat (coord_y (compute_and_storage_grid_size (device a))))
           (unat (N * C * (H div TILE_HEIGHT ext) * (W div TILE_WIDTH ext)))"
    "\<forall>i. i < num_cores \<longrightarrow>
      (\<exists>args. dm_runtime_args (data_movement_kernels p ! cs_binary_reader_kernel cs)
                (CoreCoord (i div coord_y (compute_and_storage_grid_size (device a)))
                           (i mod coord_y (compute_and_storage_grid_size (device a)))) = Some args \<and>
              length args = 15 \<and> args ! 7 = N * C * bH * bW div TILE_HW ext \<and>
              args ! 12 = (if bN * bC = 1 then 1 else 0))"
    "\<forall>c. core_coord_in_core_ranges core_group_1 c \<or> core_coord_in_core_ranges core_group_2 c \<longrightarrow>
      (\<exists>args. dm_runtime_args (data_movement_kernels p ! cs_binary_reader_kernel cs) c = Some args \<and>
              length args = 15 \<and> args ! 7 = N * C * bH * bW div TILE_HW ext \<and>
              args ! 12 = (if bN * bC = 1 then 1 else 0))"
    "\<forall>c. (\<exists>k \<in> set (compute_kernels p). core_coord_in_core_ranges (ck_core_ranges k) c) \<longleftrightarrow>
         core_coord_in_core_ranges core_group_1 c \<or> core_coord_in_core_ranges core_group_2 c"
    by (rule bcast_multi_core_hw_active_reader)
  then show ?thesis
    by (intro exI [of _ p] exI [of _ cs] conjI) blast+
qed

theorem bcast_multi_core_hw_scalar_flag_witness:
  "bcast_multi_core_hw example_externals example_a example_b example_output
     BcastOpMath_ADD BcastOpDim_HW = Inr (example_program 100 200 300, example_callback) \<and>
   cs_num_cores example_callback = 2 \<and> (1 :: uint32_t) < 2 \<and>
   dm_runtime_args (data_movement_kernels (example_program 100 200 300) ! 0) (CoreCoord 1 0)
     = Some [100, 0, 0, 2, 200, 0, 0, 5, 2, 1, 1, 2, 1, 3, 1] \<and>
   [100, 0, 0, 2, 200, 0, 0, 5, 2, 1, 1, 2, 1, 3, 1 :: uint32_t] ! 12 = (if (1 :: uint32_t) * 1 = 1 then 1 else 0)"
proof -
  have lt: "(1 :: uint32_t) < 2"
    by simp
  have r: "dm_runtime_args (data_movement_kernels (example_program 100 200 300) ! 0) (CoreCoord 1 0)
     = Some [100, 0, 0, 2, 200, 0, 0, 5, 2, 1, 1, 2, 1, 3, 1]"
    by (simp add: example_program_def example_kernels_def)
  have y: "coord_y (compute_and_storage_grid_size (device example_a)) = 1"
    by (simp add: example_a_def example_tensor_def)
  from bcast_multi_core_hw_scalar_flag [OF refl example_preconditions example_split,
      of BcastOpMath_ADD]
  obtain p cs where
    b: "bcast_multi_core_hw example_externals example_a example_b example_output
         BcastOpMath_ADD BcastOpDim_HW = Inr (p, cs)"
    and n: "cs_num_cores cs = 2"
    and s: "\<forall>i. i < 2 \<longrightarrow>
      (\<exists>args. dm_runtime_args (data_movement_kernels p ! cs_binary_reader_kernel cs)
                (CoreCoord (i div coord_y (compute_and_storage_grid_size (device example_a)))
                           (i mod coord_y (compute_and_storage_grid_size (device example_a)))) = Some args \<and>
              length args = 15 \<and> args ! 12 = (if (1 :: uint32_t) * 1 = 1 then 1 else 0))"
    by blast
  from b have pc: "p = example_program 100 200 300" "cs = example_callback"
    unfolding example_build by simp_all
  from s [rule_format, OF lt] obtain args where
    "dm_runtime_args (data_movement_kernels p ! cs_binary_reader_kernel cs)
        (CoreCoord (1 div coord_y (compute_and_storage_grid_size (device example_a)))
                   (1 mod coord_y (compute_and_storage_grid_size (device example_a)))) = Some args"
    "args ! 12 = (if (1 :: uint32_t) * 1 = 1 then 1 else 0)"
    by blast
  then have "[100, 0, 0, 2, 200, 0, 0, 5, 2, 1, 1, 2, 1, 3, 1 :: uint32_t] ! 12
      = (if (1 :: uint32_t) * 1 = 1 then 1 else 0)"
    using r unfolding pc y by (simp add: example_callback_def)
  with b n lt r show ?thesis
    unfolding pc by blast
qed

lemma unat_mult4:
  fixes n c h w :: uint32_t
  assumes "unat n * unat c * unat h * unat w < 2 ^ 32" "0 < unat h * unat w"
  shows "unat (n * c * h * w) = unat n * unat c * unat h * unat w"
    and "unat (n * c) = unat n * unat c"
proof -
  from assms(2) have h: "1 \<le> unat h" and w: "1 \<le> unat w"
    by (simp_all add: Suc_leI)
  have "unat n * unat c * 1 \<le> unat n * unat c * unat h"
    using h by (intro mult_le_mono2)
  then have l1: "unat n * unat c \<le> unat n * unat c * unat h" by simp
  have "unat n * unat c * unat h * 1 \<le> unat n * unat c * unat h * unat w"
    using w by (intro mult_le_mono2)
  then have l2: "unat n * unat c * unat h \<le> unat n * unat c * unat h * unat w" by simp
  have b1: "unat n * unat c < 2 ^ 32" and b2: "unat n * unat c * unat h < 2 ^ 32"
    using l1 l2 assms(1) by linarith+
  from b1 show nc: "unat (n * c) = unat n * unat c"
    by (simp add: unat_mult_lem [symmetric])
  from b2 nc have nch: "unat (n * c * h) = unat n * unat c * unat h"
    using unat_mult_lem [of "n * c" h] by simp
  from assms(1) nch show "unat (n * c * h * w) = unat n * unat c * unat h * unat w"
    using unat_mult_lem [of "n * c * h" w] by simp
qed

lemma scaled_div_less:
  fixes x y k t :: nat
  assumes "x < y" "0 < t" "t \<le> k"
  shows "x * k div t < y * k div t"
proof -
  from assms(1) have "Suc x \<le> y" by simp
  then have "Suc x * k \<le> y * k" by (rule mult_le_mono1)
  then have "x * k + t \<le> y * k" using assms(3) by simp
  then have "(x * k + t) div t \<le> y * k div t" by (rule div_le_mono)
  moreover have "(x * k + t) div t = x * k div t + 1"
    using assms(2) div_add_self2 [of t "x * k"] by simp
  ultimately show ?thesis by linarith
qed

lemma btensor_tiles_differ:
  fixes N C bN bC bH bW T :: uint32_t
  assumes fa: "unat N * unat C * unat bH * unat bW < 2 ^ 32"
    and fb: "unat bN * unat bC * unat bH * unat bW < 2 ^ 32"
    and le: "unat T \<le> unat bH * unat bW"
    and T: "T \<noteq> 0"
    and ne: "N * C \<noteq> bN * bC"
  shows "N * C * bH * bW div T \<noteq> bN * bC * bH * bW div T"
proof
  assume eq: "N * C * bH * bW div T = bN * bC * bH * bW div T"
  from T have Tpos: "0 < unat T"
    by (simp add: unat_gt_0)
  with le have pos: "0 < unat bH * unat bW"
    by linarith
  have a: "unat (N * C * bH * bW div T) = unat N * unat C * (unat bH * unat bW) div unat T"
    unfolding unat_div unat_mult4(1) [OF fa pos] by (simp add: mult.assoc)
  have b: "unat (bN * bC * bH * bW div T) = unat bN * unat bC * (unat bH * unat bW) div unat T"
    unfolding unat_div unat_mult4(1) [OF fb pos] by (simp add: mult.assoc)
  from a b have e: "unat N * unat C * (unat bH * unat bW) div unat T
      = unat bN * unat bC * (unat bH * unat bW) div unat T"
    unfolding eq by (rule trans [OF sym])
  have ne': "unat N * unat C \<noteq> unat bN * unat bC"
  proof
    assume "unat N * unat C = unat bN * unat bC"
    then have "unat (N * C) = unat (bN * bC)"
      unfolding unat_mult4(2) [OF fa pos] unat_mult4(2) [OF fb pos] .
    then have "N * C = bN * bC"
      by (simp add: word_unat_eq_iff)
    with ne show False by contradiction
  qed
  then consider "unat N * unat C < unat bN * unat bC" | "unat bN * unat bC < unat N * unat C"
    by linarith
  then show False
  proof cases
    case 1
    from scaled_div_less [OF 1 Tpos le] e show False by simp
  next
    case 2
    from scaled_div_less [OF 2 Tpos le] e show False by simp
  qed
qed


text \<open>Against claim C10 as stated: operand A of shape \<open>2 x 1 x 32 x 32\<close> and operand B of
  shape \<open>1 x 1 x 1 x 1\<close> have \<open>N * C = 2\<close> and \<open>bN * bC = 1\<close>, and slot 7 of the reader is 0, which
  is operand B's own tile count \<open>bN * bC * bH * bW / TILE_HW\<close>.\<close>

theorem bcast_multi_core_hw_btensor_tiles_counterexample:
  "reader_args_of
     (bcast_multi_core_hw example_externals
        (example_tensor (Shape 2 1 32 32) 100 (CoreCoord 2 1))
        (example_tensor (Shape 1 1 1 1) 200 (CoreCoord 2 1))
        (example_tensor (Shape 2 1 32 32) 300 (CoreCoord 2 1))
        BcastOpMath_ADD BcastOpDim_HW)
     (CoreCoord 0 0)
   = Some [100, 0, 0, 1, 200, 0, 0, 0, 1, 1, 1, 1, 1, 0, 1] \<and>
   [100, 0, 0, 1, 200, 0, 0, 0, 1, 1, 1, 1, 1, 0, 1 :: uint32_t] ! 7
     = 1 * 1 * 1 * 1 div TILE_HW example_externals \<and>
   (1 :: uint32_t) * 1 \<noteq> 2 * 1"
  by (simp add: example_eval reader_args_of_def)

text \<open>Claim C10, amended (operand B's tile count). When the broadcast dimension is HW, the tile
  constants are not 0 and the three buffers are allocated, the construction succeeds and its
  active cores are those of the work split: \<open>num_cores = min (cols * rows) total_tiles\<close> of
  them, at the coordinates \<open>(i / rows, i % rows)\<close> for \<open>i < num_cores\<close>, which are the cores of
  group 1 and group 2. On every one of them slot 7 of the reader's runtime arguments is
  \<open>N * C * bH * bW / TILE_HW\<close> in 32-bit arithmetic, with operand A's \<open>N * C\<close>; when neither
  product \<open>N * C * bH * bW\<close> nor \<open>bN * bC * bH * bW\<close> overflows 32 bits and \<open>bH * bW\<close> is at least
  \<open>TILE_HW\<close>, that slot differs from operand B's tile count \<open>bN * bC * bH * bW / TILE_HW\<close>
  whenever \<open>N * C\<close> differs from \<open>bN * bC\<close>.\<close>

theorem bcast_multi_core_hw_btensor_tiles:
  assumes dim: "bcast_dim = BcastOpDim_HW"
    and tile: "TILE_WIDTH ext \<noteq> 0" "TILE_HEIGHT ext \<noteq> 0" "TILE_HW ext \<noteq> 0"
    and bufs: "buffer a = Some src0" "buffer b = Some src1" "buffer output = Some dst"
    and sa: "shape a = Shape N C H W" and sb: "shape b = Shape bN bC bH bW"
    and split: "split_work_to_cores (compute_and_storage_grid_size (device a))
        (N * C * (H div TILE_HEIGHT ext) * (W div TILE_WIDTH ext)) =
      (num_cores, all_cores, core_group_1, core_group_2, t1, t2)"
  shows "\<exists>p cs. bcast_multi_core_hw ext a b output bcast_math bcast_dim = Inr (p, cs) \<and>
    cs_num_cores cs = num_cores \<and>
    cs_num_cores_y cs = coord_y (compute_and_storage_grid_size (device a)) \<and>
    unat num_cores =
       min (unat (coord_x (compute_and_storage_grid_size (device a)))
              * unat (coord_y (compute_and_storage_grid_size (device a))))
           (unat (N * C * (H div TILE_HEIGHT ext) * (W div TILE_WIDTH ext))) \<and>
    (\<forall>i. i < num_cores \<longrightarrow>
      (\<exists>args. dm_runtime_args (data_movement_kernels p ! cs_binary_reader_kernel cs)
                (CoreCoord (i div coord_y (compute_and_storage_grid_size (device a)))
                           (i mod coord_y (compute_and_storage_grid_size (device a)))) = Some args \<and>
              length args = 15 \<and> args ! 7 = N * C * bH * bW div TILE_HW ext \<and>
              (unat N * unat C * unat bH * unat bW < 2 ^ 32 \<and>
               unat bN * unat bC * unat bH * unat bW < 2 ^ 32 \<and>
               unat (TILE_HW ext) \<le> unat bH * unat bW \<and> N * C \<noteq> bN * bC \<longrightarrow>
                 args ! 7 \<noteq> bN * bC * bH * bW div TILE_HW ext))) \<and>
    (\<forall>c. core_coord_in_core_ranges core_group_1 c \<or> core_coord_in_core_ranges core_group_2 c \<longrightarrow>
      (\<exists>args. dm_runtime_args (data_movement_kernels p ! cs_binary_reader_kernel cs) c = Some args \<and>
              length args = 15 \<and> args ! 7 = N * C * bH * bW div TILE_HW ext \<and>
              (unat N * unat C * unat bH * unat bW < 2 ^ 32 \<and>
               unat bN * unat bC * unat bH * unat bW < 2 ^ 32 \<and>
               unat (TILE_HW ext) \<le> unat bH * unat bW \<and> N * C \<noteq> bN * bC \<longrightarrow>
                 args ! 7 \<noteq> bN * bC * bH * bW div TILE_HW ext)))"
proof -
  from dim tile bufs sa sb split obtain p cs where
    "bcast_multi_core_hw ext a b output bcast_math bcast_dim = Inr (p, cs)"
    "cs_num_cores cs = num_cores"
    "cs_num_cores_y cs = coord_y (compute_and_storage_grid_size (device a))"
    "unat num_cores =
       min (unat (coord_x (compute_and_storage_grid_size (device a)))
              * unat (coord_y (compute_and_storage_grid_size (device a))))
           (unat (N * C * (H div TILE_HEIGHT ext) * (W div TILE_WIDTH ext)))"
    and idx: "\<forall>i. i < num_cores \<longrightarrow>
      (\<exists>args. dm_runtime_args (data_movement_kernels p ! cs_binary_reader_kernel cs)
                (CoreCoord (i div coord_y (compute_and_storage_grid_size (device a)))
                           (i mod coord_y (compute_and_storage_grid_size (device a)))) = Some args \<and>
              length args = 15 \<and> args ! 7 = N * C * bH * bW div TILE_HW ext \<and>
              args ! 12 = (if bN * bC = 1 then 1 else 0))"
    and grp: "\<forall>c. core_coord_in_core_ranges core_group_1 c \<or> core_coord_in_core_ranges core_group_2 c \<longrightarrow>
      (\<exists>args. dm_runtime_args (data_movement_kernels p ! cs_binary_reader_kernel cs) c = Some args \<and>
              length args = 15 \<and> args ! 7 = N * C * bH * bW div TILE_HW ext \<and>
              args ! 12 = (if bN * bC = 1 then 1 else 0))"
    by (rule bcast_multi_core_hw_active_reader)
  moreover have d: "unat N * unat C * unat bH * unat bW < 2 ^ 32 \<and>
       unat bN * unat bC * unat bH * unat bW < 2 ^ 32 \<and>
       unat (TILE_HW ext) \<le> unat bH * unat bW \<and> N * C \<noteq> bN * bC \<longrightarrow>
         N * C * bH * bW div TILE_HW ext \<noteq> bN * bC * bH * bW div TILE_HW ext"
    using tile(3) btensor_tiles_differ [of N C bH bW bN bC "TILE_HW ext"] by blast
  have "\<exists>args. dm_runtime_args (data_movement_kernels p ! cs_binary_reader_kernel cs)
                (CoreCoord (i div coord_y (compute_and_storage_grid_size (device a)))
                           (i mod coord_y (compute_and_storage_grid_size (device a)))) = Some args \<and>
              length args = 15 \<and> args ! 7 = N * C * bH * bW div TILE_HW ext \<and>
              (unat N * unat C * unat bH * unat bW < 2 ^ 32 \<and>
               unat bN * unat bC * unat bH * unat bW < 2 ^ 32 \<and>
               unat (TILE_HW ext) \<le> unat bH * unat bW \<and> N * C \<noteq> bN * bC \<longrightarrow>
                 args ! 7 \<noteq> bN * bC * bH * bW div TILE_HW ext)" if "i < num_cores" for i
  proof -
    from idx that obtain args where
      "dm_runtime_args (data_movement_kernels p ! cs_binary_reader_kernel cs)
                (CoreCoord (i div coord_y (compute_and_storage_grid_size (device a)))
                           (i mod coord_y (compute_and_storage_grid_size (device a)))) = Some args"
      "length args = 15" "args ! 7 = N * C * bH * bW div TILE_HW ext"
      by blast
    with d show ?thesis by simp
  qed
  moreover have "\<exists>args. dm_runtime_args (data_movement_kernels p ! cs_binary_reader_kernel cs) c = Some args \<and>
              length args = 15 \<and> args ! 7 = N * C * bH * bW div TILE_HW ext \<and>
              (unat N * unat C * unat bH * unat bW < 2 ^ 32 \<and>
               unat bN * unat bC * unat bH * unat bW < 2 ^ 32 \<and>
               unat (TILE_HW ext) \<le> unat bH * unat bW \<and> N * C \<noteq> bN * bC \<longrightarrow>
                 args ! 7 \<noteq> bN * bC * bH * bW div TILE_HW ext)"
    if "core_coord_in_core_ranges core_group_1 c \<or> core_coord_in_core_ranges core_group_2 c" for c
  proof -
    from grp that obtain args where
      "dm_runtime_args (data_movement_kernels p ! cs_binary_reader_kernel cs) c = Some args"
      "length args = 15" "args ! 7 = N * C * bH * bW div TILE_HW ext"
      by blast
    with d show ?thesis by simp
  qed
  ultimately show ?thesis
    by (intro exI [of _ p] exI [of _ cs] conjI) blast+
qed

theorem bcast_multi_core_hw_btensor_tiles_witness:
  "bcast_multi_core_hw example_externals example_a example_b example_output
     BcastOpMath_ADD BcastOpDim_HW = Inr (example_program 100 200 300, example_callback) \<and>
   cs_num_cores example_callback = 2 \<and> (1 :: uint32_t) < 2 \<and>
   dm_runtime_args (data_movement_kernels (example_program 100 200 300) ! 0) (CoreCoord 1 0)
     = Some [100, 0, 0, 2, 200, 0, 0, 5, 2, 1, 1, 2, 1, 3, 1] \<and>
   [100, 0, 0, 2, 200, 0, 0, 5, 2, 1, 1, 2, 1, 3, 1 :: uint32_t] ! 7
     = 1 * 5 * 32 * 32 div TILE_HW example_externals \<and>
   unat (1 :: uint32_t) * unat (5 :: uint32_t) * unat (32 :: uint32_t) * unat (32 :: uint32_t)
     < 2 ^ 32 \<and>
   unat (1 :: uint32_t) * unat (1 :: uint32_t) * unat (32 :: uint32_t) * unat (32 :: uint32_t)
     < 2 ^ 32 \<and>
   unat (TILE_HW example_externals) \<le> unat (32 :: uint32_t) * unat (32 :: uint32_t) \<and>
   (1 :: uint32_t) * 5 \<noteq> 1 * 1 \<and>
   [100, 0, 0, 2, 200, 0, 0, 5, 2, 1, 1, 2, 1, 3, 1 :: uint32_t] ! 7
     \<noteq> 1 * 1 * 32 * 32 div TILE_HW example_externals"
proof -
  have lt: "(1 :: uint32_t) < 2"
    by simp
  have r: "dm_runtime_args (data_movement_kernels (example_program 100 200 300) ! 0) (CoreCoord 1 0)
     = Some [100, 0, 0, 2, 200, 0, 0, 5, 2, 1, 1, 2, 1, 3, 1]"
    by (simp add: example_program_def example_kernels_def)
  have y: "coord_y (compute_and_storage_grid_size (device example_a)) = 1"
    by (simp add: example_a_def example_tensor_def)
  have h: "unat (1 :: uint32_t) * unat (5 :: uint32_t) * unat (32 :: uint32_t) * unat (32 :: uint32_t)
     < 2 ^ 32"
    "unat (1 :: uint32_t) * unat (1 :: uint32_t) * unat (32 :: uint32_t) * unat (32 :: uint32_t)
     < 2 ^ 32"
    "unat (TILE_HW example_externals) \<le> unat (32 :: uint32_t) * unat (32 :: uint32_t)"
    "(1 :: uint32_t) * 5 \<noteq> 1 * 1"
    by (simp_all add: example_externals_def)
  from bcast_multi_core_hw_btensor_tiles [OF refl example_preconditions example_split,
      of BcastOpMath_ADD]
  obtain p cs where
    b: "bcast_multi_core_hw example_externals example_a example_b example_output
         BcastOpMath_ADD BcastOpDim_HW = Inr (p, cs)"
    and n: "cs_num_cores cs = 2"
    and s: "\<forall>i. i < 2 \<longrightarrow>
      (\<exists>args. dm_runtime_args (data_movement_kernels p ! cs_binary_reader_kernel cs)
                (CoreCoord (i div coord_y (compute_and_storage_grid_size (device example_a)))
                           (i mod coord_y (compute_and_storage_grid_size (device example_a)))) = Some args \<and>
              length args = 15 \<and> args ! 7 = 1 * 5 * 32 * 32 div TILE_HW example_externals \<and>
              (unat (1 :: uint32_t) * unat (5 :: uint32_t) * unat (32 :: uint32_t) * unat (32 :: uint32_t) < 2 ^ 32 \<and>
               unat (1 :: uint32_t) * unat (1 :: uint32_t) * unat (32 :: uint32_t) * unat (32 :: uint32_t) < 2 ^ 32 \<and>
               unat (TILE_HW example_externals) \<le> unat (32 :: uint32_t) * unat (32 :: uint32_t) \<and>
               (1 :: uint32_t) * 5 \<noteq> 1 * 1 \<longrightarrow>
                 args ! 7 \<noteq> 1 * 1 * 32 * 32 div TILE_HW example_externals))"
    by blast
  from b have pc: "p = example_program 100 200 300" "cs = example_callback"
    unfolding example_build by simp_all
  from s [rule_format, OF lt] h obtain args where
    "dm_runtime_args (data_movement_kernels p ! cs_binary_reader_kernel cs)
        (CoreCoord (1 div coord_y (compute_and_storage_grid_size (device example_a)))
                   (1 mod coord_y (compute_and_storage_grid_size (device example_a)))) = Some args"
    "args ! 7 = 1 * 5 * 32 * 32 div TILE_HW example_externals"
    "args ! 7 \<noteq> 1 * 1 * 32 * 32 div TILE_HW example_externals"
    by blast
  then have s7: "[100, 0, 0, 2, 200, 0, 0, 5, 2, 1, 1, 2, 1, 3, 1 :: uint32_t] ! 7
      = 1 * 5 * 32 * 32 div TILE_HW example_externals"
    "[100, 0, 0, 2, 200, 0, 0, 5, 2, 1, 1, 2, 1, 3, 1 :: uint32_t] ! 7
      \<noteq> 1 * 1 * 32 * 32 div TILE_HW example_externals"
    using r unfolding pc y by (simp_all add: example_callback_def)
  from b n lt r s7 h show ?thesis
    unfolding pc by blast
qed



section \<open>The patch callback\<close>

lemma patched_reader_args_idem:
  "patched_reader_args a b c (patched_reader_args a b c v) = patched_reader_args a b c v"
  by (cases v) (simp_all add: patched_reader_args_def list_update_swap [of 0 4])

lemma patched_writer_args_idem:
  "patched_writer_args d c (patched_writer_args d c v) = patched_writer_args d c v"
  by (cases v) (simp_all add: patched_writer_args_def)

lemma patched_program_idem:
  assumes "cs_binary_reader_kernel cs \<noteq> cs_unary_writer_kernel cs"
  shows "patched_program cs a b d (patched_program cs a b d p) = patched_program cs a b d p"
proof -
  let ?S = "visited_from (cs_num_cores_y cs) (cs_num_cores cs) 0"
  let ?R = "cs_binary_reader_kernel cs" and ?W = "cs_unary_writer_kernel cs"
  let ?ur = "update_runtime_args ?R ?S (patched_reader_args a b)"
  let ?uw = "update_runtime_args ?W ?S (patched_writer_args d)"
  have "?uw (?ur (?uw (?ur p))) = ?uw (?uw (?ur (?ur p)))"
    by (simp add: update_update_commute [OF assms])
  also have "?ur (?ur p) = ?ur p"
    by (rule update_idem) (rule patched_reader_args_idem)
  also have "?uw (?uw (?ur p)) = ?uw (?ur p)"
    by (rule update_idem) (rule patched_writer_args_idem)
  finally show ?thesis
    unfolding patched_program_def .
qed

lemma override_runtime_args_callback_patchable:
  assumes "patchable cs p"
  shows "override_runtime_args_callback cs input_buffers output_buffers p =
     (if 2 \<le> length input_buffers \<and> 1 \<le> length output_buffers
      then Inr (patched_program cs (input_buffers ! 0) (input_buffers ! 1) (output_buffers ! 0) p)
      else Inl OutOfRange)"
proof (cases "2 \<le> length input_buffers \<and> 1 \<le> length output_buffers")
  case False
  then show ?thesis
    by (auto simp: override_runtime_args_callback_def vector_at_def Suc_le_eq)
next
  case True
  have "override_loop cs (input_buffers ! 0) (input_buffers ! 1) (output_buffers ! 0) 0 p =
     Inr (patched_program cs (input_buffers ! 0) (input_buffers ! 1) (output_buffers ! 0) p)"
    unfolding patched_program_def
    using assms by (intro override_loop_closed) (simp_all add: patchable_def)
  moreover from True have "0 < length input_buffers" "1 < length input_buffers"
    "0 < length output_buffers"
    by linarith+
  ultimately show ?thesis
    using True unfolding override_runtime_args_callback_def vector_at_def by simp
qed

lemma patchable_patched:
  assumes "patchable cs p"
  shows "patchable cs (patched_program cs a b d p)"
proof -
  let ?S = "visited_from (cs_num_cores_y cs) (cs_num_cores cs) 0"
  let ?R = "cs_binary_reader_kernel cs" and ?W = "cs_unary_writer_kernel cs"
  let ?q = "update_runtime_args ?R ?S (patched_reader_args a b) p"
  from assms have R: "?R < length (data_movement_kernels p)"
    and W: "?W < length (data_movement_kernels p)" and ne: "?R \<noteq> ?W"
    by (simp_all add: patchable_def)
  have Wq: "?W < length (data_movement_kernels ?q)" using W by simp
  have r: "dm_runtime_args (data_movement_kernels (patched_program cs a b d p) ! ?R) c
      = (if ?S c then patched_reader_args a b c (dm_runtime_args (data_movement_kernels p ! ?R) c)
         else dm_runtime_args (data_movement_kernels p ! ?R) c)" for c
    unfolding patched_program_def
    using ne R by (simp add: update_runtime_args_other update_runtime_args_same)
  have w: "dm_runtime_args (data_movement_kernels (patched_program cs a b d p) ! ?W) c
      = (if ?S c then patched_writer_args d c (dm_runtime_args (data_movement_kernels p ! ?W) c)
         else dm_runtime_args (data_movement_kernels p ! ?W) c)" for c
    unfolding patched_program_def update_runtime_args_same [OF Wq]
    using ne by (simp add: update_runtime_args_other)
  show ?thesis
    using assms unfolding patchable_def r w
    by (auto simp: patched_program_def patched_reader_args_def patched_writer_args_def)
qed

lemma patched_program_frame [simp]:
  "circular_buffers (patched_program cs a b d p) = circular_buffers p"
  "compute_kernels (patched_program cs a b d p) = compute_kernels p"
  "length (data_movement_kernels (patched_program cs a b d p)) = length (data_movement_kernels p)"
  by (simp_all add: patched_program_def)

lemma patched_program_static:
  "dm_name (data_movement_kernels (patched_program cs a b d p) ! k) = dm_name (data_movement_kernels p ! k)"
  "dm_core_ranges (data_movement_kernels (patched_program cs a b d p) ! k) = dm_core_ranges (data_movement_kernels p ! k)"
  "dm_compile_time_args (data_movement_kernels (patched_program cs a b d p) ! k) = dm_compile_time_args (data_movement_kernels p ! k)"
  "dm_processor (data_movement_kernels (patched_program cs a b d p) ! k) = dm_processor (data_movement_kernels p ! k)"
  "dm_noc (data_movement_kernels (patched_program cs a b d p) ! k) = dm_noc (data_movement_kernels p ! k)"
  by (simp_all add: patched_program_def update_runtime_args_static)

lemma patched_program_args:
  assumes R: "cs_binary_reader_kernel cs < length (data_movement_kernels p)"
    and W: "cs_unary_writer_kernel cs < length (data_movement_kernels p)"
    and ne: "cs_binary_reader_kernel cs \<noteq> cs_unary_writer_kernel cs"
  shows "dm_runtime_args (data_movement_kernels (patched_program cs a b d p) ! k) c =
     (if k = cs_binary_reader_kernel cs \<and> visited_from (cs_num_cores_y cs) (cs_num_cores cs) 0 c
      then patched_reader_args a b c (dm_runtime_args (data_movement_kernels p ! k) c)
      else if k = cs_unary_writer_kernel cs \<and> visited_from (cs_num_cores_y cs) (cs_num_cores cs) 0 c
      then patched_writer_args d c (dm_runtime_args (data_movement_kernels p ! k) c)
      else dm_runtime_args (data_movement_kernels p ! k) c)"
proof -
  let ?S = "visited_from (cs_num_cores_y cs) (cs_num_cores cs) 0"
  let ?R = "cs_binary_reader_kernel cs" and ?W = "cs_unary_writer_kernel cs"
  let ?q = "update_runtime_args ?R ?S (patched_reader_args a b) p"
  have Wq: "?W < length (data_movement_kernels ?q)" using W by simp
  consider "k = ?R" | "k = ?W" | "k \<noteq> ?R" "k \<noteq> ?W" by blast
  then show ?thesis
  proof cases
    case 1
    then show ?thesis
      unfolding patched_program_def
      using ne R by (simp add: update_runtime_args_other update_runtime_args_same)
  next
    case 2
    then show ?thesis
      unfolding patched_program_def 2 update_runtime_args_same [OF Wq]
      using ne by (simp add: update_runtime_args_other)
  next
    case 3
    then show ?thesis
      unfolding patched_program_def by (simp add: update_runtime_args_other)
  qed
qed

lemma bcast_multi_core_hw_patchable:
  assumes build: "bcast_multi_core_hw ext a b output bcast_math bcast_dim = Inr (p, cs)"
  shows "patchable cs p"
proof -
  from build obtain src0 src1 dst p0 sc where
    "buffer a = Some src0" "buffer b = Some src1" "buffer output = Some dst"
    and k: "bcast_multi_core_hw_kernels ext a b src0 src1 dst bcast_math bcast_dim = (p0, sc)"
    and cs: "cs = \<lparr>cs_binary_reader_kernel = 0, cs_unary_writer_kernel = 1,
           cs_num_cores = ls_num_cores sc, cs_num_cores_y = ls_num_cores_y sc\<rparr>"
    and r: "\<forall>c. dm_runtime_args (data_movement_kernels p ! 0) c =
       (if visited_from (ls_num_cores_y sc) (ls_num_cores sc) 0 c
        then Some (reader_runtime_args sc (tiles_of_core sc c)
               (tiles_read_before sc (unat (core_index (ls_num_cores_y sc) c))))
        else None)"
    and w: "\<forall>c. dm_runtime_args (data_movement_kernels p ! 1) c =
       (if visited_from (ls_num_cores_y sc) (ls_num_cores sc) 0 c
        then Some (writer_runtime_args sc (tiles_of_core sc c)
               (tiles_read_before sc (unat (core_index (ls_num_cores_y sc) c))))
        else None)"
    by (rule bcast_multi_core_hw_runtime_args)
  from build obtain p0' sc' src0' src1' dst' where
    k': "bcast_multi_core_hw_kernels ext a b src0' src1' dst' bcast_math bcast_dim = (p0', sc')"
    and p: "p = built_program sc' p0'"
    by (rule bcast_multi_core_hw_InrE)
  obtain N C H W where sa: "shape a = Shape N C H W" by (cases "shape a")
  obtain bN bC bH bW where sb: "shape b = Shape bN bC bH bW" by (cases "shape b")
  obtain num_cores all_cores g1 g2 t1 t2 where split:
    "split_work_to_cores (compute_and_storage_grid_size (device a))
        (N * C * (H div TILE_HEIGHT ext) * (W div TILE_WIDTH ext)) =
      (num_cores, all_cores, g1, g2, t1, t2)"
    by (metis prod_cases6)
  from k' bcast_multi_core_hw_kernels_eq [OF sa sb split, of src0' src1' dst' bcast_math bcast_dim]
  have len: "length (data_movement_kernels p) = 2"
    unfolding p by auto
  from k bcast_multi_core_hw_kernels_eq [OF sa sb split, of src0 src1 dst bcast_math bcast_dim]
  have scf: "ls_num_cores sc = num_cores"
    "ls_num_cores_y sc = coord_y (compute_and_storage_grid_size (device a))"
    by auto
  have r0: "0 < ls_num_cores sc \<longrightarrow> ls_num_cores_y sc \<noteq> 0"
    unfolding scf using split_visited(3) [OF split] by blast
  show ?thesis
    unfolding patchable_def cs
    using len r0 r w by (simp add: reader_runtime_args_def writer_runtime_args_def)
qed

lemma callback_result:
  assumes build: "bcast_multi_core_hw ext a b output bcast_math bcast_dim = Inr (p, cs)"
    and call: "override_runtime_args_callback cs input_buffers output_buffers p = Inr p'"
  shows "2 \<le> length input_buffers" "1 \<le> length output_buffers"
    "p' = patched_program cs (input_buffers ! 0) (input_buffers ! 1) (output_buffers ! 0) p"
  using call
  unfolding override_runtime_args_callback_patchable [OF bcast_multi_core_hw_patchable [OF build]]
  by (simp_all split: if_splits)

text \<open>Claim C4 (patch isolation). On a constructed program, a call of the callback that
  returns leaves every queue, every compute kernel and, of every data-movement kernel, the
  name, core range, compile-time arguments, processor and NOC as they were; the runtime
  arguments of a core keep their length and every slot other than slots 0 and 4 of the reader
  and slot 0 of the writer, and a core without runtime arguments stays without. On every
  active core the three address slots then hold the addresses of the new buffers.\<close>

theorem override_runtime_args_callback_isolation:
  assumes build: "bcast_multi_core_hw ext a b output bcast_math bcast_dim = Inr (p, cs)"
    and call: "override_runtime_args_callback cs input_buffers output_buffers p = Inr p'"
  shows "circular_buffers p' = circular_buffers p \<and>
    compute_kernels p' = compute_kernels p \<and>
    length (data_movement_kernels p') = length (data_movement_kernels p) \<and>
    (\<forall>k. dm_name (data_movement_kernels p' ! k) = dm_name (data_movement_kernels p ! k) \<and>
         dm_core_ranges (data_movement_kernels p' ! k) = dm_core_ranges (data_movement_kernels p ! k) \<and>
         dm_compile_time_args (data_movement_kernels p' ! k)
           = dm_compile_time_args (data_movement_kernels p ! k) \<and>
         dm_processor (data_movement_kernels p' ! k) = dm_processor (data_movement_kernels p ! k) \<and>
         dm_noc (data_movement_kernels p' ! k) = dm_noc (data_movement_kernels p ! k)) \<and>
    (\<forall>k c. case dm_runtime_args (data_movement_kernels p ! k) c of
        None \<Rightarrow> dm_runtime_args (data_movement_kernels p' ! k) c = None
      | Some args \<Rightarrow>
          (\<exists>args'. dm_runtime_args (data_movement_kernels p' ! k) c = Some args' \<and>
             length args' = length args \<and>
             (\<forall>slot < length args. \<not> address_slot cs k slot \<longrightarrow> args' ! slot = args ! slot))) \<and>
    (\<forall>i. i < cs_num_cores cs \<longrightarrow>
       (\<exists>xs ys.
          dm_runtime_args (data_movement_kernels p' ! cs_binary_reader_kernel cs)
            (CoreCoord (i div cs_num_cores_y cs) (i mod cs_num_cores_y cs)) = Some xs \<and>
          xs ! 0 = address (input_buffers ! 0) \<and> xs ! 4 = address (input_buffers ! 1) \<and>
          dm_runtime_args (data_movement_kernels p' ! cs_unary_writer_kernel cs)
            (CoreCoord (i div cs_num_cores_y cs) (i mod cs_num_cores_y cs)) = Some ys \<and>
          ys ! 0 = address (output_buffers ! 0)))"
proof -
  let ?a = "input_buffers ! 0" and ?b = "input_buffers ! 1" and ?d = "output_buffers ! 0"
  let ?S = "visited_from (cs_num_cores_y cs) (cs_num_cores cs) 0"
  note pt = bcast_multi_core_hw_patchable [OF build]
  have p': "p' = patched_program cs ?a ?b ?d p"
    by (rule callback_result(3) [OF build call])
  from pt have R: "cs_binary_reader_kernel cs < length (data_movement_kernels p)"
    and W: "cs_unary_writer_kernel cs < length (data_movement_kernels p)"
    and ne: "cs_binary_reader_kernel cs \<noteq> cs_unary_writer_kernel cs"
    by (simp_all add: patchable_def)
  note args = patched_program_args [OF R W ne, of ?a ?b ?d]
  have frame: "case dm_runtime_args (data_movement_kernels p ! k) c of
        None \<Rightarrow> dm_runtime_args (data_movement_kernels p' ! k) c = None
      | Some args \<Rightarrow>
          (\<exists>args'. dm_runtime_args (data_movement_kernels p' ! k) c = Some args' \<and>
             length args' = length args \<and>
             (\<forall>slot < length args. \<not> address_slot cs k slot \<longrightarrow> args' ! slot = args ! slot))"
    for k c
    unfolding p' args
    by (cases "dm_runtime_args (data_movement_kernels p ! k) c")
       (auto simp: patched_reader_args_def patched_writer_args_def address_slot_def)
  have post: "\<exists>xs ys.
          dm_runtime_args (data_movement_kernels p' ! cs_binary_reader_kernel cs)
            (CoreCoord (i div cs_num_cores_y cs) (i mod cs_num_cores_y cs)) = Some xs \<and>
          xs ! 0 = address ?a \<and> xs ! 4 = address ?b \<and>
          dm_runtime_args (data_movement_kernels p' ! cs_unary_writer_kernel cs)
            (CoreCoord (i div cs_num_cores_y cs) (i mod cs_num_cores_y cs)) = Some ys \<and>
          ys ! 0 = address ?d"
    if "i < cs_num_cores cs" for i
  proof -
    let ?c = "CoreCoord (i div cs_num_cores_y cs) (i mod cs_num_cores_y cs)"
    from that have v: "?S ?c"
      unfolding visited_from_zero by blast
    with pt obtain xs ys where
      xs: "dm_runtime_args (data_movement_kernels p ! cs_binary_reader_kernel cs) ?c = Some xs"
        "4 < length xs"
      and ys: "dm_runtime_args (data_movement_kernels p ! cs_unary_writer_kernel cs) ?c = Some ys"
        "0 < length ys"
      unfolding patchable_def by blast
    from xs(2) have "0 < length xs" by linarith
    then show ?thesis
      unfolding p' args using v xs ys ne
      by (simp add: patched_reader_args_def patched_writer_args_def)
  qed
  show ?thesis
    using frame post by (simp add: p' patched_program_static)
qed

text \<open>Claim C5 (idempotent patch). On a constructed program, when a call of the callback
  returns a program, a second call with the same buffers returns that same program.\<close>

theorem override_runtime_args_callback_idempotent:
  assumes build: "bcast_multi_core_hw ext a b output bcast_math bcast_dim = Inr (p, cs)"
    and call: "override_runtime_args_callback cs input_buffers output_buffers p = Inr p'"
  shows "override_runtime_args_callback cs input_buffers output_buffers p' = Inr p'"
proof -
  let ?a = "input_buffers ! 0" and ?b = "input_buffers ! 1" and ?d = "output_buffers ! 0"
  note pt = bcast_multi_core_hw_patchable [OF build]
  note r = callback_result [OF build call]
  from pt have ne: "cs_binary_reader_kernel cs \<noteq> cs_unary_writer_kernel cs"
    by (simp add: patchable_def)
  have "patchable cs p'"
    unfolding r(3) using pt by (rule patchable_patched)
  then have "override_runtime_args_callback cs input_buffers output_buffers p' =
      Inr (patched_program cs ?a ?b ?d p')"
    using r(1,2) by (simp add: override_runtime_args_callback_patchable)
  also have "patched_program cs ?a ?b ?d p' = p'"
    unfolding r(3) by (rule patched_program_idem [OF ne])
  finally show ?thesis .
qed

theorem override_runtime_args_callback_isolation_witness:
  "circular_buffers (example_program 1000 2000 3000) = circular_buffers (example_program 100 200 300) \<and>
   compute_kernels (example_program 1000 2000 3000) = compute_kernels (example_program 100 200 300) \<and>
   dm_runtime_args (data_movement_kernels (example_program 100 200 300) ! 0) (CoreCoord 1 0)
     = Some [100, 0, 0, 2, 200, 0, 0, 5, 2, 1, 1, 2, 1, 3, 1] \<and>
   dm_runtime_args (data_movement_kernels (example_program 1000 2000 3000) ! 0) (CoreCoord 1 0)
     = Some [1000, 0, 0, 2, 2000, 0, 0, 5, 2, 1, 1, 2, 1, 3, 1]"
proof -
  note t = override_runtime_args_callback_isolation [OF example_build example_patch]
  from t have "circular_buffers (example_program 1000 2000 3000)
      = circular_buffers (example_program 100 200 300)"
    "compute_kernels (example_program 1000 2000 3000) = compute_kernels (example_program 100 200 300)"
    by blast+
  then show ?thesis
    by (simp add: example_program_def example_kernels_def)
qed

theorem override_runtime_args_callback_idempotent_witness:
  "override_runtime_args_callback example_callback
     [\<lparr>address = 1000, buffer_type = DRAM\<rparr>, \<lparr>address = 2000, buffer_type = DRAM\<rparr>]
     [\<lparr>address = 3000, buffer_type = DRAM\<rparr>] (example_program 1000 2000 3000)
   = Inr (example_program 1000 2000 3000)"
  by (rule override_runtime_args_callback_idempotent [OF example_build example_patch])

section \<open>The tiling of the output\<close>

lemma prefix_sum_mono:
  fixes f :: "nat \<Rightarrow> nat"
  assumes "i \<le> n"
  shows "(\<Sum>k<i. f k) \<le> (\<Sum>k<n. f k)"
  using assms by (intro sum_mono2) auto

lemma windows_partition:
  fixes f :: "nat \<Rightarrow> nat"
  assumes "t < (\<Sum>k<n. f k)"
  shows "\<exists>!i. i < n \<and> (\<Sum>k<i. f k) \<le> t \<and> t < (\<Sum>k<i. f k) + f i"
  using assms
proof (induction n)
  case 0
  then show ?case by simp
next
  case (Suc n)
  show ?case
  proof (cases "t < (\<Sum>k<n. f k)")
    case True
    from Suc.IH [OF this] obtain i where i: "i < n" "(\<Sum>k<i. f k) \<le> t" "t < (\<Sum>k<i. f k) + f i"
      and uniq: "\<And>j. j < n \<and> (\<Sum>k<j. f k) \<le> t \<and> t < (\<Sum>k<j. f k) + f j \<Longrightarrow> j = i"
      by blast
    show ?thesis
    proof (rule ex1I [of _ i])
      from i show "i < Suc n \<and> (\<Sum>k<i. f k) \<le> t \<and> t < (\<Sum>k<i. f k) + f i"
        by simp
    next
      fix j assume j: "j < Suc n \<and> (\<Sum>k<j. f k) \<le> t \<and> t < (\<Sum>k<j. f k) + f j"
      with True have "j \<noteq> n" by auto
      with j have "j < n" by simp
      with j show "j = i" by (intro uniq) simp
    qed
  next
    case False
    show ?thesis
    proof (rule ex1I [of _ n])
      from False Suc.prems show "n < Suc n \<and> (\<Sum>k<n. f k) \<le> t \<and> t < (\<Sum>k<n. f k) + f n"
        by simp
    next
      fix j assume j: "j < Suc n \<and> (\<Sum>k<j. f k) \<le> t \<and> t < (\<Sum>k<j. f k) + f j"
      show "j = n"
      proof (rule ccontr)
        assume "j \<noteq> n"
        with j have "Suc j \<le> n" by simp
        then have "(\<Sum>k<Suc j. f k) \<le> (\<Sum>k<n. f k)"
          by (rule prefix_sum_mono)
        with j False show False by simp
      qed
    qed
  qed
qed

lemma prefix_sum_two_groups:
  fixes a b :: nat
  assumes "R \<le> n"
  shows "(\<Sum>k<n. if k < R then a else b) = R * a + (n - R) * b"
  using sum_two_groups [OF assms, of a b] by (simp add: lessThan_atLeast0)

lemma split_tiles_read_before:
  fixes grid_size :: CoreCoord and units_to_divide :: uint32_t
  defines "rows \<equiv> unat (coord_y grid_size)"
    and "tiles \<equiv> unat units_to_divide"
  defines "n \<equiv> min (unat (coord_x grid_size) * rows) tiles"
  defines "base \<equiv> (if n = 0 then 0 else tiles div n)"
    and "R \<equiv> (if n = 0 then 0 else tiles mod n)"
  assumes split: "split_work_to_cores grid_size units_to_divide =
      (num_cores, all_cores, g1, g2, t1, t2)"
    and sc: "ls_core_group_1 sc = g1" "ls_num_tiles_per_core_group_1 sc = t1"
      "ls_num_tiles_per_core_group_2 sc = t2" "ls_num_cores_y sc = coord_y grid_size"
  shows "j < n \<Longrightarrow>
      unat (tiles_of_core sc (CoreCoord (of_nat j div coord_y grid_size) (of_nat j mod coord_y grid_size)))
        = (if j < R then base + 1 else base)"
    and "j \<le> n \<Longrightarrow> unat (tiles_read_before sc j) = (\<Sum>k<j. if k < R then base + 1 else base)"
    and "0 < unat (coord_x grid_size) * unat (coord_y grid_size) \<or> tiles = 0 \<Longrightarrow>
      (\<Sum>k<n. if k < R then base + 1 else base) = tiles"
    and "unat num_cores = n"
    and "(\<Sum>k<n. if k < R then base + 1 else base) \<le> tiles"
proof -
  note f = split_work_to_cores_facts [OF split, folded rows_def tiles_def, folded n_def,
      folded base_def R_def]
  show n: "unat num_cores = n" by (rule f(1))
  have n32: "n < 2 ^ 32" using f(8,9) by linarith
  have R32: "R \<le> 2 ^ 32" using f(7) n32 by linarith
  show "(\<Sum>k<n. if k < R then base + 1 else base) = tiles"
    if "0 < unat (coord_x grid_size) * unat (coord_y grid_size) \<or> tiles = 0"
    unfolding prefix_sum_two_groups [OF f(7)] using that f(10) by (simp add: rows_def)
  show total: "(\<Sum>k<n. if k < R then base + 1 else base) \<le> tiles"
    unfolding prefix_sum_two_groups [OF f(7)] by (rule f(12))
  show cnt: "unat (tiles_of_core sc
        (CoreCoord (of_nat j div coord_y grid_size) (of_nat j mod coord_y grid_size)))
        = (if j < R then base + 1 else base)" if "j < n" for j
  proof -
    from that n32 have j32: "j < 2 ^ 32" by linarith
    then have uj: "unat (of_nat j :: uint32_t) = j"
      by (rule unat_of_nat_u32)
    have c: "CoreCoord (of_nat j div coord_y grid_size) (of_nat j mod coord_y grid_size)
        = core_of_index rows j"
      unfolding core_of_index_word uj rows_def ..
    have m: "core_coord_in_core_ranges g1 (core_of_index rows j) \<longleftrightarrow> j < R"
      unfolding f(3) using in_cores_between_index [OF j32 R32, of rows 0] by simp
    show ?thesis
    proof (cases "j < R")
      case True
      then have "0 < R" by simp
      with True show ?thesis
        unfolding tiles_of_core_def sc c m using f(6) by simp
    next
      case False
      then show ?thesis
        unfolding tiles_of_core_def sc c m using f(5) by simp
    qed
  qed
  show "unat (tiles_read_before sc j) = (\<Sum>k<j. if k < R then base + 1 else base)" if "j \<le> n" for j
    using that
  proof (induction j)
    case 0
    show ?case by simp
  next
    case (Suc j)
    then have jn: "j < n" and ih: "unat (tiles_read_before sc j)
        = (\<Sum>k<j. if k < R then base + 1 else base)"
      by simp_all
    have "(\<Sum>k<Suc j. if k < R then base + 1 else base)
        \<le> (\<Sum>k<n. if k < R then base + 1 else base)"
      using Suc.prems by (rule prefix_sum_mono)
    with total f(9) have b: "(\<Sum>k<Suc j. if k < R then base + 1 else base) < 2 ^ 32"
      by linarith
    let ?t = "tiles_of_core sc
        (CoreCoord (of_nat j div coord_y grid_size) (of_nat j mod coord_y grid_size))"
    have "unat (tiles_read_before sc j) + unat ?t
        = (\<Sum>k<Suc j. if k < R then base + 1 else base)"
      unfolding ih cnt [OF jn] by simp
    with b have "unat (tiles_read_before sc j + ?t)
        = (\<Sum>k<Suc j. if k < R then base + 1 else base)"
      using unat_add_lem [of "tiles_read_before sc j" ?t] by simp
    then show ?case
      by (simp add: sc)
  qed
qed

lemma bcast_multi_core_hw_windows:
  assumes build: "bcast_multi_core_hw ext a b output bcast_math bcast_dim = Inr (p, cs)"
    and sa: "shape a = Shape N C H W"
  obtains f :: "nat \<Rightarrow> nat" where
    "0 < unat (coord_x (compute_and_storage_grid_size (device a)))
        * unat (coord_y (compute_and_storage_grid_size (device a))) \<or>
     unat (N * C * (H div TILE_HEIGHT ext) * (W div TILE_WIDTH ext)) = 0 \<longrightarrow>
     (\<Sum>k<unat (cs_num_cores cs). f k)
       = unat (N * C * (H div TILE_HEIGHT ext) * (W div TILE_WIDTH ext))"
    "(\<Sum>k<unat (cs_num_cores cs). f k)
       \<le> unat (N * C * (H div TILE_HEIGHT ext) * (W div TILE_WIDTH ext))"
    "\<forall>i. i < cs_num_cores cs \<longrightarrow>
       writer_window p cs i = Some ((\<Sum>k<unat i. f k), (\<Sum>k<unat i. f k) + f (unat i)) \<and>
       reader_window p cs i = Some ((\<Sum>k<unat i. f k), (\<Sum>k<unat i. f k) + f (unat i))"
proof -
  from build obtain src0 src1 dst p0 sc where
    "buffer a = Some src0" "buffer b = Some src1" "buffer output = Some dst"
    and k: "bcast_multi_core_hw_kernels ext a b src0 src1 dst bcast_math bcast_dim = (p0, sc)"
    and cs: "cs = \<lparr>cs_binary_reader_kernel = 0, cs_unary_writer_kernel = 1,
           cs_num_cores = ls_num_cores sc, cs_num_cores_y = ls_num_cores_y sc\<rparr>"
    and r: "\<forall>c. dm_runtime_args (data_movement_kernels p ! 0) c =
       (if visited_from (ls_num_cores_y sc) (ls_num_cores sc) 0 c
        then Some (reader_runtime_args sc (tiles_of_core sc c)
               (tiles_read_before sc (unat (core_index (ls_num_cores_y sc) c))))
        else None)"
    and w: "\<forall>c. dm_runtime_args (data_movement_kernels p ! 1) c =
       (if visited_from (ls_num_cores_y sc) (ls_num_cores sc) 0 c
        then Some (writer_runtime_args sc (tiles_of_core sc c)
               (tiles_read_before sc (unat (core_index (ls_num_cores_y sc) c))))
        else None)"
    by (rule bcast_multi_core_hw_runtime_args)
  obtain bN bC bH bW where sb: "shape b = Shape bN bC bH bW" by (cases "shape b")
  let ?grid = "compute_and_storage_grid_size (device a)"
  let ?units = "N * C * (H div TILE_HEIGHT ext) * (W div TILE_WIDTH ext)"
  obtain num_cores all_cores g1 g2 t1 t2 where split:
    "split_work_to_cores ?grid ?units = (num_cores, all_cores, g1, g2, t1, t2)"
    by (metis prod_cases6)
  from k bcast_multi_core_hw_kernels_eq [OF sa sb split, of src0 src1 dst bcast_math bcast_dim]
  have sc: "ls_core_group_1 sc = g1" "ls_num_tiles_per_core_group_1 sc = t1"
      "ls_num_tiles_per_core_group_2 sc = t2" "ls_num_cores_y sc = coord_y ?grid"
    and nc: "ls_num_cores sc = num_cores"
    by auto
  define n where "n = min (unat (coord_x ?grid) * unat (coord_y ?grid)) (unat ?units)"
  define base where "base = (if n = 0 then 0 else unat ?units div n)"
  define R where "R = (if n = 0 then 0 else unat ?units mod n)"
  define f where "f = (\<lambda>k. if k < R then base + 1 else base)"
  note s = split_tiles_read_before [OF split sc, folded n_def, folded base_def R_def]
  have total: "0 < unat (coord_x ?grid) * unat (coord_y ?grid) \<or> unat ?units = 0 \<longrightarrow>
      (\<Sum>k<unat (cs_num_cores cs). f k) = unat ?units"
    unfolding f_def using s(3) s(4) by (simp add: cs nc)
  have bound: "(\<Sum>k<unat (cs_num_cores cs). f k) \<le> unat ?units"
    unfolding f_def using s(5) s(4) by (simp add: cs nc)
  have win: "writer_window p cs i = Some ((\<Sum>k<unat i. f k), (\<Sum>k<unat i. f k) + f (unat i)) \<and>
       reader_window p cs i = Some ((\<Sum>k<unat i. f k), (\<Sum>k<unat i. f k) + f (unat i))"
    if "i < cs_num_cores cs" for i
  proof -
    let ?c = "CoreCoord (i div ls_num_cores_y sc) (i mod ls_num_cores_y sc)"
    from that have lt: "i < ls_num_cores sc" by (simp add: cs)
    then have v: "visited_from (ls_num_cores_y sc) (ls_num_cores sc) 0 ?c"
      unfolding visited_from_zero by blast
    from lt have jn: "unat i < n" "unat i \<le> n"
      by (simp_all add: word_less_nat_alt nc s(4))
    have "unat (tiles_of_core sc (CoreCoord (of_nat (unat i) div coord_y ?grid)
        (of_nat (unat i) mod coord_y ?grid))) = f (unat i)"
      unfolding f_def by (rule s(1) [OF jn(1)])
    then have cnt: "unat (tiles_of_core sc ?c) = f (unat i)"
      by (simp add: sc(4))
    have off: "unat (tiles_read_before sc (unat i)) = (\<Sum>k<unat i. f k)"
      unfolding f_def by (rule s(2) [OF jn(2)])
    have ci: "core_index (ls_num_cores_y sc) ?c = i"
      by simp
    from v r [rule_format, of ?c]
    have ra: "dm_runtime_args (data_movement_kernels p ! cs_binary_reader_kernel cs) ?c
        = Some (reader_runtime_args sc (tiles_of_core sc ?c) (tiles_read_before sc (unat i)))"
      by (simp add: cs)
    from v w [rule_format, of ?c]
    have wa: "dm_runtime_args (data_movement_kernels p ! cs_unary_writer_kernel cs) ?c
        = Some (writer_runtime_args sc (tiles_of_core sc ?c) (tiles_read_before sc (unat i)))"
      by (simp add: cs)
    have y: "cs_num_cores_y cs = ls_num_cores_y sc"
      by (simp add: cs)
    show ?thesis
      unfolding writer_window_def reader_window_def y ra wa
      using cnt off by (simp add: writer_runtime_args_def reader_runtime_args_def)
  qed
  from win have "\<forall>i. i < cs_num_cores cs \<longrightarrow>
       writer_window p cs i = Some ((\<Sum>k<unat i. f k), (\<Sum>k<unat i. f k) + f (unat i)) \<and>
       reader_window p cs i = Some ((\<Sum>k<unat i. f k), (\<Sum>k<unat i. f k) + f (unat i))"
    by blast
  with total bound show ?thesis
    by (rule that)
qed

text \<open>Against claim C1 as stated: on a grid of \<open>2 x 0\<close> cores, with operand A of five tiles,
  the construction succeeds with no active core and stores no window on any core, so that
  no tile of \<open>[0, 5)\<close> lies in a window.\<close>

theorem bcast_multi_core_hw_tiling_counterexample:
  "bcast_multi_core_hw example_externals
     (example_tensor (Shape 1 5 32 32) 100 (CoreCoord 2 0))
     (example_tensor (Shape 1 1 32 32) 200 (CoreCoord 2 0))
     (example_tensor (Shape 1 5 32 32) 300 (CoreCoord 2 0))
     BcastOpMath_ADD BcastOpDim_HW
   = Inr (example_empty_program,
          \<lparr>cs_binary_reader_kernel = 0, cs_unary_writer_kernel = 1,
           cs_num_cores = 0, cs_num_cores_y = 0\<rparr>) \<and>
   unat (1 * 5 * (32 div TILE_HEIGHT example_externals) * (32 div TILE_WIDTH example_externals)
     :: uint32_t) = 5 \<and>
   (\<forall>i. writer_window example_empty_program
          \<lparr>cs_binary_reader_kernel = 0, cs_unary_writer_kernel = 1,
           cs_num_cores = 0, cs_num_cores_y = 0\<rparr> i = None) \<and>
   (\<forall>i. reader_window example_empty_program
          \<lparr>cs_binary_reader_kernel = 0, cs_unary_writer_kernel = 1,
           cs_num_cores = 0, cs_num_cores_y = 0\<rparr> i = None)"
  by (simp add: example_eval example_empty_program_def writer_window_def reader_window_def)

text \<open>Claim C1, amended (tiling partition). A constructed program has
  \<open>min (cols * rows) total_tiles\<close> active cores, visited in the order
  \<open>i -> (i / rows, i % rows)\<close> over the rows of the grid. The windows
  \<open>[next_tile, next_tile + tiles_per_core)\<close> that the loop stored, in the writer's arguments
  and, the same, in the reader's, lie inside \<open>[0, total_tiles)\<close>; the window of index 0
  starts at 0 and the window of index \<open>i + 1\<close> starts where the window of index \<open>i\<close> ends; and, on
  a grid with at least one core, every tile \<open>t < total_tiles\<close> lies in the window of exactly
  one index \<open>i < num_cores\<close>.\<close>

theorem bcast_multi_core_hw_tiling:
  assumes build: "bcast_multi_core_hw ext a b output bcast_math bcast_dim = Inr (p, cs)"
    and sa: "shape a = Shape N C H W"
  shows "unat (cs_num_cores cs) =
       min (unat (coord_x (compute_and_storage_grid_size (device a)))
              * unat (coord_y (compute_and_storage_grid_size (device a))))
           (unat (N * C * (H div TILE_HEIGHT ext) * (W div TILE_WIDTH ext))) \<and>
    cs_num_cores_y cs = coord_y (compute_and_storage_grid_size (device a)) \<and>
    (\<forall>i. i < cs_num_cores cs \<longrightarrow>
       (\<exists>lo hi. writer_window p cs i = Some (lo, hi) \<and> reader_window p cs i = Some (lo, hi) \<and>
          lo \<le> hi \<and> hi \<le> unat (N * C * (H div TILE_HEIGHT ext) * (W div TILE_WIDTH ext)))) \<and>
    (0 < cs_num_cores cs \<longrightarrow> (\<exists>hi. writer_window p cs 0 = Some (0, hi))) \<and>
    (\<forall>i. i < cs_num_cores cs \<and> i + 1 < cs_num_cores cs \<longrightarrow>
       (\<exists>lo mid hi. writer_window p cs i = Some (lo, mid) \<and>
          writer_window p cs (i + 1) = Some (mid, hi))) \<and>
    (0 < unat (coord_x (compute_and_storage_grid_size (device a)))
        * unat (coord_y (compute_and_storage_grid_size (device a))) \<longrightarrow>
     (\<forall>t. t < unat (N * C * (H div TILE_HEIGHT ext) * (W div TILE_WIDTH ext)) \<longrightarrow>
       (\<exists>!i. i < cs_num_cores cs \<and>
          (\<exists>lo hi. writer_window p cs i = Some (lo, hi) \<and> lo \<le> t \<and> t < hi))))"
proof -
  let ?total = "unat (N * C * (H div TILE_HEIGHT ext) * (W div TILE_WIDTH ext))"
  let ?n = "unat (cs_num_cores cs)"
  let ?grid = "compute_and_storage_grid_size (device a)"
  from build sa obtain f :: "nat \<Rightarrow> nat" where
    total: "0 < unat (coord_x ?grid) * unat (coord_y ?grid) \<or> ?total = 0 \<longrightarrow>
      (\<Sum>k<?n. f k) = ?total"
    and bound: "(\<Sum>k<?n. f k) \<le> ?total"
    and win: "\<forall>i. i < cs_num_cores cs \<longrightarrow>
       writer_window p cs i = Some ((\<Sum>k<unat i. f k), (\<Sum>k<unat i. f k) + f (unat i)) \<and>
       reader_window p cs i = Some ((\<Sum>k<unat i. f k), (\<Sum>k<unat i. f k) + f (unat i))"
    by (rule bcast_multi_core_hw_windows)
  have inside: "\<exists>lo hi. writer_window p cs i = Some (lo, hi) \<and> reader_window p cs i = Some (lo, hi) \<and>
          lo \<le> hi \<and> hi \<le> ?total" if "i < cs_num_cores cs" for i
  proof -
    from that have "Suc (unat i) \<le> ?n"
      by (simp add: word_less_nat_alt)
    then have "(\<Sum>k<Suc (unat i). f k) \<le> (\<Sum>k<?n. f k)"
      by (rule prefix_sum_mono)
    with bound have "(\<Sum>k<unat i. f k) + f (unat i) \<le> ?total"
      by simp
    with win that show ?thesis by simp
  qed
  have first: "\<exists>hi. writer_window p cs 0 = Some (0, hi)" if "0 < cs_num_cores cs"
    using win that by simp
  have consecutive: "\<exists>lo mid hi. writer_window p cs i = Some (lo, mid) \<and>
          writer_window p cs (i + 1) = Some (mid, hi)"
    if "i < cs_num_cores cs" "i + 1 < cs_num_cores cs" for i
  proof -
    have "unat (i + 1) = Suc (unat i)"
      by (rule unat_word_Suc [OF that(1)])
    with win that show ?thesis by simp
  qed
  have unique: "\<exists>!i. i < cs_num_cores cs \<and>
          (\<exists>lo hi. writer_window p cs i = Some (lo, hi) \<and> lo \<le> t \<and> t < hi)"
    if "0 < unat (coord_x ?grid) * unat (coord_y ?grid)" "t < ?total" for t
  proof -
    from that total have "t < (\<Sum>k<?n. f k)"
      by simp
    from windows_partition [OF this] obtain j where
      j: "j < ?n" "(\<Sum>k<j. f k) \<le> t" "t < (\<Sum>k<j. f k) + f j"
      and uniq: "\<And>j'. j' < ?n \<and> (\<Sum>k<j'. f k) \<le> t \<and> t < (\<Sum>k<j'. f k) + f j' \<Longrightarrow> j' = j"
      by blast
    define i :: uint32_t where "i = of_nat j"
    have "j < 2 ^ 32"
      using j(1) unat_u32_bound [of "cs_num_cores cs"] by linarith
    then have ui: "unat i = j"
      unfolding i_def by (rule unat_of_nat_u32)
    with j(1) have lt: "i < cs_num_cores cs"
      by (simp add: word_less_nat_alt)
    show ?thesis
    proof (rule ex1I [of _ i])
      from win lt j ui show "i < cs_num_cores cs \<and>
          (\<exists>lo hi. writer_window p cs i = Some (lo, hi) \<and> lo \<le> t \<and> t < hi)"
        by simp
    next
      fix i' assume i': "i' < cs_num_cores cs \<and>
          (\<exists>lo hi. writer_window p cs i' = Some (lo, hi) \<and> lo \<le> t \<and> t < hi)"
      with win have "unat i' < ?n \<and> (\<Sum>k<unat i'. f k) \<le> t \<and>
          t < (\<Sum>k<unat i'. f k) + f (unat i')"
        by (auto simp: word_less_nat_alt)
      then have "unat i' = j" by (rule uniq)
      with ui show "i' = i"
        by (simp add: word_unat_eq_iff)
    qed
  qed
  note nc = bcast_multi_core_hw_num_cores [OF build sa]
  from nc(1) nc(2) inside first consecutive unique show ?thesis
    by blast
qed

theorem bcast_multi_core_hw_tiling_witness:
  "0 < unat (coord_x (CoreCoord 2 1)) * unat (coord_y (CoreCoord 2 1)) \<and>
   (0 :: uint32_t) < cs_num_cores example_callback \<and>
   writer_window (example_program 100 200 300) example_callback 0 = Some (0, 3) \<and>
   writer_window (example_program 100 200 300) example_callback 1 = Some (3, 5) \<and>
   reader_window (example_program 100 200 300) example_callback 1 = Some (3, 5) \<and>
   unat (1 * 5 * (32 div TILE_HEIGHT example_externals) * (32 div TILE_WIDTH example_externals)
     :: uint32_t) = 5"
proof -
  have sa: "shape example_a = Shape 1 5 32 32"
    by (simp add: example_a_def example_tensor_def)
  have grid: "0 < unat (coord_x (compute_and_storage_grid_size (device example_a)))
        * unat (coord_y (compute_and_storage_grid_size (device example_a)))"
    by (simp add: example_a_def example_tensor_def)
  have lt: "(0 :: uint32_t) < cs_num_cores example_callback"
    by (simp add: example_callback_def)
  note t = bcast_multi_core_hw_tiling [OF example_build sa]
  have u3: "(3 :: nat) < unat (1 * 5 * (32 div TILE_HEIGHT example_externals)
      * (32 div TILE_WIDTH example_externals) :: uint32_t)"
    by (simp add: example_externals_def)
  from t grid u3 have "\<exists>!i. i < cs_num_cores example_callback \<and>
      (\<exists>lo hi. writer_window (example_program 100 200 300) example_callback i = Some (lo, hi)
         \<and> lo \<le> 3 \<and> 3 < hi)"
    by blast
  from t lt obtain hi where
    "writer_window (example_program 100 200 300) example_callback 0 = Some (0, hi)"
    by blast
  then have w0: "writer_window (example_program 100 200 300) example_callback 0 = Some (0, 3)"
    by (simp add: writer_window_def example_program_def example_kernels_def example_callback_def)
  have w1: "writer_window (example_program 100 200 300) example_callback 1 = Some (3, 5)"
    "reader_window (example_program 100 200 300) example_callback 1 = Some (3, 5)"
    by (simp_all add: writer_window_def reader_window_def example_program_def
        example_kernels_def example_callback_def)
  have u: "unat (1 * 5 * (32 div TILE_HEIGHT example_externals)
      * (32 div TILE_WIDTH example_externals) :: uint32_t) = 5"
    by (simp add: example_externals_def)
  from lt w0 w1 u show ?thesis
    by simp
qed


end
